(* ===== verification/Prelude.thy ===== *)
theory Prelude
  imports Main "HOL-Library.Word"
begin

text \<open>
  Shared material of the development: the machine integers of the C sources, the faults a C
  expression can run into (each one a value of a sum type, so that every crash of the sources is a
  branch of the model), loads and stores of multi-byte fields in byte buffers on a little-endian
  host, byte-order conversion, and C strings held in fixed-size arrays.
\<close>

unbundle bit_operations_syntax

named_theorems mem_simps \<open>reads after writes in byte buffers\<close>
named_theorems res_simps \<open>sequencing of fallible computations\<close>

section \<open>Machine integers and faults\<close>

type_synonym u8 = "8 word"
type_synonym u16 = "16 word"
type_synonym u32 = "32 word"
type_synonym u64 = "64 word"
type_synonym bytes = "u8 list"

datatype fault =
    NullDeref      \<comment> \<open>a null pointer is dereferenced\<close>
  | OutOfBounds    \<comment> \<open>a load or store outside its object\<close>
  | UseAfterFree   \<comment> \<open>a pointer to a freed object is dereferenced\<close>
  | AssertFailed   \<comment> \<open>an assertion of the source does not hold\<close>
  | OutOfFuel      \<comment> \<open>the recursion bound of the model is used up\<close>

type_synonym 'a res = "fault + 'a"

definition rbind :: "'a res \<Rightarrow> ('a \<Rightarrow> 'b res) \<Rightarrow> 'b res" where
  "rbind r f = (case r of Inl e \<Rightarrow> Inl e | Inr x \<Rightarrow> f x)"

definition guard :: "fault \<Rightarrow> bool \<Rightarrow> unit res" where
  "guard e b = (if b then Inr () else Inl e)"

definition deref :: "'a option \<Rightarrow> 'a res" where
  "deref p = (case p of None \<Rightarrow> Inl NullDeref | Some x \<Rightarrow> Inr x)"

lemma rbind_Inl [simp, res_simps]: "rbind (Inl e) f = Inl e"
  by (simp add: rbind_def)

lemma rbind_Inr [simp, res_simps]: "rbind (Inr x) f = f x"
  by (simp add: rbind_def)

lemma rbind_eq_Inr_iff [res_simps]: "rbind r f = Inr y \<longleftrightarrow> (\<exists>x. r = Inr x \<and> f x = Inr y)"
  by (cases r) auto

lemma rbind_eq_Inl_iff [res_simps]:
  "rbind r f = Inl e \<longleftrightarrow> r = Inl e \<or> (\<exists>x. r = Inr x \<and> f x = Inl e)"
  by (cases r) auto

lemma rbind_assoc: "rbind (rbind r f) g = rbind r (\<lambda>x. rbind (f x) g)"
  by (cases r) simp_all

lemma guard_eq_Inr_iff [res_simps]: "guard e b = Inr u \<longleftrightarrow> b"
  by (simp add: guard_def)

lemma guard_eq_Inl_iff [res_simps]: "guard e b = Inl e' \<longleftrightarrow> \<not> b \<and> e' = e"
  by (auto simp: guard_def)

lemma guard_True [simp, res_simps]: "guard e True = Inr ()"
  by (simp add: guard_def)

lemma guard_False [simp, res_simps]: "guard e False = Inl e"
  by (simp add: guard_def)

lemma deref_simps [simp, res_simps]: "deref None = Inl NullDeref" "deref (Some x) = Inr x"
  by (simp_all add: deref_def)

lemma deref_eq_Inr_iff [res_simps]: "deref p = Inr x \<longleftrightarrow> p = Some x"
  by (cases p) auto

section \<open>Byte order\<close>

definition bswap16 :: "u16 \<Rightarrow> u16" where
  "bswap16 x = push_bit 8 x OR drop_bit 8 x"

definition bswap32 :: "u32 \<Rightarrow> u32" where
  "bswap32 x = push_bit 24 (x AND 0xFF) OR push_bit 8 (x AND 0xFF00)
     OR drop_bit 8 (x AND 0xFF0000) OR drop_bit 24 x"

abbreviation htons :: "u16 \<Rightarrow> u16" where "htons \<equiv> bswap16"
abbreviation ntohs :: "u16 \<Rightarrow> u16" where "ntohs \<equiv> bswap16"
abbreviation htonl :: "u32 \<Rightarrow> u32" where "htonl \<equiv> bswap32"
abbreviation ntohl :: "u32 \<Rightarrow> u32" where "ntohl \<equiv> bswap32"

lemma bit_bswap16:
  "bit (bswap16 x) n \<longleftrightarrow> (if n < 8 then bit x (n + 8) else n < 16 \<and> bit x (n - 8))"
  by (auto simp: bswap16_def bit_simps add.commute dest: bit_imp_le_length)

lemma bswap16_bswap16 [simp]: "bswap16 (bswap16 x) = x"
  by (rule bit_word_eqI) (auto simp: bit_bswap16)

lemma bswap16_eq_iff [simp]: "bswap16 x = bswap16 y \<longleftrightarrow> x = y"
  by (metis bswap16_bswap16)

lemma bit_bswap32:
  "bit (bswap32 x) n \<longleftrightarrow>
     (if n < 8 then bit x (n + 24) else if n < 16 then bit x (n + 8)
      else if n < 24 then bit x (n - 8) else n < 32 \<and> bit x (n - 24))"
proof -
  have m: "(0xFF :: u32) = mask 8" "(0xFF00 :: u32) = push_bit 8 (mask 8)"
    "(0xFF0000 :: u32) = push_bit 16 (mask 8)"
    by (simp_all add: mask_eq_exp_minus_1 push_bit_eq_mult)
  show ?thesis
    unfolding bswap32_def m
    by (auto simp: bit_simps add.commute dest: bit_imp_le_length)
qed

lemma bswap32_bswap32 [simp]: "bswap32 (bswap32 x) = x"
  by (rule bit_word_eqI) (auto simp: bit_bswap32)

lemma bswap32_eq_iff [simp]: "bswap32 x = bswap32 y \<longleftrightarrow> x = y"
  by (metis bswap32_bswap32)

section \<open>Byte buffers\<close>

text \<open>
  A buffer is the list of its bytes. \<open>bslice b off n\<close> are the \<open>n\<close> bytes at offset \<open>off\<close>;
  \<open>st_bytes\<close> is \<^verbatim>\<open>memcpy(b + off, src, length src)\<close>; a multi-byte field is loaded and stored
  in the order of a little-endian host.
\<close>

definition bslice :: "'a list \<Rightarrow> nat \<Rightarrow> nat \<Rightarrow> 'a list" where
  "bslice b off n = take n (drop off b)"

fun st_bytes :: "'a list \<Rightarrow> nat \<Rightarrow> 'a list \<Rightarrow> 'a list" where
  "st_bytes b off [] = b"
| "st_bytes b off (x # xs) = st_bytes (b[off := x]) (Suc off) xs"

definition le16 :: "u16 \<Rightarrow> bytes" where
  "le16 v = [ucast v, ucast (drop_bit 8 v)]"

definition le32 :: "u32 \<Rightarrow> bytes" where
  "le32 v = [ucast v, ucast (drop_bit 8 v), ucast (drop_bit 16 v), ucast (drop_bit 24 v)]"

definition ld16 :: "bytes \<Rightarrow> nat \<Rightarrow> u16" where
  "ld16 b off = ucast (b ! off) OR push_bit 8 (ucast (b ! (off + 1)))"

definition ld32 :: "bytes \<Rightarrow> nat \<Rightarrow> u32" where
  "ld32 b off = ucast (b ! off) OR push_bit 8 (ucast (b ! (off + 1)))
     OR push_bit 16 (ucast (b ! (off + 2))) OR push_bit 24 (ucast (b ! (off + 3)))"

abbreviation st8 :: "bytes \<Rightarrow> nat \<Rightarrow> u8 \<Rightarrow> bytes" where
  "st8 b off v \<equiv> st_bytes b off [v]"

abbreviation st16 :: "bytes \<Rightarrow> nat \<Rightarrow> u16 \<Rightarrow> bytes" where
  "st16 b off v \<equiv> st_bytes b off (le16 v)"

abbreviation st32 :: "bytes \<Rightarrow> nat \<Rightarrow> u32 \<Rightarrow> bytes" where
  "st32 b off v \<equiv> st_bytes b off (le32 v)"

lemma length_le16 [simp]: "length (le16 v) = 2"
  by (simp add: le16_def)

lemma length_le32 [simp]: "length (le32 v) = 4"
  by (simp add: le32_def)

lemma length_bslice [simp]: "length (bslice b off n) = min n (length b - off)"
  by (simp add: bslice_def)

lemma length_st_bytes [simp]: "length (st_bytes b off xs) = length b"
  by (induction b off xs rule: st_bytes.induct) auto

lemma nth_bslice [simp]: "i < n \<Longrightarrow> off + i < length b \<Longrightarrow> bslice b off n ! i = b ! (off + i)"
  by (simp add: bslice_def)

lemma nth_st_bytes [mem_simps]:
  "st_bytes b off xs ! i =
     (if off \<le> i \<and> i < off + length xs \<and> i < length b then xs ! (i - off) else b ! i)"
proof (induction b off xs rule: st_bytes.induct)
  case (1 b off)
  then show ?case by auto
next
  case (2 b off x xs)
  show ?case
  proof (cases "i = off")
    case True
    with 2 show ?thesis by (cases "i < length b") (auto simp: list_update_beyond)
  next
    case False
    with 2 show ?thesis by (auto simp: nth_Cons' Suc_le_eq)
  qed
qed

lemma st_bytes_same [mem_simps]:
  "length xs = length ys \<Longrightarrow> st_bytes (st_bytes b off xs) off ys = st_bytes b off ys"
  by (rule nth_equalityI) (auto simp: nth_st_bytes)

lemma st_bytes_append:
  "st_bytes b off (xs @ ys) = st_bytes (st_bytes b off xs) (off + length xs) ys"
  by (induction b off xs rule: st_bytes.induct) auto

lemma st_bytes_swap:
  "off + length xs \<le> off' \<Longrightarrow>
   st_bytes (st_bytes b off' ys) off xs = st_bytes (st_bytes b off xs) off' ys"
  by (rule nth_equalityI) (auto simp: nth_st_bytes)

lemma bslice_st_bytes_same [mem_simps]:
  "off + length xs \<le> length b \<Longrightarrow> n = length xs \<Longrightarrow> bslice (st_bytes b off xs) off n = xs"
  by (rule nth_equalityI) (auto simp: nth_st_bytes)

lemma bslice_st_bytes_disjoint [mem_simps]:
  "off' + n \<le> off \<or> off + length xs \<le> off' \<Longrightarrow> bslice (st_bytes b off xs) off' n = bslice b off' n"
  by (rule nth_equalityI) (auto simp: nth_st_bytes)

lemma bslice_st_bytes_inside [mem_simps]:
  "off' \<le> off \<Longrightarrow> off + length xs \<le> off' + n \<Longrightarrow>
   bslice (st_bytes b off xs) off' n = st_bytes (bslice b off' n) (off - off') xs"
  by (rule nth_equalityI) (auto simp: nth_st_bytes add.commute)

lemma bit_u8_ge [simp]: "8 \<le> n \<Longrightarrow> \<not> bit (x :: u8) n"
  by (auto dest: bit_imp_le_length)

lemma ucast_low_byte: "ucast (ucast (a :: u8) OR push_bit 8 (ucast (c :: u8)) :: u16) = a"
  by (rule bit_word_eqI) (auto simp: bit_simps)

lemma ucast_high_byte:
  "ucast (drop_bit 8 (ucast (a :: u8) OR push_bit 8 (ucast (c :: u8)) :: u16)) = c"
  by (rule bit_word_eqI) (auto simp: bit_simps)

lemma le16_ld16: "off + 1 < length b \<Longrightarrow> le16 (ld16 b off) = bslice b off 2"
  by (rule nth_equalityI)
    (auto simp: le16_def ld16_def ucast_low_byte ucast_high_byte less_Suc_eq numeral_2_eq_2
      simp del: drop_bit_or)

lemma ld16_of_le16: "b ! off = le16 v ! 0 \<Longrightarrow> b ! (off + 1) = le16 v ! 1 \<Longrightarrow> ld16 b off = v"
  by (rule bit_word_eqI) (auto simp: le16_def ld16_def bit_simps)

lemma ld16_st16_same [mem_simps]: "off + 1 < length b \<Longrightarrow> ld16 (st16 b off v) off = v"
  by (rule ld16_of_le16) (auto simp: nth_st_bytes)

lemma ld16_st_bytes_disjoint [mem_simps]:
  "off' + 1 < off \<or> off + length xs \<le> off' \<Longrightarrow> ld16 (st_bytes b off xs) off' = ld16 b off'"
  by (auto simp: ld16_def nth_st_bytes)

lemma ld32_of_le32:
  assumes "\<And>i. i < 4 \<Longrightarrow> b ! (off + i) = le32 v ! i"
  shows "ld32 b off = v"
proof (rule bit_word_eqI)
  fix n assume n: "n < LENGTH(32)"
  from assms [of 0] assms [of 1] assms [of 2] assms [of 3]
  have "b ! off = ucast v" "b ! (off + 1) = ucast (drop_bit 8 v)"
    "b ! (off + 2) = ucast (drop_bit 16 v)" "b ! (off + 3) = ucast (drop_bit 24 v)"
    by (simp_all add: le32_def)
  then have "bit (ld32 b off) n \<longleftrightarrow> n < 8 \<and> bit v n \<or> 8 \<le> n \<and> n < 16 \<and> bit v n
      \<or> 16 \<le> n \<and> n < 24 \<and> bit v n \<or> 24 \<le> n \<and> n < 32 \<and> bit v n"
    using n by (auto simp: ld32_def bit_simps)
  with n show "bit (ld32 b off) n = bit v n"
    by auto
qed

lemma ld32_st32_same [mem_simps]: "off + 3 < length b \<Longrightarrow> ld32 (st32 b off v) off = v"
  by (rule ld32_of_le32) (auto simp: nth_st_bytes)

lemma ld32_st_bytes_disjoint [mem_simps]:
  "off' + 3 < off \<or> off + length xs \<le> off' \<Longrightarrow> ld32 (st_bytes b off xs) off' = ld32 b off'"
  by (auto simp: ld32_def nth_st_bytes)

section \<open>C strings in fixed arrays\<close>

text \<open>
  A \<^verbatim>\<open>char[n]\<close> array that only \<^verbatim>\<open>strncpy\<close> and \<^verbatim>\<open>strncmp\<close> touch is represented by the string
  it holds: the characters before the first NUL, at most \<open>n\<close> of them.
\<close>

definition strncpy :: "nat \<Rightarrow> string \<Rightarrow> string" where
  "strncpy n s = take n (takeWhile (\<lambda>c. c \<noteq> CHR 0x00) s)"

definition strncmp_eq :: "nat \<Rightarrow> string \<Rightarrow> string \<Rightarrow> bool" where
  "strncmp_eq n s t \<longleftrightarrow> strncpy n s = strncpy n t"

definition strncpy_bytes :: "nat \<Rightarrow> string \<Rightarrow> bytes" where
  "strncpy_bytes n s = (let t = map of_char (strncpy n s) in t @ replicate (n - length t) 0)"

definition string_of_bytes :: "bytes \<Rightarrow> string" where
  "string_of_bytes bs = map (\<lambda>b. char_of (unat b)) bs"

lemma strncpy_idem [simp]: "strncpy n (strncpy n s) = strncpy n s"
  unfolding strncpy_def
  by (metis (no_types, lifting) in_set_takeD set_takeWhileD take_take min.idem takeWhile_eq_all_conv)

lemma length_strncpy_le: "length (strncpy n s) \<le> n"
  by (simp add: strncpy_def)

lemma length_strncpy_bytes [simp]: "length (strncpy_bytes n s) = n"
  by (simp add: strncpy_bytes_def Let_def length_strncpy_le)

lemma strncmp_eq_strncpy [simp]:
  "strncmp_eq n (strncpy n s) t = strncmp_eq n s t"
  "strncmp_eq n s (strncpy n t) = strncmp_eq n s t"
  by (simp_all add: strncmp_eq_def)

lemma strncmp_eq_refl [simp]: "strncmp_eq n s s"
  by (simp add: strncmp_eq_def)

lemma unat_u8_less: "unat (x :: u8) < 256"
  using unsigned_less [of x] by simp

end
