(* ===== verification/Packed.thy ===== *)
theory Packed
  imports Prelude
begin

text \<open>
  Packed C structs laid over byte buffers (\<^verbatim>\<open>(struct hdr *)(buf + off)\<close>): a struct is a record with
  an encoder to and a decoder from its bytes. The locale \<open>packed_struct\<close> states what code that reads
  and writes headers in place relies on, and is interpreted for every header of the repository.
\<close>

section \<open>Struct overlays\<close>

definition ld_struct :: "nat \<Rightarrow> (bytes \<Rightarrow> 's) \<Rightarrow> bytes \<Rightarrow> nat \<Rightarrow> 's" where
  "ld_struct sz dec b off = dec (bslice b off sz)"

locale packed_struct =
  fixes sz :: nat
    and enc :: "'s \<Rightarrow> bytes"
    and dec :: "bytes \<Rightarrow> 's"
    and wf :: "'s \<Rightarrow> bool"
  assumes length_enc: "wf s \<Longrightarrow> length (enc s) = sz"
    and dec_enc: "wf s \<Longrightarrow> dec (enc s) = s"
    and enc_dec: "length b = sz \<Longrightarrow> enc (dec b) = b"
    and wf_dec: "length b = sz \<Longrightarrow> wf (dec b)"
begin

lemma ld_st_same:
  "wf s \<Longrightarrow> off + sz \<le> length b \<Longrightarrow> ld_struct sz dec (st_bytes b off (enc s)) off = s"
  by (simp add: ld_struct_def bslice_st_bytes_same length_enc dec_enc)

lemma ld_st_other:
  "off' + sz \<le> off \<or> off + length xs \<le> off' \<Longrightarrow>
   ld_struct sz dec (st_bytes b off xs) off' = ld_struct sz dec b off'"
  by (simp add: ld_struct_def bslice_st_bytes_disjoint)

lemma wf_ld: "off + sz \<le> length b \<Longrightarrow> wf (ld_struct sz dec b off)"
  by (simp add: ld_struct_def wf_dec)

lemma enc_ld: "off + sz \<le> length b \<Longrightarrow> enc (ld_struct sz dec b off) = bslice b off sz"
  by (simp add: ld_struct_def enc_dec)

lemma st_ld_id: "off + sz \<le> length b \<Longrightarrow> st_bytes b off (enc (ld_struct sz dec b off)) = b"
  by (rule nth_equalityI) (auto simp: enc_ld nth_st_bytes)

lemma st_st_same:
  "wf s \<Longrightarrow> wf t \<Longrightarrow> st_bytes (st_bytes b off (enc s)) off (enc t) = st_bytes b off (enc t)"
  by (simp add: st_bytes_same length_enc)

lemma bslice_st:
  "wf s \<Longrightarrow> off + sz \<le> length b \<Longrightarrow> bslice (st_bytes b off (enc s)) off sz = enc s"
  by (simp add: bslice_st_bytes_same length_enc)

end

section \<open>Bytes of machine words\<close>

lemma ucast_recombine16 [simp]:
  "ucast (ucast v :: u8) OR push_bit 8 (ucast (ucast (drop_bit 8 v) :: u8)) = (v :: u16)"
  using ld16_of_le16 [of "le16 v" 0 v] by (simp add: ld16_def le16_def)

lemma ld16_append_le16:
  "length xs = off \<Longrightarrow> ld16 (xs @ le16 v @ ys) off = v"
  by (rule ld16_of_le16) (auto simp: nth_append)

lemma ld32_append_le32:
  "length xs = off \<Longrightarrow> ld32 (xs @ le32 v @ ys) off = v"
  by (rule ld32_of_le32) (auto simp: nth_append)

lemma ucast_ld16:
  "ucast (ld16 b off) = b ! off" "ucast (drop_bit 8 (ld16 b off)) = b ! (off + 1)"
  unfolding ld16_def by (rule ucast_low_byte, rule ucast_high_byte)

lemma ucast_ld32:
  "ucast (ld32 b off) = b ! off"
  "ucast (drop_bit 8 (ld32 b off)) = b ! (off + 1)"
  "ucast (drop_bit 16 (ld32 b off)) = b ! (off + 2)"
  "ucast (drop_bit 24 (ld32 b off)) = b ! (off + 3)"
  by (rule bit_word_eqI, auto simp: ld32_def bit_simps)+

lemma list_eq_nths:
  "length b = n \<Longrightarrow> 2 \<le> n \<Longrightarrow> b ! 0 # b ! 1 # map ((!) b) [2..<n] = b"
  using map_nth [of b] by (simp add: upt_rec [of 0] upt_rec [of "Suc 0"] numeral_2_eq_2)

lemma ucast_nibbles:
  "ucast (ucast (x :: 4 word) OR push_bit 4 (ucast (y :: 4 word)) :: u8) = x"
  "ucast (drop_bit 4 (ucast (x :: 4 word) OR push_bit 4 (ucast (y :: 4 word)) :: u8)) = y"
  by (rule bit_word_eqI, auto simp: bit_simps dest: bit_imp_le_length)+

lemma nibbles_ucast:
  "ucast (ucast (x :: u8) :: 4 word) OR push_bit 4 (ucast (ucast (drop_bit 4 x) :: 4 word)) = x"
  by (rule bit_word_eqI) (auto simp: bit_simps dest: bit_imp_le_length)

end
