(* ===== verification/Sr_Protocol.thy ===== *)
theory Sr_Protocol
  imports Packed
begin

text \<open>
  \<^verbatim>\<open>sr_protocol.h\<close>: the packed protocol headers of the router. Each struct is a record; the
  overlay of a struct on a byte buffer (\<^verbatim>\<open>(struct sr_ip_hdr *)(buf + off)\<close>) is a pair of an encoder
  and a decoder of its bytes, an instance of the locale \<open>packed_struct\<close>.
\<close>

section \<open>Constants\<close>

definition ICMP_DATA_SIZE :: nat where "ICMP_DATA_SIZE = 28"
definition ETHER_ADDR_LEN :: nat where "ETHER_ADDR_LEN = 6"
definition sr_IFACE_NAMELEN :: nat where "sr_IFACE_NAMELEN = 32"

definition ip_protocol_icmp :: u8 where "ip_protocol_icmp = 1"
definition ip_protocol_tcp :: u8 where "ip_protocol_tcp = 6"
definition ip_protocol_udp :: u8 where "ip_protocol_udp = 0x11"

definition ethertype_arp :: u16 where "ethertype_arp = 0x0806"
definition ethertype_ip :: u16 where "ethertype_ip = 0x0800"

definition arp_op_request :: u16 where "arp_op_request = 1"
definition arp_op_reply :: u16 where "arp_op_reply = 2"

lemmas protocol_consts = ICMP_DATA_SIZE_def ETHER_ADDR_LEN_def sr_IFACE_NAMELEN_def
  ip_protocol_icmp_def ip_protocol_tcp_def ip_protocol_udp_def
  ethertype_arp_def ethertype_ip_def arp_op_request_def arp_op_reply_def

section \<open>Ethernet header\<close>

text \<open>An \<^verbatim>\<open>unsigned char[6]\<close> address, only ever copied and compared as a whole.\<close>

type_synonym mac = "u8 \<times> u8 \<times> u8 \<times> u8 \<times> u8 \<times> u8"

fun mac_bytes :: "mac \<Rightarrow> bytes" where
  "mac_bytes (a, b, c, d, e, f) = [a, b, c, d, e, f]"

definition bytes_mac :: "bytes \<Rightarrow> mac" where
  "bytes_mac b = (b ! 0, b ! 1, b ! 2, b ! 3, b ! 4, b ! 5)"

lemma length_mac_bytes [simp]: "length (mac_bytes m) = 6"
  by (cases m) auto

lemma bytes_mac_mac_bytes [simp]: "bytes_mac (mac_bytes m) = m"
  by (cases m) (auto simp: bytes_mac_def)

record sr_ethernet_hdr =
  ether_dhost :: mac
  ether_shost :: mac
  ether_type :: u16

definition sizeof_ethernet_hdr :: nat where "sizeof_ethernet_hdr = 14"

definition enc_ether :: "sr_ethernet_hdr \<Rightarrow> bytes" where
  "enc_ether h = mac_bytes (ether_dhost h) @ mac_bytes (ether_shost h) @ le16 (ether_type h)"

definition dec_ether :: "bytes \<Rightarrow> sr_ethernet_hdr" where
  "dec_ether b = \<lparr>ether_dhost = bytes_mac (bslice b 0 6), ether_shost = bytes_mac (bslice b 6 6),
     ether_type = ld16 b 12\<rparr>"

section \<open>IP header\<close>

record sr_ip_hdr =
  ip_hl :: "4 word"
  ip_v :: "4 word"
  ip_tos :: u8
  ip_len :: u16
  ip_id :: u16
  ip_off :: u16
  ip_ttl :: u8
  ip_p :: u8
  ip_sum :: u16
  ip_src :: u32
  ip_dst :: u32

definition sizeof_ip_hdr :: nat where "sizeof_ip_hdr = 20"

definition enc_ip :: "sr_ip_hdr \<Rightarrow> bytes" where
  "enc_ip h = [ucast (ip_hl h) OR push_bit 4 (ucast (ip_v h)), ip_tos h] @ le16 (ip_len h)
     @ le16 (ip_id h) @ le16 (ip_off h) @ [ip_ttl h, ip_p h] @ le16 (ip_sum h)
     @ le32 (ip_src h) @ le32 (ip_dst h)"

definition dec_ip :: "bytes \<Rightarrow> sr_ip_hdr" where
  "dec_ip b = \<lparr>ip_hl = ucast (b ! 0), ip_v = ucast (drop_bit 4 (b ! 0)), ip_tos = b ! 1,
     ip_len = ld16 b 2, ip_id = ld16 b 4, ip_off = ld16 b 6, ip_ttl = b ! 8, ip_p = b ! 9,
     ip_sum = ld16 b 10, ip_src = ld32 b 12, ip_dst = ld32 b 16\<rparr>"

section \<open>ICMP headers\<close>

record sr_icmp_hdr =
  icmp_type :: u8
  icmp_code :: u8
  icmp_sum :: u16

definition sizeof_icmp_hdr :: nat where "sizeof_icmp_hdr = 4"

definition enc_icmp :: "sr_icmp_hdr \<Rightarrow> bytes" where
  "enc_icmp h = [icmp_type h, icmp_code h] @ le16 (icmp_sum h)"

definition dec_icmp :: "bytes \<Rightarrow> sr_icmp_hdr" where
  "dec_icmp b = \<lparr>icmp_type = b ! 0, icmp_code = b ! 1, icmp_sum = ld16 b 2\<rparr>"

record sr_icmp_t3_hdr =
  t3_icmp_type :: u8
  t3_icmp_code :: u8
  t3_icmp_sum :: u16
  t3_unused :: u16
  t3_next_mtu :: u16
  t3_data :: bytes

definition sizeof_icmp_t3_hdr :: nat where "sizeof_icmp_t3_hdr = 36"

definition enc_t3 :: "sr_icmp_t3_hdr \<Rightarrow> bytes" where
  "enc_t3 h = [t3_icmp_type h, t3_icmp_code h] @ le16 (t3_icmp_sum h) @ le16 (t3_unused h)
     @ le16 (t3_next_mtu h) @ t3_data h"

definition dec_t3 :: "bytes \<Rightarrow> sr_icmp_t3_hdr" where
  "dec_t3 b = \<lparr>t3_icmp_type = b ! 0, t3_icmp_code = b ! 1, t3_icmp_sum = ld16 b 2,
     t3_unused = ld16 b 4, t3_next_mtu = ld16 b 6, t3_data = bslice b 8 28\<rparr>"

section \<open>ARP header\<close>

record sr_arp_hdr =
  ar_hrd :: u16
  ar_pro :: u16
  ar_hln :: u8
  ar_pln :: u8
  ar_op :: u16
  ar_sha :: mac
  ar_sip :: u32
  ar_tha :: mac
  ar_tip :: u32

definition sizeof_arp_hdr :: nat where "sizeof_arp_hdr = 28"

definition enc_arp :: "sr_arp_hdr \<Rightarrow> bytes" where
  "enc_arp h = le16 (ar_hrd h) @ le16 (ar_pro h) @ [ar_hln h, ar_pln h] @ le16 (ar_op h)
     @ mac_bytes (ar_sha h) @ le32 (ar_sip h) @ mac_bytes (ar_tha h) @ le32 (ar_tip h)"

definition dec_arp :: "bytes \<Rightarrow> sr_arp_hdr" where
  "dec_arp b = \<lparr>ar_hrd = ld16 b 0, ar_pro = ld16 b 2, ar_hln = b ! 4, ar_pln = b ! 5,
     ar_op = ld16 b 6, ar_sha = bytes_mac (bslice b 8 6), ar_sip = ld32 b 14,
     ar_tha = bytes_mac (bslice b 18 6), ar_tip = ld32 b 24\<rparr>"

lemmas sizeof_defs = sizeof_ethernet_hdr_def sizeof_ip_hdr_def sizeof_icmp_hdr_def
  sizeof_icmp_t3_hdr_def sizeof_arp_hdr_def

section \<open>The overlays are faithful\<close>

lemmas enc_list_defs = le16_def le32_def ucast_ld16 ucast_ld32 bytes_mac_def

lemma dec_enc_ether: "dec_ether (enc_ether h) = h"
  by (cases "ether_dhost h"; cases "ether_shost h")
    (auto simp: dec_ether_def enc_ether_def bslice_def bytes_mac_def ld16_def le16_def)

lemma enc_dec_ether: "length b = 14 \<Longrightarrow> enc_ether (dec_ether b) = b"
  using list_eq_nths [of b]
  by (simp add: dec_ether_def enc_ether_def enc_list_defs) (simp add: numeral_2_eq_2)

lemma dec_enc_ip: "dec_ip (enc_ip h) = h"
proof -
  have "ld16 (enc_ip h) 2 = ip_len h" "ld16 (enc_ip h) 4 = ip_id h" "ld16 (enc_ip h) 6 = ip_off h"
    "ld16 (enc_ip h) 10 = ip_sum h"
    by (rule ld16_of_le16, simp_all add: enc_ip_def le16_def)+
  moreover have "ld32 (enc_ip h) 12 = ip_src h" "ld32 (enc_ip h) 16 = ip_dst h"
    by (rule ld32_of_le32, auto simp: enc_ip_def le16_def le32_def less_Suc_eq numeral_eq_Suc)+
  ultimately show ?thesis
    by (simp add: dec_ip_def) (simp add: enc_ip_def le16_def ucast_nibbles del: drop_bit_or)
qed

lemma enc_dec_ip: "length b = 20 \<Longrightarrow> enc_ip (dec_ip b) = b"
  using list_eq_nths [of b] by (simp add: dec_ip_def enc_ip_def enc_list_defs nibbles_ucast)

interpretation ether: packed_struct 14 enc_ether dec_ether "\<lambda>_. True"
  by unfold_locales (simp_all add: dec_enc_ether enc_dec_ether, simp add: enc_ether_def)

interpretation iphdr: packed_struct 20 enc_ip dec_ip "\<lambda>_. True"
  by unfold_locales (simp_all add: dec_enc_ip enc_dec_ip, simp add: enc_ip_def)

interpretation icmphdr: packed_struct 4 enc_icmp dec_icmp "\<lambda>_. True"
proof unfold_locales
  show "enc_icmp (dec_icmp b) = b" if "length b = 4" for b
    using list_eq_nths [OF that] that by (simp add: dec_icmp_def enc_icmp_def enc_list_defs)
qed (simp_all add: dec_icmp_def enc_icmp_def ld16_of_le16 le16_def)

interpretation t3hdr: packed_struct 36 enc_t3 dec_t3 "\<lambda>h. length (t3_data h) = 28"
proof unfold_locales
  show "enc_t3 (dec_t3 b) = b" if "length b = 36" for b
  proof -
    have "b ! 0 # b ! 1 # map ((!) b) [2..<8] = take 8 b"
      using list_eq_nths [of "take 8 b"] that by simp
    moreover have "take 8 b @ bslice b 8 28 = b"
      using that by (simp add: bslice_def)
    ultimately have "(b ! 0 # b ! 1 # map ((!) b) [2..<8]) @ bslice b 8 28 = b"
      by (simp only:)
    then show ?thesis by (simp add: dec_t3_def enc_t3_def enc_list_defs)
  qed
  show "dec_t3 (enc_t3 h) = h" if "length (t3_data h) = 28" for h
    using that by (simp add: dec_t3_def enc_t3_def le16_def bslice_def ld16_def)
qed (simp_all add: dec_t3_def enc_t3_def)

interpretation arphdr: packed_struct 28 enc_arp dec_arp "\<lambda>_. True"
proof unfold_locales
  show "enc_arp (dec_arp b) = b" if "length b = 28" for b
    using list_eq_nths [OF that] that by (simp add: dec_arp_def enc_arp_def enc_list_defs)
  show "dec_arp (enc_arp h) = h" for h
  proof -
    have "ld32 (enc_arp h) 14 = ar_sip h" "ld32 (enc_arp h) 24 = ar_tip h"
      by (rule ld32_of_le32, cases "ar_sha h"; cases "ar_tha h";
        auto simp: enc_arp_def le16_def le32_def less_Suc_eq numeral_eq_Suc)+
    then show ?thesis
      by (cases "ar_sha h"; cases "ar_tha h";
        simp add: dec_arp_def; simp add: enc_arp_def le16_def bslice_def bytes_mac_def ld16_def)
  qed
qed (simp_all add: enc_arp_def)

end
