(* ===== verification/Sr_Instance.thy ===== *)
theory Sr_Instance
  imports Sr_Protocol
begin

text \<open>
  The data structures of the router (\<^verbatim>\<open>sr_if.h\<close>, \<^verbatim>\<open>sr_rt.h\<close>, \<^verbatim>\<open>sr_arpcache.h\<close>, \<^verbatim>\<open>sr_router.h\<close>).
  Singly linked lists are lists; the ARP requests are reached through pointers that outlive their
  membership in the request queue, so they live in a store of addresses. The operating system is
  part of the instance: the clocks (one reading per call of \<^verbatim>\<open>time\<close> and of \<^verbatim>\<open>gettimeofday\<close>), the contents of the
  log file if there is one, the answer of each \<^verbatim>\<open>write\<close>,
  and the buffers handed to \<^verbatim>\<open>write\<close> so far.
\<close>

record sr_if =
  if_name :: string
  if_addr :: mac
  if_ip :: u32
  if_speed :: u32

record sr_rt =
  rt_dest :: u32
  rt_gw :: u32
  rt_mask :: u32
  rt_interface :: string

definition SR_ARPCACHE_SZ :: nat where "SR_ARPCACHE_SZ = 100"
definition SR_ARPCACHE_TO :: int where "SR_ARPCACHE_TO = 15"

record sr_packet =
  pk_buf :: bytes
  pk_iface :: string

record sr_arpentry =
  ae_mac :: mac
  ae_ip :: u32
  ae_added :: int
  ae_valid :: bool

record sr_arpreq =
  rq_ip :: u32
  rq_sent :: int
  rq_times_sent :: u32
  rq_packets :: "sr_packet list"

type_synonym req_addr = nat

record sr_arpcache =
  entries :: "sr_arpentry list"
  requests :: "req_addr list"
  req_store :: "req_addr \<Rightarrow> sr_arpreq option"
  req_fresh :: req_addr

definition INIT_TTL :: u8 where "INIT_TTL = 255"
definition PACKET_DUMP_SIZE :: nat where "PACKET_DUMP_SIZE = 1024"

record sr_instance =
  sr_user :: string
  sr_host :: string
  sr_template :: string
  topo_id :: u16
  if_list :: "sr_if list"
  routing_table :: "sr_rt list"
  cache :: sr_arpcache
  logfile :: "bytes option"
  tod :: "nat \<Rightarrow> 64 word \<times> 64 word"
  tods :: nat
  clk :: "nat \<Rightarrow> int"
  ticks :: nat
  sock_write :: "bytes \<Rightarrow> int"
  sock_out :: "bytes list"

text \<open>\<^verbatim>\<open>time(NULL)\<close>: the next reading of the clock.\<close>

definition sr_time :: "sr_instance \<Rightarrow> int \<times> sr_instance" where
  "sr_time sr = (clk sr (ticks sr), sr\<lparr>ticks := Suc (ticks sr)\<rparr>)"

end
