(* ===== verification/Sr_If.thy ===== *)
theory Sr_If
  imports Sr_Instance
begin

text \<open>\<^verbatim>\<open>sr_if.c\<close>: the interface list of the router.\<close>

section \<open>Operations\<close>

fun find_if :: "sr_if list \<Rightarrow> string \<Rightarrow> sr_if option" where
  "find_if [] name = None"
| "find_if (i # is) name =
     (if strncmp_eq sr_IFACE_NAMELEN (if_name i) name then Some i else find_if is name)"

definition sr_get_interface :: "sr_instance \<Rightarrow> string \<Rightarrow> sr_if option" where
  "sr_get_interface sr name = find_if (if_list sr) name"

text \<open>The fields that \<^verbatim>\<open>malloc\<close> leaves undefined are those of the argument \<open>garbage\<close>.\<close>

definition sr_add_interface :: "sr_if \<Rightarrow> sr_instance \<Rightarrow> string \<Rightarrow> sr_instance" where
  "sr_add_interface garbage sr name =
     (let node = garbage\<lparr>if_name := strncpy sr_IFACE_NAMELEN name\<rparr>
      in if if_list sr = [] then sr\<lparr>if_list := [node]\<rparr>
         else sr\<lparr>if_list := if_list sr @ [node]\<rparr>)"

fun update_last :: "('a \<Rightarrow> 'a) \<Rightarrow> 'a list \<Rightarrow> 'a list" where
  "update_last f [] = []"
| "update_last f [x] = [f x]"
| "update_last f (x # y # xs) = x # update_last f (y # xs)"

definition sr_set_ether_addr :: "sr_instance \<Rightarrow> mac \<Rightarrow> sr_instance res" where
  "sr_set_ether_addr sr addr =
     rbind (guard AssertFailed (if_list sr \<noteq> []))
       (\<lambda>_. Inr (sr\<lparr>if_list := update_last (\<lambda>i. i\<lparr>if_addr := addr\<rparr>) (if_list sr)\<rparr>))"

definition sr_set_ether_ip :: "sr_instance \<Rightarrow> u32 \<Rightarrow> sr_instance res" where
  "sr_set_ether_ip sr ip_nbo =
     rbind (guard AssertFailed (if_list sr \<noteq> []))
       (\<lambda>_. Inr (sr\<lparr>if_list := update_last (\<lambda>i. i\<lparr>if_ip := ip_nbo\<rparr>) (if_list sr)\<rparr>))"

section \<open>Properties\<close>

lemma update_last_snoc [simp]: "update_last f (xs @ [x]) = xs @ [f x]"
proof (induction xs)
  case (Cons y ys)
  then show ?case by (cases ys) auto
qed simp

lemma find_if_SomeD:
  "find_if is name = Some i \<Longrightarrow> i \<in> set is \<and> strncmp_eq sr_IFACE_NAMELEN (if_name i) name"
  by (induction "is") (auto split: if_splits)

lemma find_if_None_iff:
  "find_if is name = None \<longleftrightarrow> (\<forall>i \<in> set is. \<not> strncmp_eq sr_IFACE_NAMELEN (if_name i) name)"
  by (induction "is") auto

lemma find_if_append:
  "find_if (is @ js) name = (case find_if is name of None \<Rightarrow> find_if js name | Some i \<Rightarrow> Some i)"
  by (induction "is") auto

lemma strncmp_eq_cong: "strncmp_eq n s t \<Longrightarrow> strncmp_eq n s u = strncmp_eq n t u"
  by (simp add: strncmp_eq_def)

text \<open>
  The three calls \<^verbatim>\<open>sr_handle_hwinfo\<close> makes for one interface (add, set address, set
  IP address) succeed, and register exactly that interface: looking its name up gives the node with
  the new name, address and IP if the name was not there before, and every other lookup is unchanged.
\<close>

lemma sr_if_register:
  assumes "sr_get_interface sr name = None"
  shows "\<exists>sr1 sr2. sr_set_ether_addr (sr_add_interface garbage sr name) addr = Inr sr1
      \<and> sr_set_ether_ip sr1 ip_nbo = Inr sr2
      \<and> sr_get_interface sr2 name = Some (garbage\<lparr>if_name := strncpy sr_IFACE_NAMELEN name,
           if_addr := addr, if_ip := ip_nbo\<rparr>)
      \<and> (\<forall>other. \<not> strncmp_eq sr_IFACE_NAMELEN name other \<longrightarrow>
           sr_get_interface sr2 other = sr_get_interface sr other)"
proof -
  define node where "node = garbage\<lparr>if_name := strncpy sr_IFACE_NAMELEN name\<rparr>"
  have add: "sr_add_interface garbage sr name = sr\<lparr>if_list := if_list sr @ [node]\<rparr>"
    by (simp add: sr_add_interface_def node_def Let_def)
  define sr2 where "sr2 = sr\<lparr>if_list := if_list sr @ [node\<lparr>if_addr := addr, if_ip := ip_nbo\<rparr>]\<rparr>"
  have "sr_set_ether_addr (sr_add_interface garbage sr name) addr
      = Inr (sr\<lparr>if_list := if_list sr @ [node\<lparr>if_addr := addr\<rparr>]\<rparr>)"
    by (simp add: add sr_set_ether_addr_def)
  moreover have "sr_set_ether_ip (sr\<lparr>if_list := if_list sr @ [node\<lparr>if_addr := addr\<rparr>]\<rparr>) ip_nbo = Inr sr2"
    by (simp add: sr_set_ether_ip_def sr2_def)
  moreover have "sr_get_interface sr2 name = Some (node\<lparr>if_addr := addr, if_ip := ip_nbo\<rparr>)"
    using assms by (simp add: sr_get_interface_def sr2_def find_if_append node_def)
  moreover have "sr_get_interface sr2 other = sr_get_interface sr other"
    if "\<not> strncmp_eq sr_IFACE_NAMELEN name other" for other
    using that by (simp add: sr_get_interface_def sr2_def find_if_append node_def split: option.split)
  ultimately show ?thesis
    unfolding node_def by blast
qed

end
