(* ===== verification/Sr_Rt.thy ===== *)
theory Sr_Rt
  imports Sr_If
begin

text \<open>
  The routing table: \<^verbatim>\<open>sr_rt.c\<close> (loading and adding entries), \<^verbatim>\<open>sr_findLPMentry\<close> of
  \<^verbatim>\<open>sr_router.c\<close> and the consistency check \<^verbatim>\<open>sr_verify_routing_table\<close> of \<^verbatim>\<open>sr_main.c\<close>.
\<close>

section \<open>Longest prefix match\<close>

definition rt_match :: "u32 \<Rightarrow> sr_rt \<Rightarrow> bool" where
  "rt_match ip entry \<longleftrightarrow>
     (ip AND ntohl (rt_mask entry)) = (ntohl (rt_dest entry) AND ntohl (rt_mask entry))"

fun lpm_scan :: "u32 \<Rightarrow> sr_rt list \<Rightarrow> sr_rt option \<Rightarrow> u32 \<Rightarrow> sr_rt option" where
  "lpm_scan ip [] lpmentry lpmmask = lpmentry"
| "lpm_scan ip (entry # rest) lpmentry lpmmask =
     (let msk = ntohl (rt_mask entry)
      in if rt_match ip entry \<and> msk > lpmmask then lpm_scan ip rest (Some entry) msk
         else lpm_scan ip rest lpmentry lpmmask)"

definition sr_findLPMentry :: "sr_rt list \<Rightarrow> u32 \<Rightarrow> sr_rt option" where
  "sr_findLPMentry rtable ip = lpm_scan (ntohl ip) rtable None 0"

section \<open>Adding entries\<close>

definition sr_add_rt_entry :: "sr_instance \<Rightarrow> u32 \<Rightarrow> u32 \<Rightarrow> u32 \<Rightarrow> string \<Rightarrow> sr_instance" where
  "sr_add_rt_entry sr dest gw msk ifname =
     (let node = \<lparr>rt_dest = dest, rt_gw = gw, rt_mask = msk,
                  rt_interface = strncpy sr_IFACE_NAMELEN ifname\<rparr>
      in if routing_table sr = [] then sr\<lparr>routing_table := [node]\<rparr>
         else sr\<lparr>routing_table := routing_table sr @ [node]\<rparr>)"

section \<open>Consistency with the hardware\<close>

fun count_missing :: "sr_if list \<Rightarrow> sr_rt list \<Rightarrow> int" where
  "count_missing is [] = 0"
| "count_missing is (r # rs) =
     (if find_if is (rt_interface r) = None then 1 else 0) + count_missing is rs"

definition sr_verify_routing_table :: "sr_instance \<Rightarrow> int" where
  "sr_verify_routing_table sr =
     (if if_list sr = [] \<or> routing_table sr = [] then 999
      else count_missing (if_list sr) (routing_table sr))"

section \<open>Properties of the match\<close>

definition best_match :: "u32 \<Rightarrow> u32 \<Rightarrow> sr_rt list \<Rightarrow> sr_rt \<Rightarrow> bool" where
  "best_match ip m rtable e \<longleftrightarrow>
     (\<exists>us vs. rtable = us @ e # vs \<and> rt_match ip e \<and> m < ntohl (rt_mask e)
        \<and> (\<forall>u \<in> set us. rt_match ip u \<longrightarrow> ntohl (rt_mask u) < ntohl (rt_mask e))
        \<and> (\<forall>v \<in> set vs. rt_match ip v \<longrightarrow> ntohl (rt_mask v) \<le> ntohl (rt_mask e)))"

lemma best_match_here:
  assumes "rt_match ip e" "m < ntohl (rt_mask e)"
    and "\<And>v. v \<in> set rest \<Longrightarrow> rt_match ip v \<Longrightarrow> ntohl (rt_mask v) \<le> ntohl (rt_mask e)"
  shows "best_match ip m (e # rest) e"
  unfolding best_match_def using assms by (metis append_Nil empty_iff empty_set)

lemma best_match_later:
  assumes "best_match ip m' rest e" "rt_match ip d \<Longrightarrow> ntohl (rt_mask d) < ntohl (rt_mask e)"
    and "m \<le> m'"
  shows "best_match ip m (d # rest) e"
proof -
  from assms(1) obtain us vs where "rest = us @ e # vs" "rt_match ip e" "m' < ntohl (rt_mask e)"
    and us: "\<forall>u \<in> set us. rt_match ip u \<longrightarrow> ntohl (rt_mask u) < ntohl (rt_mask e)"
    and vs: "\<forall>v \<in> set vs. rt_match ip v \<longrightarrow> ntohl (rt_mask v) \<le> ntohl (rt_mask e)"
    unfolding best_match_def by blast
  then have "d # rest = (d # us) @ e # vs" "m < ntohl (rt_mask e)"
    using assms(3) by auto
  moreover have "\<forall>u \<in> set (d # us). rt_match ip u \<longrightarrow> ntohl (rt_mask u) < ntohl (rt_mask e)"
    using us assms(2) by simp
  ultimately show ?thesis
    unfolding best_match_def using vs \<open>rt_match ip e\<close> by blast
qed

lemma best_match_mask: "best_match ip m rest e \<Longrightarrow> m < ntohl (rt_mask e)"
  by (auto simp: best_match_def)

lemma lpm_scan_cases:
  "lpm_scan ip rest best m = best \<and> (\<forall>e \<in> set rest. rt_match ip e \<longrightarrow> ntohl (rt_mask e) \<le> m)
   \<or> (\<exists>e. lpm_scan ip rest best m = Some e \<and> best_match ip m rest e)"
proof (induction rest arbitrary: best m)
  case (Cons d rest)
  let ?m = "ntohl (rt_mask d)"
  show ?case
  proof (cases "rt_match ip d \<and> m < ?m")
    case True
    with Cons.IH [of "Some d" ?m] best_match_here [of ip d m rest]
      best_match_later [of ip ?m rest _ d m] best_match_mask [of ip ?m rest]
    show ?thesis by (auto simp: Let_def)
  next
    case False
    then have "lpm_scan ip (d # rest) best m = lpm_scan ip rest best m" and "rt_match ip d \<longrightarrow> ?m \<le> m"
      by (auto simp: Let_def)
    with Cons.IH [of best m] best_match_later [of ip m rest _ d m] best_match_mask [of ip m rest]
    show ?thesis by fastforce
  qed
qed simp

lemma bswap32_pos_iff: "0 < bswap32 m \<longleftrightarrow> m \<noteq> 0" "bswap32 m = 0 \<longleftrightarrow> m = 0"
proof -
  show z: "bswap32 m = 0 \<longleftrightarrow> m = 0"
    using bswap32_eq_iff [of m 0] by (simp add: bswap32_def)
  show "0 < bswap32 m \<longleftrightarrow> m \<noteq> 0"
    by (simp add: z word_neq_0_conv [symmetric])
qed

lemma findLPM_None_iff:
  "sr_findLPMentry rtable ip = None \<longleftrightarrow>
     (\<forall>e \<in> set rtable. rt_match (ntohl ip) e \<longrightarrow> rt_mask e = 0)"
  using lpm_scan_cases [of "ntohl ip" rtable None 0]
  unfolding sr_findLPMentry_def best_match_def
  by (elim disjE exE conjE) (auto simp: bswap32_pos_iff)

text \<open>
  C16: \<^verbatim>\<open>sr_findLPMentry\<close> returns an entry exactly when some entry with a nonzero
  mask matches the address; the entry it returns is in the table, matches, and its mask is strictly
  larger than that of every earlier matching entry and at least that of every later one, i.e. it is
  the first of the matching entries with the largest mask.
\<close>

theorem sr_findLPMentry_longest:
  "(sr_findLPMentry rtable ip = None \<longleftrightarrow>
      (\<forall>e \<in> set rtable. rt_match (ntohl ip) e \<longrightarrow> rt_mask e = 0))
   \<and> (\<forall>e. sr_findLPMentry rtable ip = Some e \<longrightarrow>
      (\<exists>us vs. rtable = us @ e # vs \<and> rt_match (ntohl ip) e \<and> rt_mask e \<noteq> 0
         \<and> (\<forall>u \<in> set us. rt_match (ntohl ip) u \<longrightarrow> ntohl (rt_mask u) < ntohl (rt_mask e))
         \<and> (\<forall>v \<in> set vs. rt_match (ntohl ip) v \<longrightarrow> ntohl (rt_mask v) \<le> ntohl (rt_mask e))))"
proof -
  from lpm_scan_cases [of "ntohl ip" rtable None 0] show ?thesis
    unfolding findLPM_None_iff unfolding sr_findLPMentry_def best_match_def
    by (elim disjE exE conjE) (auto simp: bswap32_pos_iff)
qed

lemma findLPM_in_table: "sr_findLPMentry rtable ip = Some e \<Longrightarrow> e \<in> set rtable"
  using lpm_scan_cases [of "ntohl ip" rtable None 0] by (auto simp: sr_findLPMentry_def best_match_def)

lemma count_missing_nonneg: "0 \<le> count_missing is rs"
  by (induction rs) auto

lemma count_missing_0_iff:
  "count_missing is rs = 0 \<longleftrightarrow> (\<forall>r \<in> set rs. find_if is (rt_interface r) \<noteq> None)"
proof (induction rs)
  case (Cons r rs)
  show ?case
    using Cons count_missing_nonneg [of "is" rs] by auto
qed simp

lemma sr_verify_routing_table_0_iff:
  "sr_verify_routing_table sr = 0 \<longleftrightarrow> if_list sr \<noteq> [] \<and> routing_table sr \<noteq> []
     \<and> (\<forall>r \<in> set (routing_table sr). sr_get_interface sr (rt_interface r) \<noteq> None)"
  by (simp add: sr_verify_routing_table_def count_missing_0_iff sr_get_interface_def)

end
