(* ===== verification/Sr_Dumper.thy ===== *)
theory Sr_Dumper
  imports Packed
begin

text \<open>
  The packet log (\<^verbatim>\<open>sr_dumper.c\<close>, \<^verbatim>\<open>sr_dumper.h\<close>): a dump file in the format of \<^verbatim>\<open>tcpdump\<close>. A file is the bytes
  written to it so far; writing succeeds. The reader at the end of the theory is the specification of the
  format: a file header followed by records that carry their own length.
\<close>

section \<open>Operations\<close>

definition TCPDUMP_MAGIC :: u32 where "TCPDUMP_MAGIC = 0xa1b2c3d4"
definition PCAP_VERSION_MAJOR :: u16 where "PCAP_VERSION_MAJOR = 2"
definition PCAP_VERSION_MINOR :: u16 where "PCAP_VERSION_MINOR = 4"
definition LINKTYPE_ETHERNET :: u32 where "LINKTYPE_ETHERNET = 1"

record pcap_file_header =
  pf_magic :: u32
  pf_version_major :: u16
  pf_version_minor :: u16
  pf_thiszone :: u32
  pf_sigfigs :: u32
  pf_snaplen :: u32
  pf_linktype :: u32

definition enc_pcap_file :: "pcap_file_header \<Rightarrow> bytes" where
  "enc_pcap_file h = le32 (pf_magic h) @ le16 (pf_version_major h) @ le16 (pf_version_minor h) @ le32 (pf_thiszone h)
     @ le32 (pf_sigfigs h) @ le32 (pf_snaplen h) @ le32 (pf_linktype h)"

definition dec_pcap_file :: "bytes \<Rightarrow> pcap_file_header" where
  "dec_pcap_file b = \<lparr>pf_magic = ld32 b 0, pf_version_major = ld16 b 4, pf_version_minor = ld16 b 6,
     pf_thiszone = ld32 b 8, pf_sigfigs = ld32 b 12, pf_snaplen = ld32 b 16, pf_linktype = ld32 b 20\<rparr>"

text \<open>The header of a packet in memory, with the 64-bit \<^verbatim>\<open>struct timeval\<close>, and in the file.\<close>

record pcap_pkthdr =
  ts_sec :: "64 word"
  ts_usec :: "64 word"
  pk_caplen :: u32
  pk_len :: u32

record pcap_sf_pkthdr =
  sf_sec :: u32
  sf_usec :: u32
  sf_caplen :: u32
  sf_len :: u32

definition enc_pcap_sf :: "pcap_sf_pkthdr \<Rightarrow> bytes" where
  "enc_pcap_sf h = le32 (sf_sec h) @ le32 (sf_usec h) @ le32 (sf_caplen h) @ le32 (sf_len h)"

definition dec_pcap_sf :: "bytes \<Rightarrow> pcap_sf_pkthdr" where
  "dec_pcap_sf b = \<lparr>sf_sec = ld32 b 0, sf_usec = ld32 b 4, sf_caplen = ld32 b 8, sf_len = ld32 b 12\<rparr>"

definition sf_write_header :: "bytes \<Rightarrow> u32 \<Rightarrow> u32 \<Rightarrow> u32 \<Rightarrow> bytes" where
  "sf_write_header fp linktype thiszone snaplen =
     fp @ enc_pcap_file \<lparr>pf_magic = TCPDUMP_MAGIC, pf_version_major = PCAP_VERSION_MAJOR,
       pf_version_minor = PCAP_VERSION_MINOR, pf_thiszone = thiszone, pf_sigfigs = 0, pf_snaplen = snaplen,
       pf_linktype = linktype\<rparr>"

text \<open>\<open>can_write\<close> is whether a file can be opened for writing; the name \<^verbatim>\<open>-\<close> is the standard output.\<close>

definition sr_dump_open :: "(string \<Rightarrow> bool) \<Rightarrow> string \<Rightarrow> u32 \<Rightarrow> u32 \<Rightarrow> bytes option" where
  "sr_dump_open can_write fname thiszone snaplen =
     (if fname = ''-'' \<or> can_write fname then Some (sf_write_header [] LINKTYPE_ETHERNET thiszone snaplen) else None)"

text \<open>The caller passes a captured length that is at most the length of the packet.\<close>

definition sr_dump :: "bytes \<Rightarrow> pcap_pkthdr \<Rightarrow> bytes \<Rightarrow> bytes" where
  "sr_dump fp h sp =
     fp @ enc_pcap_sf \<lparr>sf_sec = ucast (ts_sec h), sf_usec = ucast (ts_usec h), sf_caplen = pk_caplen h,
       sf_len = pk_len h\<rparr> @ take (unat (pk_caplen h)) sp"

section \<open>The headers are faithful overlays\<close>

interpretation pcap_file: packed_struct 24 enc_pcap_file dec_pcap_file "\<lambda>_. True"
proof unfold_locales
  show "enc_pcap_file (dec_pcap_file b) = b" if "length b = 24" for b
    using list_eq_nths [OF that] that
    by (simp add: dec_pcap_file_def enc_pcap_file_def le16_def le32_def ucast_ld16 ucast_ld32) (simp add: numeral_2_eq_2)
  show "dec_pcap_file (enc_pcap_file h) = h" for h
  proof -
    have "ld16 (enc_pcap_file h) 4 = pf_version_major h" "ld16 (enc_pcap_file h) 6 = pf_version_minor h"
      by (rule ld16_of_le16, simp_all add: enc_pcap_file_def le16_def le32_def)+
    moreover have "ld32 (enc_pcap_file h) 0 = pf_magic h" "ld32 (enc_pcap_file h) 8 = pf_thiszone h"
      "ld32 (enc_pcap_file h) 12 = pf_sigfigs h" "ld32 (enc_pcap_file h) 16 = pf_snaplen h"
      "ld32 (enc_pcap_file h) 20 = pf_linktype h"
      by (rule ld32_of_le32, auto simp: enc_pcap_file_def le16_def le32_def less_Suc_eq numeral_eq_Suc)+
    ultimately show ?thesis by (simp add: dec_pcap_file_def)
  qed
qed (simp_all add: enc_pcap_file_def)

interpretation pcap_sf: packed_struct 16 enc_pcap_sf dec_pcap_sf "\<lambda>_. True"
proof unfold_locales
  show "enc_pcap_sf (dec_pcap_sf b) = b" if "length b = 16" for b
    using list_eq_nths [OF that] that
    by (simp add: dec_pcap_sf_def enc_pcap_sf_def le32_def ucast_ld32) (simp add: numeral_2_eq_2)
  show "dec_pcap_sf (enc_pcap_sf h) = h" for h
  proof -
    have "ld32 (enc_pcap_sf h) 0 = sf_sec h" "ld32 (enc_pcap_sf h) 4 = sf_usec h"
      "ld32 (enc_pcap_sf h) 8 = sf_caplen h" "ld32 (enc_pcap_sf h) 12 = sf_len h"
      by (rule ld32_of_le32, auto simp: enc_pcap_sf_def le32_def less_Suc_eq numeral_eq_Suc)+
    then show ?thesis by (simp add: dec_pcap_sf_def)
  qed
qed (simp_all add: enc_pcap_sf_def)

section \<open>The format\<close>

type_synonym pcap_record = "pcap_sf_pkthdr \<times> bytes"

definition record_ok :: "pcap_record \<Rightarrow> bool" where
  "record_ok = (\<lambda>(h, d). unat (sf_caplen h) = length d)"

definition enc_record :: "pcap_record \<Rightarrow> bytes" where
  "enc_record = (\<lambda>(h, d). enc_pcap_sf h @ d)"

function read_records :: "bytes \<Rightarrow> pcap_record list option" where
  "read_records b =
     (if b = [] then Some []
      else if length b < 16 then None
      else
        let h = ld_struct 16 dec_pcap_sf b 0; n = unat (sf_caplen h)
        in if length b < 16 + n then None
           else map_option (Cons (h, bslice b 16 n)) (read_records (drop (16 + n) b)))"
  by pat_completeness auto
termination
  by (relation "measure length") auto

declare read_records.simps [simp del]

definition read_pcap :: "bytes \<Rightarrow> (pcap_file_header \<times> pcap_record list) option" where
  "read_pcap b =
     (if length b < 24 \<or> ld32 b 0 \<noteq> TCPDUMP_MAGIC then None
      else map_option (Pair (ld_struct 24 dec_pcap_file b 0)) (read_records (drop 24 b)))"

lemma ld_struct_append: "length x = sz \<Longrightarrow> ld_struct sz dec (x @ y) 0 = dec x"
  by (simp add: ld_struct_def bslice_def)

lemma length_enc_pcap_sf [simp]: "length (enc_pcap_sf h) = 16"
  by (simp add: enc_pcap_sf_def)

lemma read_records_enc: "list_all record_ok rs \<Longrightarrow> read_records (concat (map enc_record rs)) = Some rs"
proof (induction rs)
  case Nil
  then show ?case by (subst read_records.simps) simp
next
  case (Cons r rs)
  obtain h d where r: "r = (h, d)" by (cases r)
  then have d: "unat (sf_caplen h) = length d" using Cons.prems by (simp add: record_ok_def)
  let ?R = "concat (map enc_record rs)"
  have b: "concat (map enc_record (r # rs)) = enc_pcap_sf h @ d @ ?R" by (simp add: r enc_record_def)
  have ne: "enc_pcap_sf h \<noteq> []" using length_enc_pcap_sf [of h] by force
  have "ld_struct 16 dec_pcap_sf (enc_pcap_sf h @ d @ ?R) 0 = h"
    by (subst ld_struct_append) (simp_all add: pcap_sf.dec_enc)
  then show ?case
    unfolding b using Cons r d ne by (subst read_records.simps) (simp add: bslice_def Let_def)
qed

lemma read_pcap_enc:
  assumes "list_all record_ok rs" "pf_magic h = TCPDUMP_MAGIC"
  shows "read_pcap (enc_pcap_file h @ concat (map enc_record rs)) = Some (h, rs)"
proof -
  have len: "length (enc_pcap_file h) = 24" by (simp add: enc_pcap_file_def)
  have "ld32 (enc_pcap_file h @ concat (map enc_record rs)) 0 = pf_magic h"
    by (rule ld32_of_le32) (auto simp: enc_pcap_file_def nth_append)
  moreover have "ld_struct 24 dec_pcap_file (enc_pcap_file h @ concat (map enc_record rs)) 0 = h"
    using len by (subst ld_struct_append) (simp_all add: pcap_file.dec_enc)
  ultimately show ?thesis using assms len by (simp add: read_pcap_def read_records_enc)
qed

text \<open>A call of \<^verbatim>\<open>sr_dump\<close> appends one record.\<close>

lemma sr_dump_record:
  assumes "unat (pk_caplen h) \<le> length sp"
  shows "\<exists>r. record_ok r \<and> snd r = take (unat (pk_caplen h)) sp \<and> sr_dump fp h sp = fp @ enc_record r"
  using assms
  by (intro exI [of _ "(\<lparr>sf_sec = ucast (ts_sec h), sf_usec = ucast (ts_usec h), sf_caplen = pk_caplen h,
        sf_len = pk_len h\<rparr>, take (unat (pk_caplen h)) sp)"])
    (simp add: record_ok_def enc_record_def sr_dump_def)

end
