(* ===== verification/Sr_Send.thy ===== *)
theory Sr_Send
  imports Sr_If Sr_Dumper "HOL-Library.Sublist"
begin

text \<open>
  The sending half of \<^verbatim>\<open>sr_vns_comm.c\<close>: \<^verbatim>\<open>sr_send_packet\<close> with the interface check and the packet
  log. Every buffer handed to \<^verbatim>\<open>write\<close> is recorded in \<open>sock_out\<close>.
\<close>

section \<open>Operations\<close>

definition VNSPACKET :: u32 where "VNSPACKET = 4"

record c_packet_header =
  ph_mLen :: u32
  ph_mType :: u32
  ph_mInterfaceName :: bytes

definition enc_packet_header :: "c_packet_header \<Rightarrow> bytes" where
  "enc_packet_header h = le32 (ph_mLen h) @ le32 (ph_mType h) @ ph_mInterfaceName h"

definition sizeof_c_packet_header :: nat where "sizeof_c_packet_header = 24"

text \<open>Returns the verdict; the error messages to standard error are not modelled.\<close>

definition sr_ether_addrs_match_interface :: "sr_instance \<Rightarrow> bytes \<Rightarrow> string \<Rightarrow> bool" where
  "sr_ether_addrs_match_interface sr buf name =
     (case sr_get_interface sr name of
        None \<Rightarrow> False
      | Some iface \<Rightarrow> ether_shost (ld_struct 14 dec_ether buf 0) = if_addr iface)"

definition sr_log_packet :: "sr_instance \<Rightarrow> bytes \<Rightarrow> nat \<Rightarrow> sr_instance" where
  "sr_log_packet sr buf len =
     (case logfile sr of
        None \<Rightarrow> sr
      | Some fp \<Rightarrow>
          (let size = min PACKET_DUMP_SIZE len;
               h = \<lparr>ts_sec = fst (tod sr (tods sr)), ts_usec = snd (tod sr (tods sr)), pk_caplen = of_nat size,
                    pk_len = of_nat (if size < PACKET_DUMP_SIZE then size else PACKET_DUMP_SIZE)\<rparr>
           in sr\<lparr>logfile := Some (sr_dump fp h buf), tods := Suc (tods sr)\<rparr>))"

definition sr_send_packet :: "sr_instance \<Rightarrow> bytes \<Rightarrow> string \<Rightarrow> int \<times> sr_instance" where
  "sr_send_packet sr buf iface =
     (if length buf < sizeof_ethernet_hdr then (-1, sr)
      else
        let total_len = (of_nat (length buf) :: u32) + of_nat sizeof_c_packet_header;
            sr_pkt = enc_packet_header \<lparr>ph_mLen = htonl total_len, ph_mType = htonl VNSPACKET,
                       ph_mInterfaceName = strncpy_bytes 16 iface\<rparr> @ buf;
            sr1 = sr_log_packet sr buf (length buf)
        in if \<not> sr_ether_addrs_match_interface sr1 buf iface then (-1, sr1)
           else
             let rc = sock_write sr1 sr_pkt;
                 sr2 = sr1\<lparr>sock_out := sock_out sr1 @ [sr_pkt]\<rparr>
             in if rc < uint total_len then (-1, sr2) else (0, sr2))"

section \<open>Frames on the wire\<close>

text \<open>
  The frame inside a message to the server, and the interface it leaves on as the server reads it.
\<close>

definition wire_frame :: "bytes \<Rightarrow> bytes" where
  "wire_frame msg = drop 24 msg"

definition wire_iface :: "bytes \<Rightarrow> bytes" where
  "wire_iface msg = bslice msg 8 16"

definition packet_message :: "bytes \<Rightarrow> string \<Rightarrow> bytes" where
  "packet_message buf iface =
     le32 (htonl (of_nat (length buf) + 24)) @ le32 (htonl 4) @ strncpy_bytes 16 iface @ buf"

lemma wire_frame_packet_message [simp]: "wire_frame (packet_message buf iface) = buf"
  by (simp add: wire_frame_def packet_message_def)

lemma wire_iface_packet_message [simp]:
  "wire_iface (packet_message buf iface) = strncpy_bytes 16 iface"
  by (simp add: wire_iface_def packet_message_def bslice_def)

lemma sr_log_packet_frame [simp]:
  "if_list (sr_log_packet sr b n) = if_list sr"
  "routing_table (sr_log_packet sr b n) = routing_table sr"
  "cache (sr_log_packet sr b n) = cache sr"
  "sock_out (sr_log_packet sr b n) = sock_out sr"
  "sock_write (sr_log_packet sr b n) = sock_write sr"
  "clk (sr_log_packet sr b n) = clk sr"
  "ticks (sr_log_packet sr b n) = ticks sr"
  by (simp_all add: sr_log_packet_def Let_def split: option.split)

lemma sr_send_packet_frame [simp]:
  "if_list (snd (sr_send_packet sr b i)) = if_list sr"
  "routing_table (snd (sr_send_packet sr b i)) = routing_table sr"
  "cache (snd (sr_send_packet sr b i)) = cache sr"
  "sock_write (snd (sr_send_packet sr b i)) = sock_write sr"
  "clk (snd (sr_send_packet sr b i)) = clk sr"
  "ticks (snd (sr_send_packet sr b i)) = ticks sr"
  by (simp_all add: sr_send_packet_def Let_def)

text \<open>The condition under which a frame is handed to the server.\<close>

definition sendable :: "sr_if list \<Rightarrow> bytes \<Rightarrow> string \<Rightarrow> bool" where
  "sendable is buf iface \<longleftrightarrow> 14 \<le> length buf \<and>
     (\<exists>i. find_if is iface = Some i \<and> ether_shost (ld_struct 14 dec_ether buf 0) = if_addr i)"

lemma sock_out_send:
  "sock_out (snd (sr_send_packet sr buf iface)) =
     sock_out sr @ (if sendable (if_list sr) buf iface then [packet_message buf iface] else [])"
  by (auto simp: sr_send_packet_def Let_def sendable_def sr_ether_addrs_match_interface_def
      sr_get_interface_def packet_message_def enc_packet_header_def VNSPACKET_def
      sizeof_c_packet_header_def sizeof_ethernet_hdr_def split: option.splits)

section \<open>What the log says of the frames sent\<close>

text \<open>
  The log has grown by whole records, among them one for each of the frames \<open>fs\<close>, in this order, with at most
  \<^verbatim>\<open>PACKET_DUMP_SIZE\<close> bytes of each.
\<close>

definition logged :: "bytes list \<Rightarrow> bytes option \<Rightarrow> bytes option \<Rightarrow> bool" where
  "logged fs l l' \<longleftrightarrow>
     (case l of
        None \<Rightarrow> l' = None
      | Some fp \<Rightarrow> \<exists>rs. l' = Some (fp @ concat (map enc_record rs)) \<and> list_all record_ok rs
          \<and> subseq (map (take PACKET_DUMP_SIZE) fs) (map snd rs))"

lemma logged_refl [simp, intro]: "logged [] l l"
  by (auto simp: logged_def split: option.split intro: exI [of _ "[]"])

lemma logged_trans:
  assumes "logged fs l l1" "logged gs l1 l2"
  shows "logged (fs @ gs) l l2"
proof (cases l)
  case None
  then show ?thesis using assms by (simp add: logged_def)
next
  case (Some fp)
  then obtain rs ss where "l1 = Some (fp @ concat (map enc_record rs))" "list_all record_ok rs"
      "subseq (map (take PACKET_DUMP_SIZE) fs) (map snd rs)"
      "l2 = Some ((fp @ concat (map enc_record rs)) @ concat (map enc_record ss))" "list_all record_ok ss"
      "subseq (map (take PACKET_DUMP_SIZE) gs) (map snd ss)"
    using assms by (auto simp: logged_def)
  then show ?thesis
    unfolding logged_def Some by (auto intro!: exI [of _ "rs @ ss"] list_emb_append_mono)
qed

lemma logged_log_packet: "logged [b] (logfile sr) (logfile (sr_log_packet sr b (length b)))"
proof (cases "logfile sr")
  case (Some fp)
  let ?n = "min PACKET_DUMP_SIZE (length b)"
  let ?h = "\<lparr>ts_sec = fst (tod sr (tods sr)), ts_usec = snd (tod sr (tods sr)), pk_caplen = of_nat ?n,
                    pk_len = of_nat (if ?n < PACKET_DUMP_SIZE then ?n else PACKET_DUMP_SIZE)\<rparr>"
  have "unat (of_nat ?n :: u32) = ?n"
    by (simp only: unsigned_of_nat take_bit_eq_mod) (simp add: PACKET_DUMP_SIZE_def)
  then have n: "unat (pk_caplen ?h) = ?n" by simp
  obtain r where "record_ok r" "snd r = take ?n b" "sr_dump fp ?h b = fp @ enc_record r"
    using sr_dump_record [of ?h b fp] unfolding n by auto
  moreover have "take ?n b = take PACKET_DUMP_SIZE b" by (simp add: min_def)
  ultimately show ?thesis
    using Some by (auto simp: logged_def sr_log_packet_def Let_def intro!: exI [of _ "[r]"])
qed (simp add: logged_def sr_log_packet_def)

lemma logged_drop: "logged (f # fs) l l' \<Longrightarrow> logged fs l l'"
  by (auto simp: logged_def split: option.splits) (metis subseq_Cons')

lemma logged_send:
  "logged (if sendable (if_list sr) b i then [b] else []) (logfile sr) (logfile (snd (sr_send_packet sr b i)))"
  using logged_log_packet [of b sr] logged_drop [OF logged_log_packet [of b sr]]
  by (auto simp: sr_send_packet_def Let_def sendable_def sr_ether_addrs_match_interface_def
      sr_get_interface_def sizeof_ethernet_hdr_def split: option.splits)

end
