(* ===== verification/Sr_Utils.thy ===== *)
theory Sr_Utils
  imports Prelude
begin

text \<open>
  \<^verbatim>\<open>sr_utils.c\<close>: the Internet checksum of the router (\<^verbatim>\<open>cksum\<close>), and its agreement with the
  one's-complement sum of RFC 1071. The sum is kept in 32 bits as in the source; the bound under
  which it does not wrap (131070 bytes) is explicit in the lemmas.
\<close>

section \<open>cksum\<close>

text \<open>The first loop and the odd byte: big-endian 16-bit words are added into a 32-bit sum.\<close>

fun cksum_sum :: "u32 \<Rightarrow> bytes \<Rightarrow> u32" where
  "cksum_sum s (d0 # d1 # data) =
     cksum_sum (s + (push_bit 8 (ucast d0) OR ucast d1)) data"
| "cksum_sum s [d0] = s + push_bit 8 (ucast d0)"
| "cksum_sum s [] = s"

lemma unat_fold_step:
  "unat (drop_bit 16 (s :: u32) + (s AND 0xffff)) = unat s div 65536 + unat s mod 65536"
proof -
  have m: "(0xffff :: u32) = mask 16"
    by (simp add: mask_eq_exp_minus_1)
  have hi: "unat (drop_bit 16 s) = unat s div 65536"
    by (simp only: unat_drop_bit_eq) (simp add: drop_bit_eq_div)
  have lo: "unat (s AND 0xffff) = unat s mod 65536"
    unfolding m take_bit_eq_mask [symmetric]
    by (simp only: unsigned_take_bit_eq) (simp add: take_bit_eq_mod)
  have "unat s < 2 ^ 32"
    using unsigned_less [of s] by simp
  then have "unat s div 65536 + unat s mod 65536 < 2 ^ 32"
    by simp
  then show ?thesis
    by (simp add: unat_word_ariths hi lo)
qed

text \<open>The folding loop \<^verbatim>\<open>while (sum > 0xffff) sum = (sum >> 16) + (sum & 0xffff)\<close>.\<close>

function cksum_fold :: "u32 \<Rightarrow> u32" where
  "cksum_fold s = (if s > 0xffff then cksum_fold (drop_bit 16 s + (s AND 0xffff)) else s)"
  by pat_completeness auto
termination
proof (relation "measure unat")
  fix s :: u32
  assume "s > 0xffff"
  then have "65536 \<le> unat s"
    by (simp add: word_less_nat_alt)
  moreover from this have "1 \<le> unat s div 65536"
    by simp
  moreover have "unat s = 65536 * (unat s div 65536) + unat s mod 65536"
    by simp
  ultimately have "unat s div 65536 + unat s mod 65536 < unat s"
    by linarith
  then show "(drop_bit 16 s + (s AND 0xffff), s) \<in> measure unat"
    by (simp add: unat_fold_step)
qed simp

declare cksum_fold.simps [simp del]

text \<open>\<^verbatim>\<open>sum = htons(~sum); return sum ? sum : 0xffff;\<close> where \<^verbatim>\<open>htons\<close> takes 16 bits.\<close>

definition cksum :: "bytes \<Rightarrow> u16" where
  "cksum data =
     (let s = cksum_fold (cksum_sum 0 data);
          r = htons (ucast (NOT s))
      in if r \<noteq> 0 then r else 0xffff)"

section \<open>The one's-complement sum of RFC 1071\<close>

text \<open>
  \<open>be_words\<close> reads the data as 16-bit big-endian words, an odd last byte padded with zero;
  \<open>ones_fold\<close> is the end-around-carry sum of RFC 1071 as a function of the plain sum: zero only for
  zero, otherwise the residue modulo 65535 in the range 1 to 65535.
\<close>

fun be_words :: "bytes \<Rightarrow> nat list" where
  "be_words (a # b # data) = (unat a * 256 + unat b) # be_words data"
| "be_words [a] = [unat a * 256]"
| "be_words [] = []"

definition ones_fold :: "nat \<Rightarrow> nat" where
  "ones_fold n = (if n = 0 then 0 else (n - 1) mod 65535 + 1)"

definition ones_sum :: "bytes \<Rightarrow> nat" where
  "ones_sum data = ones_fold (sum_list (be_words data))"

lemma be_words_bound: "w \<in> set (be_words data) \<Longrightarrow> w < 65536"
proof (induction data rule: be_words.induct)
  case (1 a b data)
  then show ?case using unat_u8_less [of a] unat_u8_less [of b] by auto
next
  case (2 a)
  then show ?case using unat_u8_less [of a] by simp
qed simp

lemma length_be_words [simp]: "length (be_words data) = (length data + 1) div 2"
  by (induction data rule: be_words.induct) auto

lemma sum_be_words_le: "sum_list (be_words data) \<le> 65535 * ((length data + 1) div 2)"
proof -
  have "sum_list (be_words data) \<le> sum_list (map (\<lambda>_. 65535) (be_words data))"
    by (rule order_trans [OF eq_refl sum_list_mono [where f = "\<lambda>x. x"]])
      (auto dest: be_words_bound)
  then show ?thesis by (simp add: sum_list_triv)
qed

lemma sum_be_words_less: "length data \<le> 131070 \<Longrightarrow> sum_list (be_words data) < 2 ^ 32"
  using sum_be_words_le [of data] by (simp add: div_le_mono order_le_less_trans)

lemma unat_be16: "unat (push_bit 8 (ucast (a :: u8)) OR ucast (b :: u8) :: u32) = unat a * 256 + unat b"
proof -
  have "push_bit 8 (ucast a) OR ucast b = (push_bit 8 (ucast a) + ucast b :: u32)"
    by (rule disjunctive_add [symmetric]) (auto simp: bit_simps)
  then have "unat (push_bit 8 (ucast a) OR ucast b :: u32)
      = (unat (push_bit 8 (ucast a) :: u32) + unat (ucast b :: u32)) mod 2 ^ 32"
    by (simp add: unat_word_ariths)
  moreover have "unat (push_bit 8 (ucast a) :: u32) = unat a * 256"
    using unat_u8_less [of a]
    by (simp only: unsigned_push_bit_eq) (simp add: unsigned_ucast_eq take_bit_eq_mod push_bit_eq_mult)
  moreover have "unat (ucast b :: u32) = unat b"
    using unat_u8_less [of b] by (simp add: unsigned_ucast_eq take_bit_eq_mod)
  ultimately show ?thesis
    using unat_u8_less [of a] unat_u8_less [of b] by simp
qed

lemma cksum_sum_nat:
  "unat s + sum_list (be_words data) < 2 ^ 32 \<Longrightarrow>
   unat (cksum_sum s data) = unat s + sum_list (be_words data)"
proof (induction s data rule: cksum_sum.induct)
  case (1 s a b data)
  have "unat (s + (push_bit 8 (ucast a) OR ucast b)) = unat s + (unat a * 256 + unat b)"
    using "1.prems" by (simp add: unat_word_ariths unat_be16)
  with 1 show ?case by simp
next
  case (2 s a)
  have "unat (push_bit 8 (ucast a) :: u32) = unat a * 256"
    using unat_be16 [of a 0] by simp
  with 2 show ?case by (simp add: unat_word_ariths)
qed simp

lemma ones_fold_step:
  "65535 < n \<Longrightarrow> ones_fold (n div 65536 + n mod 65536) = ones_fold n"
proof -
  assume n: "65535 < n"
  define m where "m = n div 65536 + n mod 65536"
  have "n = m + 65535 * (n div 65536)"
    unfolding m_def using mult_div_mod_eq [of 65536 n] by linarith
  moreover have "0 < m"
    using n unfolding m_def by (simp add: div_greater_zero_iff)
  ultimately have "n - 1 = (m - 1) + 65535 * (n div 65536)"
    by simp
  then have "(n - 1) mod 65535 = (m - 1) mod 65535"
    by simp
  with n \<open>0 < m\<close> show ?thesis
    by (simp add: ones_fold_def m_def [symmetric])
qed

lemma unat_cksum_fold: "unat (cksum_fold s) = ones_fold (unat s)"
proof (induction s rule: cksum_fold.induct)
  case (1 s)
  show ?case
  proof (cases "s > 0xffff")
    case True
    then have "65535 < unat s"
      by (simp add: word_less_nat_alt)
    with True 1 show ?thesis
      by (subst cksum_fold.simps) (simp add: unat_fold_step ones_fold_step)
  next
    case False
    then have "unat s \<le> 65535"
      by (simp add: word_less_nat_alt)
    with False show ?thesis
      by (subst cksum_fold.simps) (auto simp: ones_fold_def)
  qed
qed

lemma ones_fold_le: "ones_fold n \<le> 65535"
proof -
  have "(n - 1) mod 65535 < 65535"
    by simp
  then show ?thesis
    unfolding ones_fold_def by (auto simp del: mod_less_divisor)
qed

lemma unat_not_u16: "unat (NOT w) = 65535 - unat (w :: u16)"
proof -
  have "unat w < 65536"
    using unsigned_less [of w] by simp
  then have "w \<le> 65535"
    by (simp add: word_le_nat_alt)
  moreover have "NOT w = 65535 - w"
    by (simp add: not_eq_complement)
  ultimately show ?thesis
    by (simp add: unat_sub)
qed

lemma unat_ntohs_cksum:
  assumes "length data \<le> 131070"
  shows "unat (ntohs (cksum data)) = (if ones_sum data = 65535 then 65535 else 65535 - ones_sum data)"
proof -
  define f where "f = cksum_fold (cksum_sum 0 data)"
  have f: "unat f = ones_sum data"
    using sum_be_words_less [OF assms]
    by (simp add: f_def unat_cksum_fold cksum_sum_nat ones_sum_def)
  then have le: "unat f \<le> 65535"
    by (simp add: ones_sum_def ones_fold_le)
  have n: "unat (ucast (NOT f) :: u16) = 65535 - unat f"
  proof -
    have "(ucast (NOT f) :: u16) = NOT (ucast f)"
      by (rule bit_word_eqI) (simp add: bit_simps)
    moreover have "unat (ucast f :: u16) = unat f"
      using le by (simp add: unsigned_ucast_eq take_bit_eq_mod)
    ultimately show ?thesis
      by (simp only: unat_not_u16)
  qed
  have z: "htons (ucast (NOT f)) = 0 \<longleftrightarrow> unat f = 65535"
    using n le by (metis bswap16_bswap16 bswap16_def diff_is_0_eq le_antisym
      drop_bit_of_0 or.right_neutral push_bit_of_0 unat_eq_zero)
  have "ntohs (0xffff) = (0xffff :: u16)"
    by (simp add: bswap16_def)
  with n z show ?thesis
    by (simp add: cksum_def Let_def f_def [symmetric] f)
qed

section \<open>Checksummed fields\<close>

lemma sum_list_update_nat:
  "k < length xs \<Longrightarrow> sum_list (xs[k := x]) + xs ! k = sum_list xs + (x :: nat)"
  by (induction xs arbitrary: k) (auto split: nat.splits simp: less_Suc_eq_0_disj)

lemma unat_ntohs_bytes:
  "unat (ucast v :: u8) * 256 + unat (ucast (drop_bit 8 v) :: u8) = unat (ntohs v)"
proof -
  define a c where "a = (ucast v :: u8)" and "c = (ucast (drop_bit 8 v) :: u8)"
  have "ntohs v = ucast (push_bit 8 (ucast a) OR ucast c :: u32)"
    unfolding a_def c_def by (rule bit_word_eqI) (auto simp: bit_bswap16 bit_simps add.commute)
  then have "unat (ntohs v) = (unat a * 256 + unat c) mod 65536"
    by (simp add: unsigned_ucast_eq unat_be16 take_bit_eq_mod)
  then have "unat (ntohs v) = unat a * 256 + unat c"
    using unat_u8_less [of a] unat_u8_less [of c] by simp
  then show ?thesis by (simp only: a_def c_def)
qed

lemma st16_zero_id:
  assumes "off + 1 < length data" "data ! off = 0" "data ! (off + 1) = 0"
  shows "st16 data off 0 = data"
proof -
  have "data[off := 0] = data" "data[Suc off := 0] = data"
    using assms by (simp_all add: list_update_same_conv)
  then show ?thesis by (simp add: le16_def)
qed

lemma be_words_st16:
  "even off \<Longrightarrow> off + 1 < length data \<Longrightarrow>
   be_words (st16 data off v) = (be_words data)[off div 2 := unat (ntohs v)]"
proof (induction data arbitrary: off rule: be_words.induct)
  case (1 a b data)
  show ?case
  proof (cases "off = 0")
    case True
    then show ?thesis by (simp add: le16_def unat_ntohs_bytes)
  next
    case False
    with "1.prems" obtain k where k: "off = Suc (Suc k)" "even k"
      by (metis dvd_0_right even_Suc not0_implies_Suc)
    have "st16 (a # b # data) off v = a # b # st16 data k v"
      by (simp add: k le16_def)
    with k "1.prems" "1.IH" [of k] show ?thesis
      by (simp add: le16_def)
  qed
qed auto

lemma ones_fold_eq_65535: "ones_fold n = 65535 \<longleftrightarrow> 0 < n \<and> n mod 65535 = 0"
proof (cases "n = 0")
  case False
  then obtain m where n: "n = Suc m" by (cases n) auto
  have "m mod 65535 = 65534 \<longleftrightarrow> Suc m mod 65535 = 0"
    by (simp add: mod_Suc)
  with n show ?thesis by (simp add: ones_fold_def)
qed (simp add: ones_fold_def)

lemma ones_fold_cong: "0 < n \<Longrightarrow> ones_fold n mod 65535 = n mod 65535"
  by (simp add: ones_fold_def mod_Suc_eq)

text \<open>
  The checksum stored over a zeroed field: a receiver that sums the whole buffer, field included,
  gets all ones. The converse direction says which stored values the source's comparison accepts:
  exactly the ones with an all-ones sum, except the zero field (RFC 1071 senders may emit it, since
  minus zero and zero are the same one's-complement number).
\<close>

lemma ones_sum_field:
  assumes "even off" "off + 1 < length data" "data ! off = 0" "data ! (off + 1) = 0"
  shows "sum_list (be_words (st16 data off v)) = sum_list (be_words data) + unat (ntohs v)"
proof -
  have k: "off div 2 < length (be_words data)"
    using assms by simp
  have "(be_words data)[off div 2 := 0] = be_words data"
    using be_words_st16 [of off data 0] assms by (simp add: st16_zero_id bswap16_def)
  then have "be_words data ! (off div 2) = 0"
    using k by (simp add: list_update_same_conv)
  then show ?thesis
    using be_words_st16 [of off data v] assms k
      sum_list_update_nat [of "off div 2" "be_words data" "unat (ntohs v)"] by simp
qed

lemma ones_fold_decomp: "\<exists>q. n = ones_fold n + 65535 * q"
proof (cases "n = 0")
  case False
  then have "n = ones_fold n + 65535 * ((n - 1) div 65535)"
    using mult_div_mod_eq [of 65535 "n - 1"] by (simp add: ones_fold_def)
  then show ?thesis by blast
qed (simp add: ones_fold_def)

text \<open>The stored complement is the only nonzero value that completes a sum to all ones.\<close>

lemma ones_complement_iff:
  fixes n c :: nat
  assumes c: "c \<le> 65535"
  defines "f \<equiv> ones_fold n"
  shows "c = (if f = 65535 then 65535 else 65535 - f) \<longleftrightarrow> ones_fold (n + c) = 65535 \<and> c \<noteq> 0"
proof -
  obtain q where q: "n = f + 65535 * q"
    using ones_fold_decomp unfolding f_def by blast
  have f: "f \<le> 65535"
    by (simp add: f_def ones_fold_le)
  have "(n + c) mod 65535 = (f + c) mod 65535"
    using q by (metis add.assoc add.commute mod_mult_self2)
  moreover have "(f + c) mod 65535 = 0 \<longleftrightarrow> f + c = 0 \<or> f + c = 65535 \<or> f + c = 131070"
    using f c by auto
  ultimately show ?thesis
    using f c by (auto simp: ones_fold_eq_65535)
qed

lemma unat_u16_le: "unat (v :: u16) \<le> 65535"
proof -
  have "unat v < 65536"
    using unsigned_less [of v] by simp
  then show ?thesis by simp
qed

lemma u16_eq_iff_unat_ntohs: "v = w \<longleftrightarrow> unat (ntohs v) = unat (ntohs w)"
  by (metis bswap16_eq_iff unsigned_word_eqI)

lemma bswap16_0 [simp]: "bswap16 0 = 0"
  by (simp add: bswap16_def)

lemma unat_ntohs_eq_0 [simp]: "unat (ntohs v) = 0 \<longleftrightarrow> v = 0"
  using u16_eq_iff_unat_ntohs [of v 0] by simp

lemma cksum_field_iff:
  assumes "even off" "off + 1 < length data" "length data \<le> 131070"
  shows "ld16 data off = cksum (st16 data off 0) \<longleftrightarrow>
     ones_sum data = 65535 \<and> ld16 data off \<noteq> 0"
proof -
  define z where "z = st16 data off 0"
  have zf: "z ! off = 0" "z ! (off + 1) = 0" and zl: "off + 1 < length z" "length z \<le> 131070"
    using assms by (simp_all add: z_def nth_st_bytes le16_def)
  have "st16 z off (ld16 data off) = st_bytes data off (le16 (ld16 data off))"
    unfolding z_def by (simp add: mem_simps)
  also have "\<dots> = data"
    using assms by (simp add: le16_ld16) (rule nth_equalityI, auto simp: nth_st_bytes)
  finally have "sum_list (be_words data) = sum_list (be_words z) + unat (ntohs (ld16 data off))"
    using ones_sum_field [OF assms(1) zl(1) zf, of "ld16 data off"] by simp
  with ones_complement_iff [OF unat_u16_le, of "ntohs (ld16 data off)" "sum_list (be_words z)"]
  show ?thesis
    unfolding z_def [symmetric] u16_eq_iff_unat_ntohs [of _ "cksum z"] unat_ntohs_cksum [OF zl(2)]
    by (auto simp: ones_sum_def split: if_splits)
qed

lemma cksum_nonzero: "cksum data \<noteq> 0"
  by (simp add: cksum_def Let_def)

lemma cksum_makes_ones:
  assumes "even off" "off + 1 < length data" "length data \<le> 131070"
    and "data ! off = 0" "data ! (off + 1) = 0"
  shows "ones_sum (st16 data off (cksum data)) = 65535"
proof -
  have z: "st16 data off 0 = data"
    using assms by (simp add: st16_zero_id)
  show ?thesis
    using cksum_field_iff [of off "st16 data off (cksum data)"] assms
    by (simp add: mem_simps z cksum_nonzero)
qed

text \<open>
  C17: storing \<^verbatim>\<open>cksum\<close> of a buffer whose 16-bit checksum field is zero makes the
  one's-complement sum of the whole buffer all ones, which is what an RFC 1071 receiver checks.
  Conversely the comparison the router makes on reception (recompute over the zeroed field and
  compare) accepts exactly the buffers with an all-ones sum and a nonzero field.
\<close>

theorem cksum_rfc1071:
  assumes "even off" "off + 1 < length data" "length data \<le> 131070"
  shows "ones_sum (st16 data off (cksum (st16 data off 0))) = 65535
     \<and> (ld16 data off = cksum (st16 data off 0) \<longleftrightarrow> ones_sum data = 65535 \<and> ld16 data off \<noteq> 0)"
proof -
  have "ones_sum (st16 (st16 data off 0) off (cksum (st16 data off 0))) = 65535"
    using assms by (intro cksum_makes_ones) (simp_all add: nth_st_bytes le16_def)
  then show ?thesis
    using cksum_field_iff [OF assms] by (simp add: st_bytes_same)
qed

theorem cksum_rfc1071_witness:
  "ones_sum (st16 [0x45, 0, 0, 0, 1, 2] 2 (cksum (st16 [0x45, 0, 0, 0, 1, 2] 2 0))) = 65535"
  using cksum_rfc1071 [of 2 "[0x45, 0, 0, 0, 1, 2]"] by simp

end
