(* ===== verification/Sr_Icmp.thy ===== *)
theory Sr_Icmp
  imports Sr_Instance Sr_Utils
begin

text \<open>
  The ICMP error frames of the router. The source builds them in four places (port unreachable, time
  exceeded, net unreachable in \<^verbatim>\<open>sr_router.c\<close>, host unreachable in \<^verbatim>\<open>sr_arpcache.c\<close>) with the same
  assignments; the places differ in type, code, frame length and source address, which are arguments
  here. Checksums are computed over the buffer as it stands when the source computes them.
\<close>

definition ip_cksum_ok :: "bytes \<Rightarrow> bool" where
  "ip_cksum_ok frame \<longleftrightarrow> ones_sum (bslice frame 14 20) = 65535"

definition icmp_cksum_ok :: "bytes \<Rightarrow> bool" where
  "icmp_cksum_ok frame \<longleftrightarrow> ones_sum (drop 34 frame) = 65535"

text \<open>\<^verbatim>\<open>hdr->ip_sum = 0; hdr->ip_sum = cksum(hdr, sizeof(struct sr_ip_hdr));\<close>\<close>

definition set_ip_cksum :: "bytes \<Rightarrow> bytes" where
  "set_ip_cksum frame =
     (let h = ld_struct 20 dec_ip frame 14;
          f0 = st_bytes frame 14 (enc_ip (h\<lparr>ip_sum := 0\<rparr>))
      in st_bytes f0 14 (enc_ip (h\<lparr>ip_sum := cksum (bslice f0 14 20)\<rparr>)))"

definition mk_icmp_t3 ::
  "nat \<Rightarrow> u32 \<Rightarrow> sr_ip_hdr \<Rightarrow> u8 \<Rightarrow> u8 \<Rightarrow> bytes \<Rightarrow> mac \<Rightarrow> bytes" where
  "mk_icmp_t3 new_len src i_hdr0 typ code dat shost =
     (let new_pck = replicate new_len 0;
          i_hdr = \<lparr>ip_hl = of_nat (sizeof_ip_hdr div 4), ip_v = 4, ip_tos = ip_tos i_hdr0,
                   ip_len = htons (of_nat (new_len - sizeof_ethernet_hdr)), ip_id = ip_id i_hdr0,
                   ip_off = ip_off i_hdr0, ip_ttl = INIT_TTL, ip_p = ip_protocol_icmp, ip_sum = 0,
                   ip_src = src, ip_dst = ip_src i_hdr0\<rparr>;
          p1 = set_ip_cksum (st_bytes new_pck 14 (enc_ip i_hdr));
          t3 = \<lparr>t3_icmp_type = typ, t3_icmp_code = code, t3_icmp_sum = 0, t3_unused = htons 0,
                t3_next_mtu = htons 0xFF, t3_data = dat\<rparr>;
          p2 = st_bytes p1 34 (enc_t3 t3);
          p3 = st_bytes p2 34 (enc_t3 (t3\<lparr>t3_icmp_sum := cksum (bslice p2 34 (new_len - 34))\<rparr>))
      in st_bytes p3 0 (enc_ether \<lparr>ether_dhost = (0, 0, 0, 0, 0, 0), ether_shost = shost,
                                   ether_type = htons ethertype_ip\<rparr>))"

text \<open>\<^verbatim>\<open>memcpy(e_hdr->ether_dhost, mac, ETHER_ADDR_LEN)\<close> and its source-address twin.\<close>

definition set_dhost :: "bytes \<Rightarrow> mac \<Rightarrow> bytes" where
  "set_dhost frame m = st_bytes frame 0 (mac_bytes m)"

definition set_shost :: "bytes \<Rightarrow> mac \<Rightarrow> bytes" where
  "set_shost frame m = st_bytes frame 6 (mac_bytes m)"

section \<open>Properties\<close>

lemma enc_ip_sum: "enc_ip (h\<lparr>ip_sum := v\<rparr>) = st16 (enc_ip h) 10 v"
  by (simp add: enc_ip_def le16_def le32_def)

lemma length_enc_ip [simp]: "length (enc_ip h) = 20"
  by (simp add: enc_ip_def)

lemma length_enc_ether [simp]: "length (enc_ether h) = 14"
  by (simp add: enc_ether_def)

lemma length_enc_icmp [simp]: "length (enc_icmp h) = 4"
  by (simp add: enc_icmp_def)

lemma length_enc_arp [simp]: "length (enc_arp h) = 28"
  by (simp add: enc_arp_def)

lemma length_enc_t3 [simp]: "length (enc_t3 h) = 8 + length (t3_data h)"
  by (simp add: enc_t3_def)

lemma length_set_ip_cksum [simp]: "length (set_ip_cksum f) = length f"
  by (simp add: set_ip_cksum_def Let_def)

lemma set_ip_cksum_eq:
  "34 \<le> length f \<Longrightarrow>
   set_ip_cksum f = st_bytes f 14 (enc_ip ((ld_struct 20 dec_ip f 14)\<lparr>ip_sum :=
      cksum (enc_ip ((ld_struct 20 dec_ip f 14)\<lparr>ip_sum := 0\<rparr>))\<rparr>))"
  by (simp add: set_ip_cksum_def Let_def iphdr.bslice_st iphdr.st_st_same)

lemma ones_sum_enc_ip:
  "ones_sum (enc_ip (h\<lparr>ip_sum := cksum (enc_ip (h\<lparr>ip_sum := 0\<rparr>))\<rparr>)) = 65535"
proof -
  let ?z = "enc_ip (h\<lparr>ip_sum := 0\<rparr>)"
  have "enc_ip (h\<lparr>ip_sum := cksum ?z\<rparr>) = st16 ?z 10 (cksum ?z)"
    by (simp only: enc_ip_sum st_bytes_same length_le16)
  moreover have "ones_sum (st16 ?z 10 (cksum ?z)) = 65535"
    by (rule cksum_makes_ones) (simp_all add: enc_ip_sum nth_st_bytes le16_def)
  ultimately show ?thesis by simp
qed

lemma ip_cksum_ok_set_ip_cksum: "34 \<le> length f \<Longrightarrow> ip_cksum_ok (set_ip_cksum f)"
  by (simp add: ip_cksum_ok_def set_ip_cksum_eq iphdr.bslice_st ones_sum_enc_ip)

lemma ip_hdr_set_ip_cksum:
  "34 \<le> length f \<Longrightarrow>
   (ld_struct 20 dec_ip (set_ip_cksum f) 14)\<lparr>ip_sum := 0\<rparr> = (ld_struct 20 dec_ip f 14)\<lparr>ip_sum := 0\<rparr>"
  by (simp add: set_ip_cksum_eq iphdr.ld_st_same)

section \<open>Well-formed IP frames\<close>

definition frame_ok :: "bytes \<Rightarrow> bool" where
  "frame_ok f \<longleftrightarrow> 34 \<le> length f \<and> ether_type (ld_struct 14 dec_ether f 0) = htons ethertype_ip
     \<and> ip_cksum_ok f"

lemma ether_type_ld: "14 \<le> length f \<Longrightarrow> ether_type (ld_struct 14 dec_ether f 0) = ld16 f 12"
  by (simp add: ld_struct_def dec_ether_def ld16_def)

lemma ether_shost_ld:
  "14 \<le> length f \<Longrightarrow> ether_shost (ld_struct 14 dec_ether f 0) = bytes_mac (bslice f 6 6)"
  by (simp add: ld_struct_def dec_ether_def bytes_mac_def bslice_def)

lemma ether_dhost_ld:
  "14 \<le> length f \<Longrightarrow> ether_dhost (ld_struct 14 dec_ether f 0) = bytes_mac (bslice f 0 6)"
  by (simp add: ld_struct_def dec_ether_def bytes_mac_def bslice_def)

lemma length_set_hosts [simp]:
  "length (set_dhost f m) = length f" "length (set_shost f m) = length f"
  by (simp_all add: set_dhost_def set_shost_def)

lemma bytes_mac_st: "6 \<le> length b \<Longrightarrow> bytes_mac (st_bytes b 0 (mac_bytes m)) = m"
proof -
  assume "6 \<le> length b"
  then have "bytes_mac (st_bytes b 0 (mac_bytes m)) = bytes_mac (mac_bytes m)"
    unfolding bytes_mac_def by (simp only: nth_st_bytes length_mac_bytes) (auto simp: nth_st_bytes)
  then show ?thesis by simp
qed

lemma set_dhost_ld:
  "14 \<le> length f \<Longrightarrow> ld_struct 14 dec_ether (set_dhost f m) 0 = (ld_struct 14 dec_ether f 0)\<lparr>ether_dhost := m\<rparr>"
  by (simp add: ld_struct_def dec_ether_def set_dhost_def bslice_st_bytes_inside bytes_mac_st
      bslice_st_bytes_disjoint ld16_st_bytes_disjoint)

lemma set_shost_ld:
  "14 \<le> length f \<Longrightarrow> ld_struct 14 dec_ether (set_shost f m) 0 = (ld_struct 14 dec_ether f 0)\<lparr>ether_shost := m\<rparr>"
  by (simp add: ld_struct_def dec_ether_def set_shost_def bslice_st_bytes_inside bytes_mac_st
      bslice_st_bytes_disjoint ld16_st_bytes_disjoint)

lemma bslice_set_hosts [simp]:
  "14 \<le> off \<Longrightarrow> bslice (set_dhost f m) off n = bslice f off n"
  "14 \<le> off \<Longrightarrow> bslice (set_shost f m) off n = bslice f off n"
  by (simp_all add: set_dhost_def set_shost_def bslice_st_bytes_disjoint)

lemma ip_ld_set_hosts [simp]:
  "ld_struct 20 dec_ip (set_dhost f m) 14 = ld_struct 20 dec_ip f 14"
  "ld_struct 20 dec_ip (set_shost f m) 14 = ld_struct 20 dec_ip f 14"
  by (simp_all add: ld_struct_def)

lemma frame_ok_set_hosts [simp]:
  "frame_ok (set_dhost f m) = frame_ok f" "frame_ok (set_shost f m) = frame_ok f"
  by (auto simp: frame_ok_def ip_cksum_ok_def set_dhost_ld set_shost_ld)

lemma ether_ld_set_ip_cksum [simp]:
  "34 \<le> length f \<Longrightarrow> ld_struct 14 dec_ether (set_ip_cksum f) 0 = ld_struct 14 dec_ether f 0"
  by (simp add: set_ip_cksum_eq ether.ld_st_other)

lemma bslice_set_ip_cksum:
  "34 \<le> length f \<Longrightarrow> 34 \<le> off \<or> off + n \<le> 14 \<Longrightarrow> bslice (set_ip_cksum f) off n = bslice f off n"
  by (auto simp: set_ip_cksum_eq bslice_st_bytes_disjoint)

lemma frame_ok_set_ip_cksum:
  "34 \<le> length f \<Longrightarrow> ether_type (ld_struct 14 dec_ether f 0) = htons ethertype_ip \<Longrightarrow>
   frame_ok (set_ip_cksum f)"
  by (simp add: frame_ok_def ip_cksum_ok_set_ip_cksum)

text \<open>A store of the payload does not change what the header lemmas speak of.\<close>

lemma frame_ok_st_payload: "34 \<le> off \<Longrightarrow> frame_ok (st_bytes f off xs) = frame_ok f"
  by (simp add: frame_ok_def ip_cksum_ok_def bslice_st_bytes_disjoint ether.ld_st_other)

lemma length_mk_icmp_t3 [simp]: "length (mk_icmp_t3 n src h typ code dat shost) = n"
  by (simp add: mk_icmp_t3_def Let_def)

definition t3_ip_hdr :: "nat \<Rightarrow> u32 \<Rightarrow> sr_ip_hdr \<Rightarrow> sr_ip_hdr" where
  "t3_ip_hdr new_len src i_hdr0 =
     \<lparr>ip_hl = 5, ip_v = 4, ip_tos = ip_tos i_hdr0, ip_len = htons (of_nat (new_len - 14)),
      ip_id = ip_id i_hdr0, ip_off = ip_off i_hdr0, ip_ttl = 255, ip_p = 1, ip_sum = 0,
      ip_src = src, ip_dst = ip_src i_hdr0\<rparr>"

text \<open>Storing the checksum over a payload whose checksum field is zero.\<close>

lemma drop_st_bytes: "k \<le> off \<Longrightarrow> drop k (st_bytes f off xs) = st_bytes (drop k f) (off - k) xs"
  by (rule nth_equalityI) (auto simp: nth_st_bytes add.commute)

lemma icmp_cksum_ok_st16:
  assumes "38 \<le> length f" "length f \<le> 131104" "z = st16 f 36 0"
  shows "icmp_cksum_ok (st16 f 36 (cksum (drop 34 z)))"
proof -
  have "st16 f 36 (cksum (drop 34 z)) = st16 z 36 (cksum (drop 34 z))"
    by (simp add: assms(3) st_bytes_same)
  then have "drop 34 (st16 f 36 (cksum (drop 34 z))) = st16 (drop 34 z) 2 (cksum (drop 34 z))"
    by (simp add: drop_st_bytes)
  moreover have "ones_sum (st16 (drop 34 z) 2 (cksum (drop 34 z))) = 65535"
    using assms by (intro cksum_makes_ones) (auto simp: nth_st_bytes le16_def)
  ultimately show ?thesis
    by (simp add: icmp_cksum_ok_def)
qed

lemma st_enc_icmp_sum:
  "st_bytes f 34 (enc_icmp (h\<lparr>icmp_sum := v\<rparr>)) = st16 (st_bytes f 34 (enc_icmp h)) 36 v"
proof -
  define pre where "pre = [icmp_type h, icmp_code h]"
  have pre: "length pre = 2"
    by (simp add: pre_def)
  have "enc_icmp (h\<lparr>icmp_sum := v\<rparr>) = pre @ le16 v" for v
    by (simp add: enc_icmp_def pre_def)
  from this [of v] this [of "icmp_sum h"] show ?thesis
    by (simp add: st_bytes_append st_bytes_same pre)
qed

lemma st_enc_t3_sum:
  "st_bytes f 34 (enc_t3 (h\<lparr>t3_icmp_sum := v\<rparr>)) = st16 (st_bytes f 34 (enc_t3 h)) 36 v"
proof -
  define post where "post = le16 (t3_unused h) @ le16 (t3_next_mtu h) @ t3_data h"
  define pre where "pre = [t3_icmp_type h, t3_icmp_code h]"
  have pre: "length pre = 2"
    by (simp add: pre_def)
  have "enc_t3 (h\<lparr>t3_icmp_sum := v\<rparr>) = pre @ le16 v @ post" for v
    by (simp add: enc_t3_def pre_def post_def)
  from this [of v] this [of "t3_icmp_sum h"] show ?thesis
    by (simp add: st_bytes_append st_bytes_same st_bytes_swap [of 36 _ 38] pre)
qed

lemma bslice_all: "length f - off \<le> n \<Longrightarrow> bslice f off n = drop off f"
  by (simp add: bslice_def)

lemma icmp_cksum_ok_st_header: "k + length xs \<le> 34 \<Longrightarrow> icmp_cksum_ok (st_bytes f k xs) = icmp_cksum_ok f"
proof -
  assume "k + length xs \<le> 34"
  then have "drop 34 (st_bytes f k xs) = drop 34 f"
    by (intro nth_equalityI) (auto simp: nth_st_bytes)
  then show ?thesis by (simp add: icmp_cksum_ok_def)
qed

text \<open>What the frame of \<open>mk_icmp_t3\<close> says when it is read back header by header.\<close>

lemma mk_icmp_t3_headers:
  fixes src h ty code shost
  assumes "70 \<le> n" "n \<le> 65535" "length dat = 28"
  defines "f \<equiv> mk_icmp_t3 n src h ty code dat shost"
  shows "ld_struct 14 dec_ether f 0 = \<lparr>ether_dhost = (0, 0, 0, 0, 0, 0), ether_shost = shost,
           ether_type = htons ethertype_ip\<rparr>"
    and "(ld_struct 20 dec_ip f 14)\<lparr>ip_sum := 0\<rparr> = t3_ip_hdr n src h"
    and "(ld_struct 36 dec_t3 f 34)\<lparr>t3_icmp_sum := 0\<rparr> = \<lparr>t3_icmp_type = ty, t3_icmp_code = code,
           t3_icmp_sum = 0, t3_unused = 0, t3_next_mtu = htons 0xFF, t3_data = dat\<rparr>"
    and "frame_ok f"
    and "icmp_cksum_ok f"
proof -
  define p1 where "p1 = set_ip_cksum (st_bytes (replicate n 0) 14 (enc_ip (t3_ip_hdr n src h)))"
  define t3 where "t3 = \<lparr>t3_icmp_type = ty, t3_icmp_code = code, t3_icmp_sum = 0, t3_unused = 0,
                t3_next_mtu = htons 0xFF, t3_data = dat\<rparr>"
  define p2 where "p2 = st_bytes p1 34 (enc_t3 t3)"
  define sm where "sm = cksum (bslice p2 34 (n - 34))"
  define p3 where "p3 = st_bytes p2 34 (enc_t3 (t3\<lparr>t3_icmp_sum := sm\<rparr>))"
  define e where "e = \<lparr>ether_dhost = (0, 0, 0, 0, 0, 0), ether_shost = shost,
                                   ether_type = htons ethertype_ip\<rparr>"
  have f: "f = st_bytes p3 0 (enc_ether e)"
    by (simp add: f_def mk_icmp_t3_def Let_def p3_def sm_def p2_def t3_def p1_def e_def t3_ip_hdr_def
        sizeof_defs INIT_TTL_def ip_protocol_icmp_def)
  have len: "length p1 = n" "length p2 = n" "length p3 = n"
    by (simp_all add: p1_def p2_def p3_def)
  show "ld_struct 14 dec_ether f 0 = e"
    using assms(1-3) by (simp add: f ether.ld_st_same len)
  have hdr: "bslice f 14 20 = bslice p1 14 20"
    by (simp add: f p3_def p2_def bslice_st_bytes_disjoint)
  show "(ld_struct 20 dec_ip f 14)\<lparr>ip_sum := 0\<rparr> = t3_ip_hdr n src h"
    using assms(1-3) unfolding ld_struct_def hdr
    by (simp add: p1_def ip_hdr_set_ip_cksum [unfolded ld_struct_def] bslice_st_bytes_same
        iphdr.dec_enc t3_ip_hdr_def)
  show "frame_ok f"
    using assms(1-3) ip_cksum_ok_set_ip_cksum [of "st_bytes (replicate n 0) 14 (enc_ip (t3_ip_hdr n src h))"]
    by (simp add: frame_ok_def ip_cksum_ok_def hdr p1_def) (simp add: f len ether.ld_st_same e_def)
  have p3: "p3 = st_bytes p1 34 (enc_t3 (t3\<lparr>t3_icmp_sum := sm\<rparr>))"
    by (simp add: p3_def p2_def st_bytes_same)
  have "ld_struct 36 dec_t3 f 34 = t3\<lparr>t3_icmp_sum := sm\<rparr>"
    using assms(1-3) by (simp add: f t3hdr.ld_st_other p3 t3hdr.ld_st_same len t3_def)
  then show "(ld_struct 36 dec_t3 f 34)\<lparr>t3_icmp_sum := 0\<rparr> = t3"
    by (simp add: t3_def)
  have "p2 = st16 p2 36 0"
    using st_enc_t3_sum [of p1 0 t3] by (simp add: p2_def t3_def)
  moreover have "p3 = st16 p2 36 sm"
    using st_enc_t3_sum [of p1 sm t3] by (simp add: p3 p2_def)
  moreover have "sm = cksum (drop 34 p2)"
    by (simp add: sm_def bslice_all len)
  ultimately have "icmp_cksum_ok p3"
    using icmp_cksum_ok_st16 [of p2 p2] assms(1-3) by (simp add: len)
  then show "icmp_cksum_ok f"
    by (simp add: f icmp_cksum_ok_st_header)
qed

end
