(* ===== verification/Sr_Arpcache.thy ===== *)
theory Sr_Arpcache
  imports Sr_Rt Sr_Send Sr_Icmp
begin

text \<open>
  \<^verbatim>\<open>sr_arpcache.c\<close>: the table of IP to MAC mappings and the queue of outstanding ARP requests.
  A pointer to a request is an address of the store \<open>req_store\<close>; \<^verbatim>\<open>free\<close> removes the address, and
  reading a freed request is the fault \<open>UseAfterFree\<close>.
\<close>

section \<open>Table and queue operations\<close>

fun lookup_scan :: "sr_arpentry list \<Rightarrow> u32 \<Rightarrow> sr_arpentry option \<Rightarrow> sr_arpentry option" where
  "lookup_scan [] ip entry = entry"
| "lookup_scan (e # es) ip entry =
     lookup_scan es ip (if ae_valid e \<and> ae_ip e = ip then Some e else entry)"

definition sr_arpcache_lookup :: "sr_arpcache \<Rightarrow> u32 \<Rightarrow> sr_arpentry option" where
  "sr_arpcache_lookup c ip = lookup_scan (entries c) ip None"

definition get_req :: "sr_arpcache \<Rightarrow> req_addr \<Rightarrow> sr_arpreq res" where
  "get_req c a = (case req_store c a of None \<Rightarrow> Inl UseAfterFree | Some r \<Rightarrow> Inr r)"

text \<open>The walk over the queue for a request with the given IP address.\<close>

fun find_req :: "sr_arpcache \<Rightarrow> req_addr list \<Rightarrow> u32 \<Rightarrow> req_addr option res" where
  "find_req c [] ip = Inr None"
| "find_req c (a # as) ip =
     rbind (get_req c a) (\<lambda>r. if rq_ip r = ip then Inr (Some a) else find_req c as ip)"

definition new_req :: "sr_arpcache \<Rightarrow> u32 \<Rightarrow> req_addr \<times> sr_arpcache" where
  "new_req c ip =
     (let a = req_fresh c;
          r = \<lparr>rq_ip = ip, rq_sent = 0, rq_times_sent = 0, rq_packets = []\<rparr>
      in (a, c\<lparr>requests := a # requests c, req_store := (req_store c)(a := Some r),
               req_fresh := Suc a\<rparr>))"

definition add_packet :: "sr_arpcache \<Rightarrow> req_addr \<Rightarrow> sr_packet \<Rightarrow> sr_arpcache res" where
  "add_packet c a p =
     rbind (get_req c a) (\<lambda>r.
       Inr (c\<lparr>req_store := (req_store c)(a := Some (r\<lparr>rq_packets := p # rq_packets r\<rparr>))\<rparr>))"

definition sr_arpcache_queuereq ::
  "sr_arpcache \<Rightarrow> u32 \<Rightarrow> bytes \<Rightarrow> string \<Rightarrow> (req_addr \<times> sr_arpcache) res" where
  "sr_arpcache_queuereq c ip packet iface =
     rbind (find_req c (requests c) ip) (\<lambda>found.
       let (a, c1) = (case found of Some a \<Rightarrow> (a, c) | None \<Rightarrow> new_req c ip)
       in if packet \<noteq> []
          then rbind (add_packet c1 a
                 \<lparr>pk_buf = packet, pk_iface = strncpy sr_IFACE_NAMELEN iface\<rparr>) (\<lambda>c2. Inr (a, c2))
          else Inr (a, c1))"

fun first_invalid :: "sr_arpentry list \<Rightarrow> nat" where
  "first_invalid [] = 0"
| "first_invalid (e # es) = (if \<not> ae_valid e then 0 else Suc (first_invalid es))"

definition sr_arpcache_insert ::
  "sr_instance \<Rightarrow> mac \<Rightarrow> u32 \<Rightarrow> (req_addr option \<times> sr_instance) res" where
  "sr_arpcache_insert sr m ip =
     rbind (find_req (cache sr) (requests (cache sr)) ip) (\<lambda>req.
       let c = cache sr;
           c1 = (case req of None \<Rightarrow> c | Some a \<Rightarrow> c\<lparr>requests := remove1 a (requests c)\<rparr>);
           i = first_invalid (entries c1)
       in if i \<noteq> length (entries c1)
          then (case sr_time sr of (now, sr1) \<Rightarrow>
                  Inr (req, sr1\<lparr>cache := c1\<lparr>entries := (entries c1)[i :=
                         \<lparr>ae_mac = m, ae_ip = ip, ae_added = now, ae_valid = True\<rparr>]\<rparr>\<rparr>))
          else Inr (req, sr\<lparr>cache := c1\<rparr>))"

definition sr_arpreq_destroy :: "sr_arpcache \<Rightarrow> req_addr \<Rightarrow> sr_arpcache res" where
  "sr_arpreq_destroy c a =
     rbind (get_req c a) (\<lambda>_.
       Inr (c\<lparr>requests := remove1 a (requests c), req_store := (req_store c)(a := None)\<rparr>))"

definition zero_entry :: sr_arpentry where
  "zero_entry = \<lparr>ae_mac = (0, 0, 0, 0, 0, 0), ae_ip = 0, ae_added = 0, ae_valid = False\<rparr>"

definition sr_arpcache_init :: "sr_arpcache \<Rightarrow> sr_arpcache" where
  "sr_arpcache_init c = c\<lparr>entries := replicate SR_ARPCACHE_SZ zero_entry, requests := []\<rparr>"

section \<open>Retransmission and failure of requests\<close>

text \<open>
  \<^verbatim>\<open>0xffffffffffff\<close> is stored as a \<^verbatim>\<open>uint64_t\<close> into a six-byte \<^verbatim>\<open>calloc\<close> block and six bytes are
  copied out of it; the two further bytes of the store are zero and lie in the allocator's padding.
\<close>

definition broadcast :: mac where
  "broadcast = (0xFF, 0xFF, 0xFF, 0xFF, 0xFF, 0xFF)"

definition mk_arp :: "u16 \<Rightarrow> mac \<Rightarrow> u32 \<Rightarrow> mac \<Rightarrow> u32 \<Rightarrow> mac \<Rightarrow> mac \<Rightarrow> bytes" where
  "mk_arp opc sha sip tha tip shost dhost =
     (let new_pck = replicate (sizeof_ethernet_hdr + sizeof_arp_hdr) 0;
          a_hdr = \<lparr>ar_hrd = htons 1, ar_pro = htons ethertype_ip, ar_hln = 6, ar_pln = 4,
                   ar_op = htons opc, ar_sha = sha, ar_sip = sip, ar_tha = tha, ar_tip = tip\<rparr>;
          p1 = st_bytes new_pck 14 (enc_arp a_hdr)
      in st_bytes p1 0 (enc_ether \<lparr>ether_dhost = dhost, ether_shost = shost,
                                   ether_type = htons ethertype_arp\<rparr>))"

text \<open>
  The retry branch: an ARP request built from the first queued packet (\<^verbatim>\<open>req->packets\<close>), sent on the
  interface of the route to that packet's destination.
\<close>

definition send_arp_request :: "sr_instance \<Rightarrow> req_addr \<Rightarrow> sr_arpreq \<Rightarrow> sr_instance res" where
  "send_arp_request sr a req =
     (case rq_packets req of
        [] \<Rightarrow> Inl NullDeref
      | p # _ \<Rightarrow>
          rbind (guard OutOfBounds (34 \<le> length (pk_buf p))) (\<lambda>_.
          let i_hdr0 = ld_struct 20 dec_ip (pk_buf p) 14;
              e_hdr0 = ld_struct 14 dec_ether (pk_buf p) 0;
              rtentry = sr_findLPMentry (routing_table sr) (ip_dst i_hdr0)
          in rbind (deref (sr_get_interface sr (pk_iface p))) (\<lambda>ifc.
             let new_pck = mk_arp arp_op_request (ether_shost e_hdr0) (if_ip ifc)
                             (0, 0, 0, 0, 0, 0) (ip_dst i_hdr0) (if_addr ifc) broadcast
             in rbind (deref rtentry) (\<lambda>rt.
                let sr1 = snd (sr_send_packet sr new_pck (rt_interface rt))
                in case sr_time sr1 of (now, sr2) \<Rightarrow>
                     Inr (sr2\<lparr>cache := (cache sr2)\<lparr>req_store := (req_store (cache sr2))(a :=
                       Some (req\<lparr>rq_sent := now, rq_times_sent := rq_times_sent req + 1\<rparr>))\<rparr>\<rparr>)))))"

text \<open>
  The end of every branch that has a frame for the gateway of a route: with a mapping in the cache
  the frame is addressed and sent, otherwise it is queued and the request is handled at once.
  \<open>handle\<close> is \<^verbatim>\<open>sr_arpcache_handle_arpreq\<close>.
\<close>

definition send_or_queue ::
  "(sr_instance \<Rightarrow> req_addr \<Rightarrow> sr_instance res) \<Rightarrow> sr_instance \<Rightarrow> bytes \<Rightarrow> sr_rt \<Rightarrow> sr_instance res" where
  "send_or_queue handle sr frame rt =
     (case sr_arpcache_lookup (cache sr) (rt_gw rt) of
        Some entry \<Rightarrow> Inr (snd (sr_send_packet sr (set_dhost frame (ae_mac entry)) (rt_interface rt)))
      | None \<Rightarrow>
          rbind (sr_arpcache_queuereq (cache sr) (rt_gw rt) frame (rt_interface rt)) (\<lambda>(b, c).
            handle (sr\<lparr>cache := c\<rparr>) b))"

text \<open>The ICMP host unreachable message for one waiting packet.\<close>

definition host_unreachable ::
  "(sr_instance \<Rightarrow> req_addr \<Rightarrow> sr_instance res) \<Rightarrow> sr_instance \<Rightarrow> u32 \<Rightarrow> sr_packet \<Rightarrow> sr_instance res" where
  "host_unreachable handle sr ip p =
     rbind (deref (sr_findLPMentry (routing_table sr) ip)) (\<lambda>rt0.
     rbind (deref (sr_get_interface sr (rt_interface rt0))) (\<lambda>ifc0.
     rbind (guard OutOfBounds (34 \<le> length (pk_buf p))) (\<lambda>_.
     let i_hdr0 = ld_struct 20 dec_ip (pk_buf p) 14
     in rbind (deref (sr_findLPMentry (routing_table sr) (ip_src i_hdr0))) (\<lambda>rt.
        rbind (deref (sr_get_interface sr (rt_interface rt))) (\<lambda>ifc.
        rbind (guard OutOfBounds (14 + ICMP_DATA_SIZE \<le> length (pk_buf p))) (\<lambda>_.
        let new_len = sizeof_ethernet_hdr + sizeof_ip_hdr + sizeof_icmp_t3_hdr + ICMP_DATA_SIZE
        in send_or_queue handle sr
             (mk_icmp_t3 new_len (if_ip ifc0) i_hdr0 3 1 (bslice (pk_buf p) 14 ICMP_DATA_SIZE)
                (if_addr ifc)) rt))))))"

text \<open>
  The loop over the waiting packets: \<^verbatim>\<open>walk->next\<close> is read after the body, when a nested call may
  have freed the request and with it its packets.
\<close>

fun unreach_loop ::
  "(sr_instance \<Rightarrow> req_addr \<Rightarrow> sr_instance res) \<Rightarrow> sr_instance \<Rightarrow> req_addr \<Rightarrow> u32 \<Rightarrow> sr_packet list \<Rightarrow>
   sr_instance res" where
  "unreach_loop handle sr a ip [] = Inr sr"
| "unreach_loop handle sr a ip (p # ps) =
     rbind (host_unreachable handle sr ip p) (\<lambda>sr1.
     rbind (get_req (cache sr1) a) (\<lambda>_. unreach_loop handle sr1 a ip ps))"

primrec sr_arpcache_handle_arpreq :: "nat \<Rightarrow> sr_instance \<Rightarrow> req_addr \<Rightarrow> sr_instance res" where
  "sr_arpcache_handle_arpreq 0 sr a = Inl OutOfFuel"
| "sr_arpcache_handle_arpreq (Suc n) sr a =
     (case sr_time sr of (curtime, sr1) \<Rightarrow>
        rbind (get_req (cache sr1) a) (\<lambda>req.
        if curtime - rq_sent req > 1 then
          if rq_times_sent req \<ge> 5 then
            rbind (unreach_loop (sr_arpcache_handle_arpreq n) sr1 a (rq_ip req) (rq_packets req))
              (\<lambda>sr2. rbind (sr_arpreq_destroy (cache sr2) a) (\<lambda>c. Inr (sr2\<lparr>cache := c\<rparr>)))
          else send_arp_request sr1 a req
        else Inr sr1))"

text \<open>\<^verbatim>\<open>req->next\<close> of a request in the queue.\<close>

fun next_of :: "req_addr list \<Rightarrow> req_addr \<Rightarrow> req_addr option" where
  "next_of [] a = None"
| "next_of (x # xs) a = (if x = a then (case xs of [] \<Rightarrow> None | y # _ \<Rightarrow> Some y) else next_of xs a)"

fun sweep_loop :: "nat \<Rightarrow> nat \<Rightarrow> sr_instance \<Rightarrow> req_addr option \<Rightarrow> sr_instance res" where
  "sweep_loop n m sr None = Inr sr"
| "sweep_loop n 0 sr (Some a) = Inl OutOfFuel"
| "sweep_loop n (Suc m) sr (Some a) =
     rbind (get_req (cache sr) a) (\<lambda>_.
       let nxt = next_of (requests (cache sr)) a
       in rbind (sr_arpcache_handle_arpreq n sr a) (\<lambda>sr1. sweep_loop n m sr1 nxt))"

definition sr_arpcache_sweepreqs :: "nat \<Rightarrow> sr_instance \<Rightarrow> sr_instance res" where
  "sr_arpcache_sweepreqs n sr =
     sweep_loop n (length (requests (cache sr))) sr
       (case requests (cache sr) of [] \<Rightarrow> None | a # _ \<Rightarrow> Some a)"

text \<open>One round of the thread \<^verbatim>\<open>sr_arpcache_timeout\<close>, which holds the cache lock throughout.\<close>

definition expire_entry :: "int \<Rightarrow> sr_arpentry \<Rightarrow> sr_arpentry" where
  "expire_entry curtime e =
     (if ae_valid e \<and> curtime - ae_added e > SR_ARPCACHE_TO then e\<lparr>ae_valid := False\<rparr> else e)"

definition sr_arpcache_timeout :: "nat \<Rightarrow> sr_instance \<Rightarrow> sr_instance res" where
  "sr_arpcache_timeout n sr =
     (case sr_time sr of (curtime, sr1) \<Rightarrow>
        sr_arpcache_sweepreqs n (sr1\<lparr>cache := (cache sr1)\<lparr>entries :=
          map (expire_entry curtime) (entries (cache sr1))\<rparr>\<rparr>))"

end
