(* ===== verification/Libc.thy ===== *)
theory Libc
  imports Prelude
begin

text \<open>
  The C library functions whose results the sources branch on, as the library documents them:
  character classes, \<^verbatim>\<open>fgets\<close>, the \<^verbatim>\<open>%s\<close> conversion of \<^verbatim>\<open>sscanf\<close>, and \<^verbatim>\<open>inet_aton\<close> with its
  one- to four-part decimal, octal and hexadecimal forms. Strings are character lists without NUL.
\<close>

section \<open>Characters\<close>

definition c_isspace :: "char \<Rightarrow> bool" where
  "c_isspace c \<longleftrightarrow> c \<in> {CHR '' '', CHR 0x09, CHR 0x0A, CHR 0x0B, CHR 0x0C, CHR 0x0D}"

definition c_isdigit :: "char \<Rightarrow> bool" where
  "c_isdigit c \<longleftrightarrow> 48 \<le> (of_char c :: int) \<and> (of_char c :: int) \<le> 57"

definition digit_value :: "char \<Rightarrow> int option" where
  "digit_value c = (let n = of_char c :: int in
     if 48 \<le> n \<and> n \<le> 57 then Some (n - 48)
     else if 97 \<le> n \<and> n \<le> 102 then Some (n - 87)
     else if 65 \<le> n \<and> n \<le> 70 then Some (n - 55)
     else None)"

lemma unat_of_char: "unat (of_char c :: u8) = of_char c"
proof -
  have "unat (of_nat (of_char c) :: u8) = of_char c"
    by (simp only: unsigned_of_nat take_bit_eq_mod) (simp add: mod_less)
  then show ?thesis by (simp only: of_nat_of_char)
qed

lemma of_char_eq_0_iff: "(of_char c :: u8) = 0 \<longleftrightarrow> c = CHR 0x00"
proof
  assume "(of_char c :: u8) = 0"
  then have "(of_char c :: nat) = of_char (CHR 0x00)" using unat_of_char [of c] by simp
  then show "c = CHR 0x00" by (rule of_char_eqI)
qed simp

section \<open>Strings in memory\<close>

text \<open>The C string at the start of some bytes.\<close>

definition c_string :: "bytes \<Rightarrow> string" where
  "c_string b = string_of_bytes (takeWhile (\<lambda>x. x \<noteq> 0) b)"

definition to_bytes :: "string \<Rightarrow> bytes" where
  "to_bytes s = map of_char s"

text \<open>An array of characters as the string functions see it.\<close>

definition to_nul :: "string \<Rightarrow> string" where
  "to_nul buf = takeWhile (\<lambda>c. c \<noteq> CHR 0x00) buf"

lemma to_nul_id: "CHR 0x00 \<notin> set s \<Longrightarrow> to_nul s = s"
  by (induction s) (auto simp: to_nul_def)

lemma string_of_of_char: "string_of_bytes (map of_char s) = s"
  by (simp add: string_of_bytes_def unat_of_char o_def)

lemma to_bytes_append [simp]: "to_bytes (a @ b) = to_bytes a @ to_bytes b"
  by (simp add: to_bytes_def)

lemma length_to_bytes [simp]: "length (to_bytes s) = length s"
  by (simp add: to_bytes_def)

lemma of_char_u8_inject: "(of_char c :: u8) = of_char d \<longleftrightarrow> c = d"
proof
  assume "(of_char c :: u8) = of_char d"
  then have "(of_char c :: nat) = of_char d" by (metis unat_of_char)
  then show "c = d" by (rule of_char_eqI)
qed simp

lemma strncpy_id: "CHR 0x00 \<notin> set s \<Longrightarrow> length s \<le> k \<Longrightarrow> strncpy k s = s"
  unfolding strncpy_def by (subst takeWhile_eq_all_conv [THEN iffD2]) auto

lemma c_string_to_bytes: "CHR 0x00 \<notin> set t \<Longrightarrow> c_string (to_bytes t) = t"
  by (induction t) (auto simp: c_string_def to_bytes_def string_of_bytes_def of_char_eq_0_iff unat_of_char)

section \<open>Reading lines and words\<close>

text \<open>\<^verbatim>\<open>fgets(line, n + 1, fp)\<close>: at most \<open>n\<close> characters, up to and including a newline.\<close>

fun fgets :: "nat \<Rightarrow> string \<Rightarrow> string \<times> string" where
  "fgets 0 s = ([], s)"
| "fgets (Suc n) [] = ([], [])"
| "fgets (Suc n) (c # cs) =
     (if c = CHR 0x0A then ([c], cs)
      else case fgets n cs of (l, r) \<Rightarrow> (c # l, r))"

fun scan_words :: "nat \<Rightarrow> string \<Rightarrow> string list" where
  "scan_words 0 s = []"
| "scan_words (Suc k) s =
     (let s' = dropWhile c_isspace s; w = takeWhile (\<lambda>c. \<not> c_isspace c) s'
      in if w = [] then [] else w # scan_words k (dropWhile (\<lambda>c. \<not> c_isspace c) s'))"

lemma fgets_append: "fgets n s = (l, r) \<Longrightarrow> s = l @ r"
  by (induction n s arbitrary: l r rule: fgets.induct) (auto split: if_splits prod.splits)

lemma fgets_shorter: "(l, r) = fgets n s \<Longrightarrow> l \<noteq> [] \<Longrightarrow> length r < length s"
  using fgets_append [of n s l r] by auto

lemma fgets_progress: "s \<noteq> [] \<Longrightarrow> length (snd (fgets (Suc n) s)) < length s"
proof (cases s)
  case (Cons c cs)
  then show ?thesis
    by (auto split: prod.splits dest: fgets_append)
qed simp

section \<open>inet_aton\<close>

fun scan_number :: "int \<Rightarrow> int \<Rightarrow> string \<Rightarrow> int \<times> string" where
  "scan_number base acc [] = (acc, [])"
| "scan_number base acc (c # cs) =
     (case digit_value c of
        Some d \<Rightarrow> (if d < base then scan_number base (acc * base + d) cs else (acc, c # cs))
      | None \<Rightarrow> (acc, c # cs))"

text \<open>\<^verbatim>\<open>strtoul(s, &end, 0)\<close> on a string that starts with a digit.\<close>

definition strtoul0 :: "string \<Rightarrow> int \<times> string" where
  "strtoul0 s =
     (if s = [] \<or> hd s \<noteq> CHR ''0'' then scan_number 10 0 s
      else if length s \<ge> 3 \<and> (s ! 1 = CHR ''x'' \<or> s ! 1 = CHR ''X'') \<and> digit_value (s ! 2) \<noteq> None
      then scan_number 16 0 (drop 2 s)
      else scan_number 8 0 s)"

definition aton_max :: "nat \<Rightarrow> int" where
  "aton_max parts = 2 ^ (32 - 8 * parts) - 1"

fun aton_parts :: "nat \<Rightarrow> int list \<Rightarrow> string \<Rightarrow> (int list \<times> int) option" where
  "aton_parts k parts s =
     (if s = [] \<or> \<not> c_isdigit (hd s) then None
      else case strtoul0 s of (v, rest) \<Rightarrow>
        if v > 0xffffffff then None
        else if rest \<noteq> [] \<and> hd rest = CHR ''.'' then
          (case k of 0 \<Rightarrow> None
           | Suc k' \<Rightarrow> if v > 0xff then None else aton_parts k' (parts @ [v]) (tl rest))
        else if rest \<noteq> [] \<and> \<not> c_isspace (hd rest) then None
        else if v > aton_max (length parts) then None
        else Some (parts, v))"

declare aton_parts.simps [simp del]

definition aton_value :: "int list \<Rightarrow> int \<Rightarrow> int" where
  "aton_value parts v =
     foldr (\<lambda>(i, p) acc. p * 2 ^ (24 - 8 * i) + acc) (enumerate 0 parts) v"

definition inet_aton :: "string \<Rightarrow> u32 option" where
  "inet_aton s =
     map_option (\<lambda>(parts, v). htonl (of_int (aton_value parts v))) (aton_parts 3 [] s)"

definition inet_addr :: "string \<Rightarrow> u32" where
  "inet_addr s = (case inet_aton s of None \<Rightarrow> 0xFFFFFFFF | Some a \<Rightarrow> a)"

lemma inet_aton_dotted_quad: "inet_aton ''10.0.2.0'' = Some 0x0002000A"
  by code_simp

lemma inet_aton_forms:
  "inet_aton ''0x7f.1'' = Some 0x0100007F" "inet_aton ''256.0.0.1'' = None" "inet_aton ''eth0'' = None"
  by code_simp+

section \<open>Numbers\<close>

text \<open>The conversion \<^verbatim>\<open>%lu\<close>, and \<^verbatim>\<open>%d\<close> of \<^verbatim>\<open>sscanf\<close>, which stores the value in 32 bits.
  A number that does not fit the type has no defined result in C; here it wraps around.\<close>

fun dec :: "nat \<Rightarrow> string" where
  "dec n = (if n < 10 then [char_of (48 + n)] else dec (n div 10) @ [char_of (48 + n mod 10)])"

declare dec.simps [simp del]

definition scan_d :: "string \<Rightarrow> int option" where
  "scan_d s =
     (let t = dropWhile c_isspace s;
          neg = (t \<noteq> [] \<and> hd t = CHR ''-'');
          u = (if t \<noteq> [] \<and> (hd t = CHR ''-'' \<or> hd t = CHR ''+'') then tl t else t);
          v = fst (scan_number 10 0 u)
      in if u = [] \<or> \<not> c_isdigit (hd u) then None
         else Some (signed_take_bit 31 (if neg then - v else v)))"

lemma dec_digits: "list_all c_isdigit (dec n)"
proof (induction n rule: dec.induct)
  case (1 n)
  have "c_isdigit (char_of (48 + k))" if "k < 10" for k :: nat
  proof -
    have "(of_char (char_of (48 + k) :: char) :: nat) = 48 + k" using that by simp
    then have "(of_char (char_of (48 + k) :: char) :: int) = int (48 + k)" by (metis of_nat_of_char)
    then show ?thesis using that by (simp add: c_isdigit_def)
  qed
  then show ?case using 1 by (subst dec.simps) simp
qed

lemma dec_not_empty: "dec n \<noteq> []"
  by (subst dec.simps) simp

lemma scan_number_digit:
  assumes "k < 10"
  shows "scan_number 10 a (char_of (48 + k) # r) = scan_number 10 (a * 10 + int k) r"
proof -
  have "(of_char (char_of (48 + k) :: char) :: nat) = 48 + k" using assms by simp
  then have "(of_char (char_of (48 + k) :: char) :: int) = int (48 + k)" by (metis of_nat_of_char)
  then have "digit_value (char_of (48 + k)) = Some (int k)" using assms by (simp add: digit_value_def Let_def)
  then show ?thesis using assms by simp
qed

lemma scan_number_dec: "scan_number 10 0 (dec n @ r) = scan_number 10 (int n) r"
proof (induction n arbitrary: r rule: dec.induct)
  case (1 n)
  show ?case
  proof (cases "n < 10")
    case True
    then show ?thesis by (subst dec.simps) (simp del: scan_number.simps add: scan_number_digit)
  next
    case False
    have "scan_number 10 0 (dec n @ r) = scan_number 10 (int (n div 10)) (char_of (48 + n mod 10) # r)"
      using 1 [OF False, of "char_of (48 + n mod 10) # r"] False by (subst dec.simps) simp
    also have "\<dots> = scan_number 10 (int n) r"
      by (subst scan_number_digit) (simp_all add: zdiv_int zmod_int)
    finally show ?thesis .
  qed
qed

lemma dec_length: "n < 10 ^ Suc k \<Longrightarrow> length (dec n) \<le> Suc k"
proof (induction k arbitrary: n)
  case 0
  then show ?case by (subst dec.simps) simp
next
  case (Suc k)
  then have "n div 10 < 10 ^ Suc k" by (simp add: div_less_iff_less_mult mult.commute)
  then show ?case using Suc.IH [of "n div 10"] by (subst dec.simps) simp
qed

lemma digit_facts: "c_isdigit c \<Longrightarrow> \<not> c_isspace c \<and> c \<noteq> CHR ''-'' \<and> c \<noteq> CHR ''+'' \<and> c \<noteq> CHR '','' \<and> c \<noteq> CHR 0x0D \<and> c \<noteq> CHR 0x00"
  by (auto simp: c_isdigit_def c_isspace_def)

lemma scan_d_dec:
  assumes "n < 2 ^ 31"
  shows "scan_d (dec n) = Some (int n)"
proof -
  obtain c r where d: "dec n = c # r" using dec_not_empty by (cases "dec n") auto
  have c: "c_isdigit c" using dec_digits [of n] d by simp
  have "int n < 2 ^ 31" using assms by simp
  then have "signed_take_bit 31 (int n) = int n" by (intro signed_take_bit_int_eq_self) auto
  then show ?thesis
    using scan_number_dec [of n "[]"] c digit_facts [OF c] d by (simp add: scan_d_def Let_def)
qed

text \<open>\<^verbatim>\<open>atoi\<close>, with 0 for a string that is not a number, and \<^verbatim>\<open>%u\<close> of \<^verbatim>\<open>sscanf\<close>, which also takes a sign.\<close>

definition atoi :: "string \<Rightarrow> int" where
  "atoi s = (case scan_d s of None \<Rightarrow> 0 | Some n \<Rightarrow> n)"

definition scan_u :: "string \<Rightarrow> u32 option" where
  "scan_u s = map_option word_of_int (scan_d s)"

lemma scan_u_dec: "n < 2 ^ 31 \<Longrightarrow> scan_u (dec n) = Some (of_nat n)"
  by (simp add: scan_u_def scan_d_dec)

section \<open>Command lines\<close>

text \<open>
  \<^verbatim>\<open>getopt\<close> called until it returns \<^verbatim>\<open>EOF\<close>: the options with their arguments, and the other arguments, which end up
  behind them in \<^verbatim>\<open>argv\<close>. An unknown option or a missing argument gives \<^verbatim>\<open>?\<close>. \<open>opt_arg\<close> says whether an option of the
  option string takes an argument.
\<close>

fun opt_arg :: "string \<Rightarrow> char \<Rightarrow> bool option" where
  "opt_arg [] c = None"
| "opt_arg (p # ps) c =
     (if p = c \<and> c \<noteq> CHR '':'' then Some (ps \<noteq> [] \<and> hd ps = CHR '':'') else opt_arg ps c)"

fun short_opts :: "string \<Rightarrow> string \<Rightarrow> string list \<Rightarrow> (char \<times> string) list \<times> string list" where
  "short_opts optstring [] args = ([], args)"
| "short_opts optstring (c # cs) args =
     (if opt_arg optstring c = Some True then
        (if cs \<noteq> [] then ([(c, cs)], args)
         else case args of [] \<Rightarrow> ([(CHR ''?'', [])], []) | a # as \<Rightarrow> ([(c, a)], as))
      else case short_opts optstring cs args of (os, rest) \<Rightarrow>
        ((if opt_arg optstring c = None then CHR ''?'' else c, []) # os, rest))"

lemma short_opts_shorter: "(os, rest) = short_opts optstring cs args \<Longrightarrow> length rest \<le> length args"
  by (induction optstring cs args arbitrary: os rest rule: short_opts.induct) (auto split: prod.splits list.splits if_splits)

function getopt :: "string \<Rightarrow> string list \<Rightarrow> (char \<times> string) list \<times> string list" where
  "getopt optstring [] = ([], [])"
| "getopt optstring (a # args) =
     (if a = ''--'' then ([], args)
      else if length a > 1 \<and> hd a = CHR ''-'' then
        (case short_opts optstring (tl a) args of (os, rest) \<Rightarrow> map_prod (append os) id (getopt optstring rest))
      else map_prod id (Cons a) (getopt optstring args))"
  by pat_completeness auto
termination
  by (relation "measure (\<lambda>(_, args). length args)") (auto dest!: short_opts_shorter)

end
