(* ===== verification/Sr_Router.thy ===== *)
theory Sr_Router
  imports Sr_Arpcache Libc
begin

text \<open>
  \<^verbatim>\<open>sr_router.c\<close>: the packet handler. The handler returns the new state of the router, or the fault
  its code runs into; every early \<^verbatim>\<open>return\<close> is a branch that leaves the state as it is. The frame is
  the handler's own copy: the caller frees the buffer after the call, so the changes made in place
  are seen only by the calls the handler itself makes. The first argument bounds the depth of
  the recursion of \<^verbatim>\<open>sr_arpcache_handle_arpreq\<close>.
\<close>

section \<open>Initialisation and the source address filter\<close>

text \<open>The state after \<^verbatim>\<open>sr_init\<close>; the timeout thread it starts is the step \<open>sr_arpcache_timeout\<close>.\<close>

definition sr_init :: "sr_instance \<Rightarrow> sr_instance" where
  "sr_init sr = sr\<lparr>cache := sr_arpcache_init (cache sr)\<rparr>"

definition ip_black_list :: "sr_ip_hdr \<Rightarrow> bool" where
  "ip_black_list iph =
     (let black_addr = inet_addr ''10.0.2.0''; masking = inet_addr ''255.255.255.0''
      in black_addr = (masking AND ip_src iph))"

section \<open>Frames destined to the router\<close>

definition handle_echo_request :: "nat \<Rightarrow> sr_instance \<Rightarrow> bytes \<Rightarrow> sr_instance res" where
  "handle_echo_request n sr packet =
     (let i_hdr0 = ld_struct 20 dec_ip packet 14;
          ic_hdr0 = ld_struct 4 dec_icmp packet 34;
          checksum = icmp_sum ic_hdr0;
          p0 = st_bytes packet 34 (enc_icmp (ic_hdr0\<lparr>icmp_sum := 0\<rparr>))
      in if checksum \<noteq> cksum (bslice p0 34 (length packet - 34)) then Inr sr
         else
           let p1 = st_bytes p0 34 (enc_icmp (ic_hdr0\<lparr>icmp_sum := checksum\<rparr>));
               i_hdr1 = i_hdr0\<lparr>ip_ttl := INIT_TTL, ip_src := ip_dst i_hdr0, ip_dst := ip_src i_hdr0\<rparr>;
               p2 = set_ip_cksum (st_bytes p1 14 (enc_ip i_hdr1));
               p3 = st_bytes p2 34 (enc_icmp (ic_hdr0\<lparr>icmp_type := 0, icmp_sum := 0\<rparr>));
               p4 = st_bytes p3 34 (enc_icmp (ic_hdr0\<lparr>icmp_type := 0,
                      icmp_sum := cksum (bslice p3 34 (length packet - 34))\<rparr>))
           in case sr_findLPMentry (routing_table sr) (ip_dst i_hdr1) of
                None \<Rightarrow> Inr sr
              | Some rtentry \<Rightarrow>
                  rbind (deref (sr_get_interface sr (rt_interface rtentry))) (\<lambda>ifc.
                    send_or_queue (sr_arpcache_handle_arpreq n) sr (set_shost p4 (if_addr ifc)) rtentry))"

text \<open>
  The ICMP error to the source of a frame; \<open>new_len\<close>, type and code are those of the branch. The
  route to the source is dereferenced before it is tested against \<^verbatim>\<open>NULL\<close>.
\<close>

definition send_icmp_error ::
  "nat \<Rightarrow> sr_instance \<Rightarrow> bytes \<Rightarrow> nat \<Rightarrow> u8 \<Rightarrow> u8 \<Rightarrow> sr_instance res" where
  "send_icmp_error n sr packet new_len typ code =
     (let i_hdr0 = ld_struct 20 dec_ip packet 14
      in rbind (deref (sr_findLPMentry (routing_table sr) (ip_src i_hdr0))) (\<lambda>rtentry.
         rbind (deref (sr_get_interface sr (rt_interface rtentry))) (\<lambda>ifc.
           send_or_queue (sr_arpcache_handle_arpreq n) sr
             (mk_icmp_t3 new_len (if_ip ifc) i_hdr0 typ code (bslice packet 14 ICMP_DATA_SIZE)
                (if_addr ifc)) rtentry)))"

definition port_unreachable :: "nat \<Rightarrow> sr_instance \<Rightarrow> bytes \<Rightarrow> sr_instance res" where
  "port_unreachable n sr packet =
     (let len_r = length packet - sizeof_ethernet_hdr - sizeof_ip_hdr
      in if len_r + sizeof_ip_hdr < ICMP_DATA_SIZE then Inr sr
         else send_icmp_error n sr packet
                (sizeof_ethernet_hdr + sizeof_ip_hdr + sizeof_icmp_t3_hdr + ICMP_DATA_SIZE) 3 3)"

definition handle_for_me :: "nat \<Rightarrow> sr_instance \<Rightarrow> bytes \<Rightarrow> sr_instance res" where
  "handle_for_me n sr packet =
     (let i_hdr0 = ld_struct 20 dec_ip packet 14;
          len_r = length packet - sizeof_ethernet_hdr - sizeof_ip_hdr
      in if ip_p i_hdr0 = ip_protocol_icmp then
           if len_r < sizeof_icmp_hdr then Inr sr
           else if icmp_type (ld_struct 4 dec_icmp packet 34) = 8 then handle_echo_request n sr packet
           else Inr sr
         else if ip_p i_hdr0 = ip_protocol_tcp \<or> ip_p i_hdr0 = ip_protocol_udp
         then port_unreachable n sr packet
         else Inr sr)"

section \<open>Forwarding\<close>

definition time_exceeded :: "nat \<Rightarrow> sr_instance \<Rightarrow> bytes \<Rightarrow> sr_instance res" where
  "time_exceeded n sr packet =
     (let len_r = length packet - sizeof_ethernet_hdr - sizeof_ip_hdr
      in if len_r + sizeof_ip_hdr < ICMP_DATA_SIZE then Inr sr
         else send_icmp_error n sr packet
                (sizeof_ethernet_hdr + sizeof_ip_hdr + sizeof_icmp_t3_hdr + ICMP_DATA_SIZE) 0x0B 0)"

definition dec_ttl :: "bytes \<Rightarrow> bytes" where
  "dec_ttl packet =
     (let h = ld_struct 20 dec_ip packet 14
      in set_ip_cksum (st_bytes packet 14 (enc_ip (h\<lparr>ip_ttl := ip_ttl h - 1\<rparr>))))"

definition forward_packet :: "nat \<Rightarrow> sr_instance \<Rightarrow> bytes \<Rightarrow> sr_rt \<Rightarrow> sr_instance res" where
  "forward_packet n sr packet rtentry =
     rbind (deref (sr_get_interface sr (rt_interface rtentry))) (\<lambda>ifc.
       let p1 = set_shost packet (if_addr ifc)
       in case sr_arpcache_lookup (cache sr) (rt_gw rtentry) of
            Some arpentry \<Rightarrow>
              Inr (snd (sr_send_packet sr (dec_ttl (set_dhost p1 (ae_mac arpentry)))
                     (rt_interface rtentry)))
          | None \<Rightarrow>
              rbind (sr_arpcache_queuereq (cache sr) (rt_gw rtentry) p1 (rt_interface rtentry))
                (\<lambda>(b, c). sr_arpcache_handle_arpreq n (sr\<lparr>cache := c\<rparr>) b))"

definition net_unreachable :: "nat \<Rightarrow> sr_instance \<Rightarrow> bytes \<Rightarrow> sr_instance res" where
  "net_unreachable n sr packet =
     (let len_r = length packet - sizeof_ethernet_hdr - sizeof_ip_hdr
      in if len_r + sizeof_ip_hdr < ICMP_DATA_SIZE then Inr sr
         else
           let ic_hdr0 = ld_struct 4 dec_icmp packet 34;
               checksum = icmp_sum ic_hdr0;
               p0 = st_bytes packet 34 (enc_icmp (ic_hdr0\<lparr>icmp_sum := 0\<rparr>))
           in if checksum \<noteq> cksum (bslice p0 34 (length packet - 34)) then Inr sr
              else
                let p1 = st_bytes p0 34 (enc_icmp (ic_hdr0\<lparr>icmp_sum := checksum\<rparr>))
                in send_icmp_error n sr p1
                     (sizeof_ethernet_hdr + sizeof_ip_hdr + sizeof_icmp_t3_hdr) 3 0)"

definition handle_forward :: "nat \<Rightarrow> sr_instance \<Rightarrow> bytes \<Rightarrow> sr_instance res" where
  "handle_forward n sr packet =
     (let i_hdr0 = ld_struct 20 dec_ip packet 14
      in case sr_findLPMentry (routing_table sr) (ip_dst i_hdr0) of
           Some rtentry \<Rightarrow>
             if ip_ttl i_hdr0 = 1 then time_exceeded n sr packet
             else forward_packet n sr packet rtentry
         | None \<Rightarrow> net_unreachable n sr packet)"

definition handle_ip :: "nat \<Rightarrow> sr_instance \<Rightarrow> bytes \<Rightarrow> sr_instance res" where
  "handle_ip n sr packet =
     (if length packet - sizeof_ethernet_hdr < sizeof_ip_hdr then Inr sr
      else
        let i_hdr0 = ld_struct 20 dec_ip packet 14;
            checksum = ip_sum i_hdr0;
            p0 = st_bytes packet 14 (enc_ip (i_hdr0\<lparr>ip_sum := 0\<rparr>))
        in if ip_v i_hdr0 \<noteq> 4 then Inr sr
           else if checksum \<noteq> cksum (bslice p0 14 sizeof_ip_hdr) then Inr sr
           else
             let p1 = st_bytes p0 14 (enc_ip (i_hdr0\<lparr>ip_sum := checksum\<rparr>));
                 ifc = find (\<lambda>i. ip_dst i_hdr0 = if_ip i) (if_list sr)
             in if ip_black_list i_hdr0 then Inr sr
                else case ifc of
                       Some _ \<Rightarrow> handle_for_me n sr p1
                     | None \<Rightarrow> handle_forward n sr p1)"

section \<open>ARP frames\<close>

definition arp_reply_to :: "sr_instance \<Rightarrow> sr_arp_hdr \<Rightarrow> sr_rt \<Rightarrow> sr_if \<Rightarrow> sr_instance" where
  "arp_reply_to sr a_hdr0 rtentry ifc =
     snd (sr_send_packet sr
       (mk_arp arp_op_reply (if_addr ifc) (ar_tip a_hdr0) (ar_sha a_hdr0) (ar_sip a_hdr0)
          (if_addr ifc) (ar_sha a_hdr0)) (rt_interface rtentry))"

text \<open>The loop over the packets that waited for the mapping.\<close>

fun send_waiting :: "sr_instance \<Rightarrow> mac \<Rightarrow> sr_packet list \<Rightarrow> sr_instance res" where
  "send_waiting sr m [] = Inr sr"
| "send_waiting sr m (p # ps) =
     rbind (guard OutOfBounds (34 \<le> length (pk_buf p))) (\<lambda>_.
     let b1 = set_dhost (pk_buf p) m;
         i_hdr = ld_struct 20 dec_ip b1 14
     in rbind (deref (sr_findLPMentry (routing_table sr) (ip_dst i_hdr))) (\<lambda>rtentry.
        let b2 = (if ip_ttl i_hdr \<noteq> INIT_TTL then dec_ttl b1 else b1)
        in send_waiting (snd (sr_send_packet sr b2 (pk_iface p))) m ps))"

definition handle_arp_reply :: "sr_instance \<Rightarrow> sr_arp_hdr \<Rightarrow> sr_instance res" where
  "handle_arp_reply sr a_hdr0 =
     rbind (sr_arpcache_insert sr (ar_sha a_hdr0) (ar_sip a_hdr0)) (\<lambda>(arpreq, sr1).
       case arpreq of
         None \<Rightarrow> Inr sr1
       | Some a \<Rightarrow>
           rbind (get_req (cache sr1) a) (\<lambda>req.
           rbind (send_waiting sr1 (ar_sha a_hdr0) (rq_packets req)) (\<lambda>sr2.
           rbind (sr_arpreq_destroy (cache sr2) a) (\<lambda>c. Inr (sr2\<lparr>cache := c\<rparr>)))))"

definition handle_arp :: "sr_instance \<Rightarrow> bytes \<Rightarrow> sr_instance res" where
  "handle_arp sr packet =
     (if length packet - sizeof_ethernet_hdr < sizeof_arp_hdr then Inr sr
      else
        let a_hdr0 = ld_struct 28 dec_arp packet 14
        in rbind (deref (sr_findLPMentry (routing_table sr) (ar_tip a_hdr0))) (\<lambda>rtentry.
           rbind (deref (sr_get_interface sr (rt_interface rtentry))) (\<lambda>ifc.
           if ar_tip a_hdr0 = if_ip ifc then
             if ar_op a_hdr0 = htons arp_op_request then Inr (arp_reply_to sr a_hdr0 rtentry ifc)
             else if ar_op a_hdr0 = htons arp_op_reply then handle_arp_reply sr a_hdr0
             else Inr sr
           else Inr sr)))"

definition sr_handlepacket :: "nat \<Rightarrow> sr_instance \<Rightarrow> bytes \<Rightarrow> string \<Rightarrow> sr_instance res" where
  "sr_handlepacket n sr packet iface =
     (if length packet < sizeof_ethernet_hdr then Inr sr
      else
        let e_hdr0 = ld_struct 14 dec_ether packet 0
        in if ether_type e_hdr0 = htons ethertype_ip then handle_ip n sr packet
           else if ether_type e_hdr0 = htons ethertype_arp then handle_arp sr packet
           else Inr sr)"

end
