(* ===== verification/Sha1.thy ===== *)
theory Sha1
  imports Prelude
begin

text \<open>
  The Secure Hash Algorithm of \<^verbatim>\<open>sha1.c\<close>, with which the router answers the authentication request of
  the VNS server: the context of \<^verbatim>\<open>sha1.h\<close>, its operations, and their equivalence with FIPS 180-1.
  \<^verbatim>\<open>unsigned\<close> has 32 bits; a write outside of \<^verbatim>\<open>Message_Block\<close> is a fault.
\<close>

section \<open>The operations of sha1.c\<close>

record SHA1Context =
  Message_Digest :: "u32 list"
  Length_Low :: u32
  Length_High :: u32
  Message_Block :: bytes
  Message_Block_Index :: nat
  Computed :: bool
  Corrupted :: bool

definition SHA1CircularShift :: "nat \<Rightarrow> u32 \<Rightarrow> u32" where
  "SHA1CircularShift bits word = (push_bit bits word AND 0xFFFFFFFF) OR drop_bit (32 - bits) word"

definition SHA1Reset :: "SHA1Context \<Rightarrow> SHA1Context" where
  "SHA1Reset context = context\<lparr>Length_Low := 0, Length_High := 0, Message_Block_Index := 0,
     Message_Digest := [0x67452301, 0xEFCDAB89, 0x98BADCFE, 0x10325476, 0xC3D2E1F0],
     Computed := False, Corrupted := False\<rparr>"

text \<open>\<^verbatim>\<open>context->Message_Block[context->Message_Block_Index++] = b\<close>\<close>

definition put_byte :: "SHA1Context \<Rightarrow> u8 \<Rightarrow> SHA1Context res" where
  "put_byte context b =
     (if Message_Block_Index context < 64 then
        Inr (context\<lparr>Message_Block := (Message_Block context)[Message_Block_Index context := b],
          Message_Block_Index := Message_Block_Index context + 1\<rparr>)
      else Inl OutOfBounds)"

definition block_word :: "bytes \<Rightarrow> nat \<Rightarrow> u32" where
  "block_word block t = push_bit 24 (ucast (block ! (t * 4))) OR push_bit 16 (ucast (block ! (t * 4 + 1)))
     OR push_bit 8 (ucast (block ! (t * 4 + 2))) OR ucast (block ! (t * 4 + 3))"

text \<open>The two loops that fill the array \<^verbatim>\<open>W\<close>.\<close>

definition word_sequence :: "bytes \<Rightarrow> u32 list" where
  "word_sequence block =
     foldl (\<lambda>W t. W[t := SHA1CircularShift 1 (W ! (t - 3) XOR W ! (t - 8) XOR W ! (t - 14) XOR W ! (t - 16))])
       (foldl (\<lambda>W t. W[t := block_word block t]) (replicate 80 0) [0..<16]) [16..<80]"

type_synonym word_buffers = "u32 \<times> u32 \<times> u32 \<times> u32 \<times> u32"

text \<open>The body of the four round loops, for a logical function and a constant.\<close>

fun sha1_round :: "(u32 \<Rightarrow> u32 \<Rightarrow> u32 \<Rightarrow> u32) \<Rightarrow> u32 \<Rightarrow> u32 list \<Rightarrow> word_buffers \<Rightarrow> nat \<Rightarrow> word_buffers" where
  "sha1_round f k W (A, B, C, D, E) t =
     ((SHA1CircularShift 5 A + f B C D + E + W ! t + k) AND 0xFFFFFFFF, A, SHA1CircularShift 30 B, C, D)"

definition SHA1ProcessMessageBlock :: "SHA1Context \<Rightarrow> SHA1Context" where
  "SHA1ProcessMessageBlock context =
     (let W = word_sequence (Message_Block context);
          H = Message_Digest context;
          s0 = (H ! 0, H ! 1, H ! 2, H ! 3, H ! 4);
          s1 = foldl (sha1_round (\<lambda>B C D. (B AND C) OR (NOT B AND D)) 0x5A827999 W) s0 [0..<20];
          s2 = foldl (sha1_round (\<lambda>B C D. B XOR C XOR D) 0x6ED9EBA1 W) s1 [20..<40];
          s3 = foldl (sha1_round (\<lambda>B C D. (B AND C) OR (B AND D) OR (C AND D)) 0x8F1BBCDC W) s2 [40..<60]
      in case foldl (sha1_round (\<lambda>B C D. B XOR C XOR D) 0xCA62C1D6 W) s3 [60..<80] of
           (A, B, C, D, E) \<Rightarrow>
             context\<lparr>Message_Digest := [(H ! 0 + A) AND 0xFFFFFFFF, (H ! 1 + B) AND 0xFFFFFFFF,
                 (H ! 2 + C) AND 0xFFFFFFFF, (H ! 3 + D) AND 0xFFFFFFFF, (H ! 4 + E) AND 0xFFFFFFFF],
               Message_Block_Index := 0\<rparr>)"

definition add_length :: "SHA1Context \<Rightarrow> SHA1Context" where
  "add_length context =
     (let low = (Length_Low context + 8) AND 0xFFFFFFFF; context1 = context\<lparr>Length_Low := low\<rparr>
      in if low = 0 then
           (let high = (Length_High context1 + 1) AND 0xFFFFFFFF; context2 = context1\<lparr>Length_High := high\<rparr>
            in if high = 0 then context2\<lparr>Corrupted := True\<rparr> else context2)
         else context1)"

fun input_loop :: "SHA1Context \<Rightarrow> bytes \<Rightarrow> SHA1Context res" where
  "input_loop context [] = Inr context"
| "input_loop context (b # message_array) =
     (if Corrupted context then Inr context
      else rbind (put_byte context b) (\<lambda>context1.
        let context2 = add_length context1
        in input_loop (if Message_Block_Index context2 = 64 then SHA1ProcessMessageBlock context2 else context2)
             message_array))"

definition SHA1Input :: "SHA1Context \<Rightarrow> bytes \<Rightarrow> SHA1Context res" where
  "SHA1Input context message_array =
     (if message_array = [] then Inr context
      else if Computed context \<or> Corrupted context then Inr (context\<lparr>Corrupted := True\<rparr>)
      else input_loop context message_array)"

text \<open>\<^verbatim>\<open>while (context->Message_Block_Index < n)\<close> with a zero byte as its body\<close>

function pad_to :: "nat \<Rightarrow> SHA1Context \<Rightarrow> SHA1Context res" where
  "pad_to n context =
     (if Message_Block_Index context < n then
        case put_byte context 0 of Inl e \<Rightarrow> Inl e | Inr context1 \<Rightarrow> pad_to n context1
      else Inr context)"
  by pat_completeness auto
termination
  by (relation "measure (\<lambda>(n, context). n - Message_Block_Index context)")
    (auto simp: put_byte_def split: if_splits)

definition SHA1PadMessage :: "SHA1Context \<Rightarrow> SHA1Context res" where
  "SHA1PadMessage context =
     rbind (if Message_Block_Index context > 55 then
              rbind (put_byte context 0x80) (\<lambda>c1. rbind (pad_to 64 c1) (\<lambda>c2. pad_to 56 (SHA1ProcessMessageBlock c2)))
            else rbind (put_byte context 0x80) (pad_to 56))
       (\<lambda>c. let hi = Length_High c; lo = Length_Low c in
          Inr (SHA1ProcessMessageBlock (c\<lparr>Message_Block := (Message_Block c)[
            56 := ucast (drop_bit 24 hi), 57 := ucast (drop_bit 16 hi), 58 := ucast (drop_bit 8 hi), 59 := ucast hi,
            60 := ucast (drop_bit 24 lo), 61 := ucast (drop_bit 16 lo), 62 := ucast (drop_bit 8 lo), 63 := ucast lo]\<rparr>)))"

definition SHA1Result :: "SHA1Context \<Rightarrow> (int \<times> SHA1Context) res" where
  "SHA1Result context =
     (if Corrupted context then Inr (0, context)
      else if \<not> Computed context then
        rbind (SHA1PadMessage context) (\<lambda>c. Inr (1, c\<lparr>Computed := True\<rparr>))
      else Inr (1, context))"

section \<open>FIPS 180-1\<close>

definition sha_f :: "nat \<Rightarrow> u32 \<Rightarrow> u32 \<Rightarrow> u32 \<Rightarrow> u32" where
  "sha_f t B C D =
     (if t < 20 then (B AND C) OR (NOT B AND D)
      else if t < 40 then B XOR C XOR D
      else if t < 60 then (B AND C) OR (B AND D) OR (C AND D)
      else B XOR C XOR D)"

definition sha_k :: "nat \<Rightarrow> u32" where
  "sha_k t = (if t < 20 then 0x5A827999 else if t < 40 then 0x6ED9EBA1 else if t < 60 then 0x8F1BBCDC else 0xCA62C1D6)"

text \<open>The \<open>t\<close>-th word of the message schedule of a block.\<close>

function sha_w :: "bytes \<Rightarrow> nat \<Rightarrow> u32" where
  "sha_w M t = (if t < 16 then word_cat (word_cat (M ! (4 * t)) (M ! (4 * t + 1)) :: u16)
        (word_cat (M ! (4 * t + 2)) (M ! (4 * t + 3)) :: u16)
      else word_rotl 1 (sha_w M (t - 3) XOR sha_w M (t - 8) XOR sha_w M (t - 14) XOR sha_w M (t - 16)))"
  by pat_completeness auto
termination by (relation "measure snd") auto

fun sha_step :: "bytes \<Rightarrow> word_buffers \<Rightarrow> nat \<Rightarrow> word_buffers" where
  "sha_step M (A, B, C, D, E) t =
     (word_rotl 5 A + sha_f t B C D + E + sha_w M t + sha_k t, A, word_rotl 30 B, C, D)"

fun sha_compress :: "word_buffers \<Rightarrow> bytes \<Rightarrow> word_buffers" where
  "sha_compress (h0, h1, h2, h3, h4) M =
     (case foldl (sha_step M) (h0, h1, h2, h3, h4) [0..<80] of
        (A, B, C, D, E) \<Rightarrow> (h0 + A, h1 + B, h2 + C, h3 + D, h4 + E))"

function sha_blocks :: "word_buffers \<Rightarrow> bytes \<Rightarrow> word_buffers" where
  "sha_blocks H m = (if length m < 64 then H else sha_blocks (sha_compress H (take 64 m)) (drop 64 m))"
  by pat_completeness auto
termination by (relation "measure (\<lambda>(H, m). length m)") auto

definition be64 :: "nat \<Rightarrow> bytes" where
  "be64 n = map (\<lambda>i. of_nat (n div 256 ^ i)) [7, 6, 5, 4, 3, 2, 1, 0]"

definition sha_pad :: "bytes \<Rightarrow> bytes" where
  "sha_pad m = m @ [0x80] @ replicate ((119 - length m mod 64) mod 64) 0 @ be64 (8 * length m)"

definition sha1_spec :: "bytes \<Rightarrow> word_buffers" where
  "sha1_spec m = sha_blocks (0x67452301, 0xEFCDAB89, 0x98BADCFE, 0x10325476, 0xC3D2E1F0) (sha_pad m)"

declare sha_w.simps [simp del] sha_blocks.simps [simp del] pad_to.simps [simp del]

section \<open>The compression function\<close>

lemma and_ffffffff [simp]: "(x :: u32) AND 0xFFFFFFFF = x"
proof -
  have "(0xFFFFFFFF :: u32) = - 1" by simp
  then show ?thesis by (simp only: and.right_neutral)
qed

lemma SHA1CircularShift_eq:
  assumes "0 < n" "n < 32"
  shows "SHA1CircularShift n w = word_rotl n w"
proof (rule bit_word_eqI)
  fix i assume i: "i < LENGTH(32)"
  have "(i + (32 - n)) mod 32 = (if n \<le> i then i - n else 32 + i - n)"
    using assms i by (auto simp: mod_if)
  moreover have "bit w (32 - n + i) \<longleftrightarrow> i < n \<and> bit w (32 + i - n)"
    using assms by (cases "i < n") (auto dest: bit_imp_le_length)
  ultimately show "bit (SHA1CircularShift n w) i = bit (word_rotl n w) i"
    using assms i by (auto simp: SHA1CircularShift_def bit_push_bit_iff bit_or_iff bit_drop_bit_eq bit_word_rotl_iff)
qed

lemma block_word_eq: "block_word M t = word_cat (word_cat (M ! (4 * t)) (M ! (4 * t + 1)) :: u16)
        (word_cat (M ! (4 * t + 2)) (M ! (4 * t + 3)) :: u16)"
  by (rule bit_word_eqI) (auto simp: block_word_def bit_simps bit_word_cat_iff mult.commute dest: bit_imp_le_length)

lemma foldl_upt_Suc: "i \<le> n \<Longrightarrow> foldl f s [i..<Suc n] = f (foldl f s [i..<n]) n"
  by simp

lemma first_words:
  "n \<le> 16 \<Longrightarrow> foldl (\<lambda>W t. W[t := block_word M t]) (replicate 80 0) [0..<n] = map (sha_w M) [0..<n] @ replicate (80 - n) 0"
proof (induction n)
  case (Suc n)
  then have "replicate (80 - n) (0 :: u32) = 0 # replicate (80 - Suc n) 0"
    by (cases "80 - n") auto
  with Suc show ?case
    by (simp add: list_update_append sha_w.simps [of M n] block_word_eq)
qed simp

definition next_word :: "u32 list \<Rightarrow> nat \<Rightarrow> u32 list" where
  "next_word W t = W[t := SHA1CircularShift 1 (W ! (t - 3) XOR W ! (t - 8) XOR W ! (t - 14) XOR W ! (t - 16))]"

lemma more_words:
  "n \<le> 64 \<Longrightarrow> foldl next_word (map (sha_w M) [0..<16] @ replicate 64 0) [16..<16 + n]
   = map (sha_w M) [0..<16 + n] @ replicate (64 - n) 0"
proof (induction n)
  case (Suc n)
  let ?L = "map (sha_w M) [0..<16 + n] @ replicate (64 - n) 0"
  have r: "replicate (64 - n) (0 :: u32) = 0 # replicate (64 - Suc n) 0"
    using Suc.prems by (cases "64 - n") auto
  have nth: "?L ! i = sha_w M i" if "i < 16 + n" for i
    using that by (simp add: nth_append)
  have upd: "?L[16 + n := x] = map (sha_w M) [0..<16 + n] @ x # replicate (64 - Suc n) 0" for x
    by (simp add: r list_update_append)
  have w: "sha_w M (16 + n) = SHA1CircularShift 1 (?L ! (16 + n - 3) XOR ?L ! (16 + n - 8) XOR ?L ! (16 + n - 14) XOR ?L ! (16 + n - 16))"
    by (subst sha_w.simps) (simp add: nth SHA1CircularShift_eq)
  have "foldl next_word (map (sha_w M) [0..<16] @ replicate 64 0) [16..<16 + Suc n] = next_word ?L (16 + n)"
    unfolding add_Suc_right using foldl_upt_Suc [of 16 "16 + n" next_word] Suc by simp
  also have "\<dots> = map (sha_w M) [0..<16 + n] @ sha_w M (16 + n) # replicate (64 - Suc n) 0"
    unfolding next_word_def w [symmetric] by (rule upd)
  also have "\<dots> = map (sha_w M) ([0..<16 + n] @ [16 + n]) @ replicate (64 - Suc n) 0"
    by simp
  also have "[0..<16 + n] @ [16 + n] = [0..<16 + Suc n]"
    unfolding add_Suc_right by (rule upt_Suc_append [symmetric]) simp
  finally show ?case .
qed simp

lemma word_sequence_eq: "word_sequence M = map (sha_w M) [0..<80]"
proof -
  have n: "(80 :: nat) - 16 = 64" "(16 :: nat) + 64 = 80" "(64 :: nat) - 64 = 0" by simp_all
  show ?thesis
    using more_words [of 64 M, OF le_refl]
    unfolding word_sequence_def first_words [OF le_refl] n next_word_def [abs_def]
    by (simp only: replicate_0 append_Nil2)
qed

lemma rounds_eq:
  assumes "\<And>t B C D. t \<in> set ts \<Longrightarrow> f B C D = sha_f t B C D" "\<And>t. t \<in> set ts \<Longrightarrow> k = sha_k t"
    and "\<And>t. t \<in> set ts \<Longrightarrow> t < 80"
  shows "foldl (sha1_round f k (map (sha_w M) [0..<80])) s ts = foldl (sha_step M) s ts"
  using assms
proof (induction ts arbitrary: s)
  case (Cons t ts)
  have "sha1_round f k (map (sha_w M) [0..<80]) s t = sha_step M s t"
    using Cons.prems [of t] by (cases s) (simp add: SHA1CircularShift_eq)
  with Cons show ?case by simp
qed simp

definition digest_list :: "word_buffers \<Rightarrow> u32 list" where
  "digest_list H = (case H of (a, b, c, d, e) \<Rightarrow> [a, b, c, d, e])"

lemma process_block_eq:
  assumes "Message_Digest ctx = digest_list H"
  shows "SHA1ProcessMessageBlock ctx =
    ctx\<lparr>Message_Digest := digest_list (sha_compress H (Message_Block ctx)), Message_Block_Index := 0\<rparr>"
proof -
  obtain a b c d e where H: "H = (a, b, c, d, e)" by (cases H) auto
  have upt: "[0..<80] = [0..<20] @ [20..<40] @ [40..<60] @ [60..<80]"
    using upt_add_eq_append [of 0 20 60] upt_add_eq_append [of 20 40 40] upt_add_eq_append [of 40 60 20] by simp
  have "foldl (sha1_round (\<lambda>B C D. (B AND C) OR (NOT B AND D)) 0x5A827999 (map (sha_w M) [0..<80])) s [0..<20] = foldl (sha_step M) s [0..<20]"
    "foldl (sha1_round (\<lambda>B C D. B XOR C XOR D) 0x6ED9EBA1 (map (sha_w M) [0..<80])) s [20..<40] = foldl (sha_step M) s [20..<40]"
    "foldl (sha1_round (\<lambda>B C D. (B AND C) OR (B AND D) OR (C AND D)) 0x8F1BBCDC (map (sha_w M) [0..<80])) s [40..<60] = foldl (sha_step M) s [40..<60]"
    "foldl (sha1_round (\<lambda>B C D. B XOR C XOR D) 0xCA62C1D6 (map (sha_w M) [0..<80])) s [60..<80] = foldl (sha_step M) s [60..<80]" for M s
    by (rule rounds_eq; auto simp: sha_f_def sha_k_def)+
  then show ?thesis
    unfolding SHA1ProcessMessageBlock_def word_sequence_eq Let_def
    using assms by (simp add: H digest_list_def upt del: upt_rec_numeral upt_Suc split: prod.splits)
qed

section \<open>Hashing a message\<close>

lemma sha_blocks_small: "length m < 64 \<Longrightarrow> sha_blocks H m = H"
  by (subst sha_blocks.simps) simp

lemma sha_blocks_append:
  "length p mod 64 = 0 \<Longrightarrow> sha_blocks H (p @ q) = sha_blocks (sha_blocks H p) q"
proof (induction H p rule: sha_blocks.induct)
  case (1 H m)
  show ?case
  proof (cases "length m < 64")
    case True
    with 1(2) have "m = []" by simp
    then show ?thesis by (simp add: sha_blocks_small)
  next
    case False
    with 1(2) have "length (drop 64 m) mod 64 = 0" by (simp add: le_mod_geq [symmetric])
    with False 1(1) have "sha_blocks (sha_compress H (take 64 m)) (drop 64 m @ q)
        = sha_blocks (sha_blocks (sha_compress H (take 64 m)) (drop 64 m)) q" by simp
    with False sha_blocks.simps [of H m] sha_blocks.simps [of H "m @ q"] show ?thesis
      by simp
  qed
qed

lemma sha_blocks_one: "length b = 64 \<Longrightarrow> sha_blocks H b = sha_compress H b"
  by (subst sha_blocks.simps) (simp add: sha_blocks_small)

text \<open>
  The context after the message \<open>m\<close> has been input: \<open>p\<close> are its complete blocks, whose hash is in the
  digest, and \<open>r\<close> the rest, which is at the start of the block buffer.
\<close>

definition sha_iv :: word_buffers where
  "sha_iv = (0x67452301, 0xEFCDAB89, 0x98BADCFE, 0x10325476, 0xC3D2E1F0)"

definition sha_inv :: "SHA1Context \<Rightarrow> bytes \<Rightarrow> bool" where
  "sha_inv ctx m \<longleftrightarrow>
     (\<exists>p r. m = p @ r \<and> length p mod 64 = 0 \<and> length r < 64
        \<and> Message_Digest ctx = digest_list (sha_blocks sha_iv p)
        \<and> take (length r) (Message_Block ctx) = r \<and> Message_Block_Index ctx = length r)
     \<and> length (Message_Block ctx) = 64 \<and> \<not> Computed ctx \<and> \<not> Corrupted ctx
     \<and> unat (Length_High ctx) * 2 ^ 32 + unat (Length_Low ctx) = 8 * length m"

lemma sha_invI:
  assumes "m = p @ r" "length p mod 64 = 0" "length r < 64"
    "Message_Digest ctx = digest_list (sha_blocks sha_iv p)"
    "take (length r) (Message_Block ctx) = r" "Message_Block_Index ctx = length r"
    "length (Message_Block ctx) = 64" "\<not> Computed ctx" "\<not> Corrupted ctx"
    "unat (Length_High ctx) * 2 ^ 32 + unat (Length_Low ctx) = 8 * length m"
  shows "sha_inv ctx m"
  unfolding sha_inv_def by (intro conjI exI [of _ p] exI [of _ r] assms)

lemma sha_inv_reset:
  "length (Message_Block ctx) = 64 \<Longrightarrow> sha_inv (SHA1Reset ctx) []"
  by (simp add: sha_inv_def SHA1Reset_def sha_blocks_small digest_list_def sha_iv_def)

lemma add_length_eq:
  assumes "unat (Length_High ctx) * 2 ^ 32 + unat (Length_Low ctx) = 8 * n" "8 * (n + 1) < 2 ^ 64"
  obtains hi lo where "add_length ctx = ctx\<lparr>Length_Low := lo, Length_High := hi\<rparr>"
    "unat hi * 2 ^ 32 + unat lo = 8 * (n + 1)"
proof -
  let ?lo = "Length_Low ctx" and ?hi = "Length_High ctx"
  have lo: "unat ?lo < 2 ^ 32" and hi: "unat ?hi < 2 ^ 32"
    using unsigned_less [of ?lo] unsigned_less [of ?hi] by simp_all
  have "unat ?lo mod 8 = 0"
    using arg_cong [OF assms(1), of "\<lambda>x. x mod 8"] by (simp add: mod_mult_eq [symmetric] mod_add_eq [symmetric])
  with lo have cases: "unat ?lo + 8 < 2 ^ 32 \<or> unat ?lo + 8 = 2 ^ 32"
    by (simp add: mod_eq_0_iff_dvd dvd_def) presburger
  show thesis
  proof (cases "?lo + 8 = 0")
    case True
    then have "unat (?lo + 8) = 0" by simp
    with cases have l: "unat ?lo + 8 = 2 ^ 32"
      by (auto simp: unat_word_ariths dest: dvd_imp_le)
    with assms have "unat ?hi + 1 < 2 ^ 32" by simp
    then have h: "unat (?hi + 1) = unat ?hi + 1" by (simp add: unat_word_ariths)
    then have "?hi + 1 \<noteq> 0" by (metis add_is_0 one_neq_zero unsigned_0)
    with True have "add_length ctx = ctx\<lparr>Length_Low := 0, Length_High := ?hi + 1\<rparr>"
      by (simp add: add_length_def Let_def)
    then show thesis by (rule that) (use assms l h in simp)
  next
    case False
    then have "unat (?lo + 8) = unat ?lo + 8"
      using cases by (auto simp: unat_word_ariths word_unat_eq_iff)
    moreover from False have "add_length ctx = ctx\<lparr>Length_Low := ?lo + 8, Length_High := ?hi\<rparr>"
      by (simp add: add_length_def Let_def)
    ultimately show thesis using that [of ?hi "?lo + 8"] assms by simp
  qed
qed

lemma take_put: "n < length b \<Longrightarrow> take (Suc n) (b[n := x]) = take n b @ [x]"
  by (simp add: take_Suc_conv_app_nth)

lemma input_byte:
  assumes inv: "sha_inv ctx m" and len: "8 * (length m + 1) < 2 ^ 64"
  shows "\<exists>c. put_byte ctx b = Inr c
    \<and> sha_inv (if Message_Block_Index (add_length c) = 64 then SHA1ProcessMessageBlock (add_length c) else add_length c) (m @ [b])"
proof -
  from inv obtain p r where m: "m = p @ r" "length p mod 64 = 0" and r: "length r < 64"
    and dg: "Message_Digest ctx = digest_list (sha_blocks sha_iv p)"
    and blk: "take (length r) (Message_Block ctx) = r" "Message_Block_Index ctx = length r" "length (Message_Block ctx) = 64"
    and fl: "\<not> Computed ctx" "\<not> Corrupted ctx" and ln: "unat (Length_High ctx) * 2 ^ 32 + unat (Length_Low ctx) = 8 * length m"
    by (auto simp: sha_inv_def)
  define c where "c = ctx\<lparr>Message_Block := (Message_Block ctx)[length r := b], Message_Block_Index := length r + 1\<rparr>"
  have c [simp]: "Message_Block c = (Message_Block ctx)[length r := b]" "Message_Block_Index c = Suc (length r)"
    "Message_Digest c = Message_Digest ctx" "Computed c = Computed ctx" "Corrupted c = Corrupted ctx"
    "Length_Low c = Length_Low ctx" "Length_High c = Length_High ctx"
    by (simp_all add: c_def)
  obtain hi lo where al: "add_length c = c\<lparr>Length_Low := lo, Length_High := hi\<rparr>"
    and ln': "unat hi * 2 ^ 32 + unat lo = 8 * (length m + 1)"
    using add_length_eq [of c "length m"] ln len by auto
  have tk: "take (Suc (length r)) ((Message_Block ctx)[length r := b]) = r @ [b]"
    using r blk by (simp add: take_put)
  have put: "put_byte ctx b = Inr c" using r blk by (simp add: put_byte_def c_def)
  show ?thesis
  proof (cases "length r + 1 = 64")
    case False
    with r have "length (r @ [b]) < 64" by simp
    then have "sha_inv (add_length c) (m @ [b])"
      using m dg tk blk fl ln' by (intro sha_invI [of "m @ [b]" p "r @ [b]"]) (simp_all add: al)
    with put False show ?thesis by (auto simp: al)
  next
    case True
    then have full: "(Message_Block ctx)[length r := b] = r @ [b]" using tk blk(3) by simp
    have one: "sha_blocks sha_iv (p @ r @ [b]) = sha_compress (sha_blocks sha_iv p) (r @ [b])"
      using m(2) True by (simp add: sha_blocks_append sha_blocks_one)
    have "SHA1ProcessMessageBlock (add_length c) = (add_length c)\<lparr>
        Message_Digest := digest_list (sha_blocks sha_iv (m @ [b])), Message_Block_Index := 0\<rparr>"
      using process_block_eq [of "add_length c" "sha_blocks sha_iv p"] dg full m one by (simp add: al)
    moreover have "(length p + 64) mod 64 = 0"
      using m(2) by simp
    then have "length (m @ [b]) mod 64 = 0"
      using m(1) True by (simp add: add.commute)
    ultimately have "sha_inv (SHA1ProcessMessageBlock (add_length c)) (m @ [b])"
      using blk fl ln' by (intro sha_invI [of "m @ [b]" "m @ [b]" "[]"]) (simp_all add: al)
    with put True show ?thesis by (auto simp: al)
  qed
qed

lemma input_loop_ok:
  "sha_inv ctx m \<Longrightarrow> 8 * (length m + length d) < 2 ^ 64 \<Longrightarrow> \<exists>c. input_loop ctx d = Inr c \<and> sha_inv c (m @ d)"
proof (induction d arbitrary: ctx m)
  case (Cons b d)
  obtain c where "put_byte ctx b = Inr c"
    and inv: "sha_inv (if Message_Block_Index (add_length c) = 64 then SHA1ProcessMessageBlock (add_length c) else add_length c) (m @ [b])"
    using input_byte [OF Cons.prems(1), of b] Cons.prems(2) by auto
  moreover have "\<not> Corrupted ctx" using Cons.prems(1) by (simp add: sha_inv_def)
  ultimately show ?case
    using Cons.IH [OF inv] Cons.prems(2) by (simp add: Let_def)
qed simp

lemma SHA1Input_ok:
  assumes "sha_inv ctx m" "8 * (length m + length d) < 2 ^ 64"
  shows "\<exists>c. SHA1Input ctx d = Inr c \<and> sha_inv c (m @ d)"
  using assms input_loop_ok [OF assms] by (auto simp: SHA1Input_def sha_inv_def)

section \<open>Padding\<close>

lemma pad_to_eq:
  "Message_Block_Index ctx \<le> n \<Longrightarrow> n \<le> 64 \<Longrightarrow> length (Message_Block ctx) = 64 \<Longrightarrow>
   \<exists>b. pad_to n ctx = Inr (ctx\<lparr>Message_Block := b, Message_Block_Index := n\<rparr>) \<and> length b = 64
     \<and> take n b = take (Message_Block_Index ctx) (Message_Block ctx) @ replicate (n - Message_Block_Index ctx) 0"
proof (induction n ctx rule: pad_to.induct)
  case (1 n ctx)
  let ?i = "Message_Block_Index ctx" and ?B = "Message_Block ctx"
  show ?case
  proof (cases "?i < n")
    case False
    with 1(2) have "?i = n" by simp
    with False 1(4) show ?thesis by (subst pad_to.simps) (auto intro!: exI [of _ ?B])
  next
    case True
    let ?c = "ctx\<lparr>Message_Block := ?B[?i := 0], Message_Block_Index := ?i + 1\<rparr>"
    have put: "put_byte ctx 0 = Inr ?c"
      using True 1(3) by (simp add: put_byte_def)
    obtain b where b: "pad_to n ?c = Inr (?c\<lparr>Message_Block := b, Message_Block_Index := n\<rparr>)" "length b = 64"
      "take n b = take (Suc ?i) (?B[?i := 0]) @ replicate (n - Suc ?i) 0"
      using 1(1) [OF True put] True 1(3,4) by auto
    have "take n b = take ?i ?B @ replicate (n - ?i) 0"
      using b(3) True 1(3,4) by (simp add: take_put Suc_diff_Suc [symmetric])
    with b(1,2) put True show ?thesis by (subst pad_to.simps) auto
  qed
qed

lemma last_bytes:
  assumes "length b = 64" "length l = 8"
  shows "b[56 := l ! 0, 57 := l ! 1, 58 := l ! 2, 59 := l ! 3, 60 := l ! 4, 61 := l ! 5, 62 := l ! 6, 63 := l ! 7]
    = take 56 b @ l"
proof (rule nth_equalityI)
  fix i assume "i < length (b[56 := l ! 0, 57 := l ! 1, 58 := l ! 2, 59 := l ! 3, 60 := l ! 4, 61 := l ! 5, 62 := l ! 6, 63 := l ! 7])"
  then have "i < 64" using assms by simp
  then consider "i < 56" | "i = 56" | "i = 57" | "i = 58" | "i = 59" | "i = 60" | "i = 61" | "i = 62" | "i = 63"
    by linarith
  then show "b[56 := l ! 0, 57 := l ! 1, 58 := l ! 2, 59 := l ! 3, 60 := l ! 4, 61 := l ! 5, 62 := l ! 6, 63 := l ! 7] ! i
      = (take 56 b @ l) ! i"
    using assms by cases (auto simp: nth_append nth_list_update)
qed (use assms in simp)

definition be_words :: "u32 \<Rightarrow> u32 \<Rightarrow> bytes" where
  "be_words hi lo = [ucast (drop_bit 24 hi), ucast (drop_bit 16 hi), ucast (drop_bit 8 hi), ucast hi,
     ucast (drop_bit 24 lo), ucast (drop_bit 16 lo), ucast (drop_bit 8 lo), ucast lo]"

lemma be_words_eq:
  assumes "unat hi * 2 ^ 32 + unat lo = n"
  shows "be_words hi lo = be64 n"
proof -
  have lo: "unat lo < 2 ^ 32" using unsigned_less [of lo] by simp
  have c: "ucast x = (of_nat (unat x) :: u8)" for x :: u32
    by (rule of_nat_unat [symmetric])
  have u: "ucast (drop_bit k w) = (of_nat (unat w div 2 ^ k) :: u8)" for k and w :: u32
    unfolding c unat_drop_bit_eq by (simp add: drop_bit_eq_div)
  have e: "(of_nat (x + 256 * y) :: u8) = of_nat x" for x y :: nat
    by (simp add: word_unat_eq_iff unat_of_nat del: of_nat_add of_nat_mult)
  have low: "(of_nat (n div 256 ^ k) :: u8) = of_nat (unat lo div 256 ^ k)" if "k < 4" for k
  proof -
    have "(256 :: nat) ^ (4 - k) * 256 ^ k = 2 ^ 32"
      by (subst power_add [symmetric]) (use that in simp)
    then have "n = unat lo + (unat hi * 256 ^ (4 - k)) * 256 ^ k"
      using assms by (simp add: mult.assoc)
    then have "n div 256 ^ k = unat lo div 256 ^ k + unat hi * 256 ^ (4 - k)"
      by simp
    also have "unat hi * 256 ^ (4 - k) = 256 * (unat hi * 256 ^ (3 - k))"
      using that by (simp add: power_eq_if)
    finally show ?thesis by (simp only: e)
  qed
  have high: "n div 256 ^ (4 + k) = unat hi div 256 ^ k" for k
  proof -
    have "n div 256 ^ 4 = unat hi" using assms lo by simp
    then show ?thesis by (simp add: power_add div_mult2_eq)
  qed
  show ?thesis
    using low [of 0] low [of 1] low [of 2] low [of 3] high [of 0] high [of 1] high [of 2] high [of 3]
      u [of 24 hi] u [of 16 hi] u [of 8 hi] u [of 0 hi] u [of 24 lo] u [of 16 lo] u [of 8 lo] u [of 0 lo]
    by (simp add: be_words_def be64_def)
qed

lemma pad_short:
  assumes "length r \<le> 55"
  shows "r @ [0x80] @ replicate ((119 - length r) mod 64) 0 @ l = (r @ [0x80] @ replicate (55 - length r) 0) @ l"
proof -
  have "(119 - length r) mod 64 = 55 - length r"
    using assms by (simp add: mod_if)
  then show ?thesis by simp
qed

lemma pad_long:
  fixes r l :: bytes
  assumes "55 < length r" "length r < 64"
  shows "r @ [0x80] @ replicate ((119 - length r) mod 64) 0 @ l
    = (r @ [0x80] @ replicate (63 - length r) 0) @ (replicate 56 0 @ l)"
proof -
  have "(119 - length r) mod 64 = (63 - length r) + 56"
    using assms by (simp add: mod_if)
  moreover have "replicate (63 - length r + 56) (0 :: u8) = replicate (63 - length r) 0 @ replicate 56 0"
    by (rule replicate_add)
  ultimately show ?thesis by (simp only: append_assoc)
qed

lemma put_marker:
  assumes "length r < 64" "take (length r) (Message_Block ctx) = r" "Message_Block_Index ctx = length r"
    "length (Message_Block ctx) = 64"
  obtains b where "put_byte ctx 0x80 = Inr (ctx\<lparr>Message_Block := b, Message_Block_Index := length r + 1\<rparr>)"
    "length b = 64" "take (length r + 1) b = r @ [0x80]"
  using assms by (simp add: put_byte_def take_put)

lemma SHA1PadMessage_ok:
  assumes inv: "sha_inv ctx m"
  shows "\<exists>c. SHA1PadMessage ctx = Inr c \<and> Message_Digest c = digest_list (sha1_spec m) \<and> \<not> Corrupted c"
proof -
  from inv obtain p r where m: "m = p @ r" "length p mod 64 = 0" and r: "length r < 64"
    and dg: "Message_Digest ctx = digest_list (sha_blocks sha_iv p)"
    and blk: "take (length r) (Message_Block ctx) = r" "Message_Block_Index ctx = length r" "length (Message_Block ctx) = 64"
    and fl: "\<not> Corrupted ctx" and ln: "unat (Length_High ctx) * 2 ^ 32 + unat (Length_Low ctx) = 8 * length m"
    by (auto simp: sha_inv_def)
  let ?l = "be_words (Length_High ctx) (Length_Low ctx)"
  have mr: "length m mod 64 = length r" using m r by (simp add: mod_add_left_eq [symmetric])
  have spec: "sha1_spec m = sha_blocks (sha_blocks sha_iv p) (r @ [0x80] @ replicate ((119 - length r) mod 64) 0 @ ?l)"
    unfolding sha1_spec_def sha_iv_def [symmetric] sha_pad_def mr be_words_eq [OF ln]
    using sha_blocks_append [OF m(2), of sha_iv] m(1) by simp
  have ll: "length ?l = 8" by (simp add: be_words_def)
  have fin: "SHA1ProcessMessageBlock (c\<lparr>Message_Block := (Message_Block c)[
      56 := ucast (drop_bit 24 (Length_High ctx)), 57 := ucast (drop_bit 16 (Length_High ctx)),
      58 := ucast (drop_bit 8 (Length_High ctx)), 59 := ucast (Length_High ctx),
      60 := ucast (drop_bit 24 (Length_Low ctx)), 61 := ucast (drop_bit 16 (Length_Low ctx)),
      62 := ucast (drop_bit 8 (Length_Low ctx)), 63 := ucast (Length_Low ctx)]\<rparr>)
    = c\<lparr>Message_Digest := digest_list (sha_compress H (take 56 (Message_Block c) @ ?l)),
        Message_Block := take 56 (Message_Block c) @ ?l, Message_Block_Index := 0\<rparr>"
    if "length (Message_Block c) = 64" "Message_Digest c = digest_list H" for c H
    using last_bytes [OF that(1) ll] process_block_eq [of "c\<lparr>Message_Block := take 56 (Message_Block c) @ ?l\<rparr>" H] that(2)
    by (simp add: be_words_def)
  obtain b where b: "put_byte ctx 0x80 = Inr (ctx\<lparr>Message_Block := b, Message_Block_Index := length r + 1\<rparr>)"
    "length b = 64" "take (length r + 1) b = r @ [0x80]"
    using put_marker [OF r blk] .
  let ?c = "ctx\<lparr>Message_Block := b, Message_Block_Index := length r + 1\<rparr>"
  show ?thesis
  proof (cases "length r \<le> 55")
    case True
    obtain b' where b': "pad_to 56 ?c = Inr (?c\<lparr>Message_Block := b', Message_Block_Index := 56\<rparr>)" "length b' = 64"
      "take 56 b' = r @ [0x80] @ replicate (55 - length r) 0"
      using pad_to_eq [of ?c 56] b(2,3) True by auto
    have "sha1_spec m = sha_compress (sha_blocks sha_iv p) (take 56 b' @ ?l)"
      unfolding spec pad_short [OF True] b'(3) by (rule sha_blocks_one) (use True ll in simp)
    with True b(1) b' blk dg fl fin [of "?c\<lparr>Message_Block := b', Message_Block_Index := 56\<rparr>" "sha_blocks sha_iv p"]
    show ?thesis by (simp add: SHA1PadMessage_def Let_def)
  next
    case False
    obtain b1 where b1: "pad_to 64 ?c = Inr (?c\<lparr>Message_Block := b1, Message_Block_Index := 64\<rparr>)" "length b1 = 64"
      "b1 = r @ [0x80] @ replicate (63 - length r) 0"
      using pad_to_eq [of ?c 64] b(2,3) r by auto
    let ?H = "sha_compress (sha_blocks sha_iv p) b1"
    let ?d = "?c\<lparr>Message_Block := b1, Message_Digest := digest_list ?H, Message_Block_Index := 0\<rparr>"
    have pr: "SHA1ProcessMessageBlock (?c\<lparr>Message_Block := b1, Message_Block_Index := 64\<rparr>) = ?d"
      using process_block_eq [of "?c\<lparr>Message_Block := b1, Message_Block_Index := 64\<rparr>" "sha_blocks sha_iv p"] dg by simp
    obtain b2 where b2: "pad_to 56 ?d = Inr (?d\<lparr>Message_Block := b2, Message_Block_Index := 56\<rparr>)" "length b2 = 64"
      "take 56 b2 = replicate 56 0"
      using pad_to_eq [of ?d 56] b1(2) by auto
    have "length b1 mod 64 = 0" using b1(2) by simp
    from sha_blocks_append [OF this, of "sha_blocks sha_iv p"]
    have "sha1_spec m = sha_compress ?H (take 56 b2 @ ?l)"
      unfolding spec using pad_long [of r ?l] False r b1 b2(3) ll by (simp add: sha_blocks_one)
    with False b(1) b1(1) pr b2 blk fl fin [of "?d\<lparr>Message_Block := b2, Message_Block_Index := 56\<rparr>" ?H]
    show ?thesis by (simp add: SHA1PadMessage_def Let_def)
  qed
qed

section \<open>The digest\<close>

fun input_all :: "SHA1Context \<Rightarrow> bytes list \<Rightarrow> SHA1Context res" where
  "input_all c [] = Inr c"
| "input_all c (d # ds) = rbind (SHA1Input c d) (\<lambda>c1. input_all c1 ds)"

lemma input_all_ok:
  "sha_inv ctx m \<Longrightarrow> 8 * (length m + length (concat ds)) < 2 ^ 64 \<Longrightarrow>
   \<exists>c. input_all ctx ds = Inr c \<and> sha_inv c (m @ concat ds)"
proof (induction ds arbitrary: ctx m)
  case (Cons d ds)
  then obtain c where "SHA1Input ctx d = Inr c" "sha_inv c (m @ d)"
    using SHA1Input_ok [of ctx m d] by auto
  with Cons.IH [of c "m @ d"] Cons.prems(2) show ?case by (simp add: add.assoc)
qed simp

text \<open>
  C27: \<^verbatim>\<open>SHA1Reset\<close>, any sequence of calls of \<^verbatim>\<open>SHA1Input\<close> with fewer than 2 to the 61 bytes in all and
  \<^verbatim>\<open>SHA1Result\<close> never write outside the message block, succeed, and leave in \<^verbatim>\<open>Message_Digest\<close> the SHA-1 hash
  that FIPS 180-1 defines for the concatenation of the inputs; a second \<^verbatim>\<open>SHA1Result\<close> changes nothing.
\<close>

theorem sha1_correct:
  assumes "length (Message_Block ctx) = 64" "length (concat ds) < 2 ^ 61"
  shows "\<exists>c1 c2. input_all (SHA1Reset ctx) ds = Inr c1 \<and> SHA1Result c1 = Inr (1, c2)
    \<and> Message_Digest c2 = digest_list (sha1_spec (concat ds)) \<and> SHA1Result c2 = Inr (1, c2)"
proof -
  obtain c1 where c1: "input_all (SHA1Reset ctx) ds = Inr c1" "sha_inv c1 (concat ds)"
    using input_all_ok [OF sha_inv_reset [OF assms(1)], of ds] assms(2) by auto
  moreover obtain c where "SHA1PadMessage c1 = Inr c" "Message_Digest c = digest_list (sha1_spec (concat ds))" "\<not> Corrupted c"
    using SHA1PadMessage_ok [OF c1(2)] by blast
  ultimately show ?thesis
    by (auto simp: SHA1Result_def sha_inv_def)
qed

definition demo_sha :: SHA1Context where
  "demo_sha = \<lparr>Message_Digest = replicate 5 0, Length_Low = 0, Length_High = 0, Message_Block = replicate 64 0,
     Message_Block_Index = 0, Computed = False, Corrupted = False\<rparr>"

theorem sha1_correct_witness:
  "\<exists>c1 c2. input_all (SHA1Reset demo_sha) [[0x61], [0x62, 0x63]] = Inr c1 \<and> SHA1Result c1 = Inr (1, c2)
    \<and> Message_Digest c2 = digest_list (sha1_spec [0x61, 0x62, 0x63])"
  using sha1_correct [of demo_sha "[[0x61], [0x62, 0x63]]"] by (auto simp: demo_sha_def)

end
