(* ===== verification/Sock_Io.thy ===== *)
theory Sock_Io
  imports Prelude
begin

text \<open>
  Blocking reads from a stream socket, which both the router and the STCP network layer loop over. The
  operating system is a function from the state of the socket and the number of bytes asked for to what
  \<^verbatim>\<open>read\<close> does; \<open>reader_ok\<close> states what POSIX documents for a socket whose peer keeps it open: as long as
  bytes are there, some of them are returned, in order, and only finitely many calls are interrupted.
\<close>

datatype io_result =
    Got bytes   \<comment> \<open>the bytes read; none of them at end of file\<close>
  | Eintr       \<comment> \<open>-1 with \<^verbatim>\<open>errno\<close> EINTR\<close>
  | Failed      \<comment> \<open>-1 with another error\<close>

type_synonym 's reader = "'s \<Rightarrow> nat \<Rightarrow> io_result \<times> 's"

definition reader_ok :: "'s reader \<Rightarrow> ('s \<Rightarrow> bytes) \<Rightarrow> ('s \<Rightarrow> nat) \<Rightarrow> bool" where
  "reader_ok rd contents intr \<longleftrightarrow>
     (\<forall>s k. 0 < k \<longrightarrow> contents s \<noteq> [] \<longrightarrow>
        (case rd s k of
           (Got d, s') \<Rightarrow> d \<noteq> [] \<and> length d \<le> k \<and> contents s = d @ contents s'
         | (Eintr, s') \<Rightarrow> contents s' = contents s \<and> intr s' < intr s
         | (Failed, s') \<Rightarrow> False))"

text \<open>A reader whose calls are never interrupted.\<close>

definition steady :: "'s reader \<Rightarrow> bool" where
  "steady rd \<longleftrightarrow> (\<forall>s k. fst (rd s k) \<noteq> Eintr)"

text \<open>A reader that reports end of file when the peer has closed and all bytes are read.\<close>

definition ends :: "'s reader \<Rightarrow> ('s \<Rightarrow> bytes) \<Rightarrow> bool" where
  "ends rd contents \<longleftrightarrow> (\<forall>s k. contents s = [] \<longrightarrow> 0 < k \<longrightarrow> (\<exists>s'. rd s k = (Got [], s')))"

lemma steady_got:
  assumes "reader_ok rd contents intr" "steady rd" "0 < k" "contents s \<noteq> []"
  obtains d s1 where "rd s k = (Got d, s1)" "d \<noteq> []" "length d \<le> k" "contents s = d @ contents s1"
proof -
  obtain r s1 where rd: "rd s k = (r, s1)" by (cases "rd s k")
  have "case rd s k of (Got d, s') \<Rightarrow> d \<noteq> [] \<and> length d \<le> k \<and> contents s = d @ contents s'
      | (Eintr, s') \<Rightarrow> contents s' = contents s \<and> intr s' < intr s | (Failed, s') \<Rightarrow> False"
    using assms(1,3,4) by (simp add: reader_ok_def)
  moreover have "r \<noteq> Eintr" using assms(2) rd unfolding steady_def by (metis fst_conv)
  ultimately show thesis using rd that by (cases r) auto
qed

text \<open>
  The loop that reads \<open>n\<close> bytes and retries interrupted calls. Not returning is \<open>None\<close>; an error is
  \<open>Some (None, s)\<close>. At end of file the call returns no bytes and the loop goes on.
\<close>

partial_function (option) read_bytes ::
  "'s reader \<Rightarrow> 's \<Rightarrow> nat \<Rightarrow> bytes \<Rightarrow> (bytes option \<times> 's) option" where
  "read_bytes rd s n acc =
     (if length acc < n then
        case rd s (n - length acc) of
          (Got d, s1) \<Rightarrow> read_bytes rd s1 n (acc @ d)
        | (Eintr, s1) \<Rightarrow> read_bytes rd s1 n acc
        | (Failed, s1) \<Rightarrow> Some (None, s1)
      else Some (Some acc, s))"

lemma read_bytes_done: "n \<le> length acc \<Longrightarrow> read_bytes rd s n acc = Some (Some acc, s)"
  by (subst read_bytes.simps) simp

lemma read_bytes_ok:
  assumes "reader_ok rd contents intr"
  shows "length acc + k = n \<Longrightarrow> k \<le> length (contents s) \<Longrightarrow>
    \<exists>s'. read_bytes rd s n acc = Some (Some (acc @ take k (contents s)), s') \<and> contents s' = drop k (contents s)"
proof (induction "(k, intr s)" arbitrary: k s acc rule: wf_induct_rule [OF wf_lex_prod [OF wf_less wf_less]])
  case (1 k s acc)
  show ?case
  proof (cases "k = 0")
    case True
    with 1(2) show ?thesis by (simp add: read_bytes_done)
  next
    case False
    with 1(3) have "0 < k" "contents s \<noteq> []" by auto
    then have ok: "case rd s k of (Got d, s') \<Rightarrow> d \<noteq> [] \<and> length d \<le> k \<and> contents s = d @ contents s'
        | (Eintr, s') \<Rightarrow> contents s' = contents s \<and> intr s' < intr s | (Failed, s') \<Rightarrow> False"
      using assms by (simp add: reader_ok_def)
    have step: "read_bytes rd s n acc = (case rd s k of (Got d, s1) \<Rightarrow> read_bytes rd s1 n (acc @ d)
        | (Eintr, s1) \<Rightarrow> read_bytes rd s1 n acc | (Failed, s1) \<Rightarrow> Some (None, s1))"
      using 1(2) False by (subst read_bytes.simps) auto
    consider (got) d s1 where "rd s k = (Got d, s1)" "d \<noteq> []" "length d \<le> k" "contents s = d @ contents s1"
      | (intr) s1 where "rd s k = (Eintr, s1)" "contents s1 = contents s" "intr s1 < intr s"
      using ok by (auto split: prod.splits io_result.splits)
    then show ?thesis
    proof cases
      case got
      then have lt: "((k - length d, intr s1), (k, intr s)) \<in> {(x, y). x < y} <*lex*> {(x, y). x < y}"
        using \<open>0 < k\<close> by (cases d) auto
      show ?thesis
        using 1(1) [OF lt, of "acc @ d"] got 1(2,3) by (auto simp: step)
    next
      case intr
      then have lt: "((k, intr s1), (k, intr s)) \<in> {(x, y). x < y} <*lex*> {(x, y). x < y}" by simp
      show ?thesis using 1(1) [OF lt, of acc] intr 1(2,3) by (auto simp: step)
    qed
  qed
qed

lemma read_bytes_eof:
  assumes "\<And>k. rd s k = (Got [], s)" "length acc < n"
  shows "read_bytes rd s n acc = None"
proof -
  have "\<not> (rd' = rd \<and> t = s \<and> m = n \<and> a = acc)" if "read_bytes rd' t m a = Some x" for rd' t m a x
    by (rule read_bytes.raw_induct [where P = "\<lambda>rd' t m a x. \<not> (rd' = rd \<and> t = s \<and> m = n \<and> a = acc)", OF _ that])
      (use assms in \<open>fastforce split: if_splits\<close>)
  then show ?thesis by (cases "read_bytes rd s n acc") blast+
qed

text \<open>A socket that delivers the bytes of a list, at most three at a time.\<close>

definition list_reader :: "bytes reader" where
  "list_reader b k = (Got (take (min k 3) b), drop (min k 3) b)"

lemma list_reader_ok: "reader_ok list_reader (\<lambda>b. b) (\<lambda>_. 0)"
  by (auto simp: reader_ok_def list_reader_def)

end
