(* ===== verification/Sr_Vns.thy ===== *)
theory Sr_Vns
  imports Sr_Router Sha1 Sock_Io Libc
begin

text \<open>
  The receiving half of \<^verbatim>\<open>sr_vns_comm.c\<close>: reading a command of the VNS server, the hardware information,
  routing table and authentication commands, the hand-over of frames to the router, and the opening of
  the session. The environment \<open>vns_env\<close> holds what the code takes from the operating system: the file
  \<^verbatim>\<open>auth_key\<close>, whether a file can be opened for writing, and the contents of uninitialised objects.
\<close>

section \<open>Commands\<close>

definition VNSOPEN :: u32 where "VNSOPEN = 1"
definition VNSCLOSE :: u32 where "VNSCLOSE = 2"
definition VNSBANNER :: u32 where "VNSBANNER = 8"
definition VNSHWINFO :: u32 where "VNSHWINFO = 16"
definition VNS_RTABLE :: u32 where "VNS_RTABLE = 32"
definition VNS_OPEN_TEMPLATE :: u32 where "VNS_OPEN_TEMPLATE = 64"
definition VNS_AUTH_REQUEST :: u32 where "VNS_AUTH_REQUEST = 128"
definition VNS_AUTH_REPLY :: u32 where "VNS_AUTH_REPLY = 256"
definition VNS_AUTH_STATUS :: u32 where "VNS_AUTH_STATUS = 512"
definition IDSIZE :: nat where "IDSIZE = 32"
definition HWINTERFACE :: u32 where "HWINTERFACE = 1"
definition HWETHER :: u32 where "HWETHER = 32"
definition HWETHIP :: u32 where "HWETHIP = 64"

text \<open>The structs of \<^verbatim>\<open>vnscommand.h\<close> that the router fills in or takes apart, with their bytes.\<close>

record c_open =
  co_mLen :: u32
  co_mType :: u32
  co_topoID :: u16
  co_pad :: u16
  co_mVirtualHostID :: bytes
  co_mUID :: bytes
  co_mPass :: bytes

definition enc_open :: "c_open \<Rightarrow> bytes" where
  "enc_open c = le32 (co_mLen c) @ le32 (co_mType c) @ le16 (co_topoID c) @ le16 (co_pad c)
     @ co_mVirtualHostID c @ co_mUID c @ co_mPass c"

record c_open_template =
  ct_mLen :: u32
  ct_mType :: u32
  ct_templateName :: bytes
  ct_mVirtualHostID :: bytes

definition enc_open_template :: "c_open_template \<Rightarrow> bytes" where
  "enc_open_template c = le32 (ct_mLen c) @ le32 (ct_mType c) @ ct_templateName c @ ct_mVirtualHostID c"

record c_auth_reply =
  ca_mLen :: u32
  ca_mType :: u32
  ca_usernameLen :: u32

definition enc_auth_reply :: "c_auth_reply \<Rightarrow> bytes" where
  "enc_auth_reply c = le32 (ca_mLen c) @ le32 (ca_mType c) @ le32 (ca_usernameLen c)"

record c_hw_entry =
  hw_mKey :: u32
  hw_value :: bytes

definition dec_hw_entry :: "bytes \<Rightarrow> c_hw_entry" where
  "dec_hw_entry b = \<lparr>hw_mKey = ld32 b 0, hw_value = drop 4 b\<rparr>"

record vns_env =
  auth_file :: "string option"
  key_garbage :: bytes
  sha_garbage :: SHA1Context
  if_garbage :: sr_if
  can_write :: "string \<Rightarrow> bool"

record vns_state =
  vs_sr :: sr_instance
  vs_files :: "(string \<times> bytes) list"
  vs_closed :: bool

section \<open>Hardware information\<close>

definition handle_hw_entry :: "sr_if \<Rightarrow> sr_instance \<Rightarrow> bytes \<Rightarrow> sr_instance res" where
  "handle_hw_entry garbage sr entry =
     (let key = ntohl (hw_mKey (dec_hw_entry entry)); val = hw_value (dec_hw_entry entry)
      in if key = HWINTERFACE then Inr (sr_add_interface garbage sr (c_string val))
         else if key = HWETHIP then sr_set_ether_ip sr (ld32 val 0)
         else if key = HWETHER then sr_set_ether_addr sr (bytes_mac val)
         else Inr sr)"

fun hwinfo_loop :: "sr_if \<Rightarrow> sr_instance \<Rightarrow> bytes \<Rightarrow> nat \<Rightarrow> nat \<Rightarrow> sr_instance res" where
  "hwinfo_loop garbage sr hwinfo i 0 = Inr sr"
| "hwinfo_loop garbage sr hwinfo i (Suc n) =
     rbind (handle_hw_entry garbage sr (bslice hwinfo (8 + 36 * i) 36)) (\<lambda>sr1.
       hwinfo_loop garbage sr1 hwinfo (Suc i) n)"

definition sr_handle_hwinfo :: "sr_if \<Rightarrow> sr_instance \<Rightarrow> bytes \<Rightarrow> (nat \<times> sr_instance) res" where
  "sr_handle_hwinfo garbage sr hwinfo =
     (let num_entries = (unat (ntohl (ld32 hwinfo 0)) - 8) div 36
      in rbind (hwinfo_loop garbage sr hwinfo 0 num_entries) (\<lambda>sr1. Inr (num_entries, sr1)))"

section \<open>Routing table and authentication\<close>

definition sr_handle_rtable :: "vns_env \<Rightarrow> vns_state \<Rightarrow> bytes \<Rightarrow> (int \<times> vns_state) res" where
  "sr_handle_rtable env st rtable =
     (let vhost = takeWhile (\<lambda>b. b \<noteq> 0) (drop 8 rtable)
      in rbind (guard OutOfBounds (0 \<in> set (drop 8 rtable) \<and> length vhost \<le> IDSIZE)) (\<lambda>_.
         let fn = ''rtable.'' @ c_string vhost
         in if can_write env fn then
              rbind (guard OutOfBounds (8 + IDSIZE \<le> length rtable)) (\<lambda>_.
                Inr (1, st\<lparr>vs_files := vs_files st @ [(fn, drop (8 + IDSIZE) rtable)]\<rparr>))
            else Inr (0, st)))"

definition AUTH_KEY_LEN :: nat where "AUTH_KEY_LEN = 64"
definition SHA1_LEN :: nat where "SHA1_LEN = 20"

text \<open>The 64 bytes hashed are the line read, its terminator and whatever the array held before.\<close>

definition auth_key_bytes :: "vns_env \<Rightarrow> string \<Rightarrow> bytes" where
  "auth_key_bytes env line =
     take AUTH_KEY_LEN (map of_char line @ 0 # drop (length line + 1) (key_garbage env))"

definition auth_reply :: "string \<Rightarrow> u32 list \<Rightarrow> bytes" where
  "auth_reply user digest =
     enc_auth_reply \<lparr>ca_mLen = htonl (of_nat (12 + length user + SHA1_LEN)), ca_mType = htonl VNS_AUTH_REPLY,
       ca_usernameLen = htonl (of_nat (length user))\<rparr> @ map of_char user @ concat (map (\<lambda>d. le32 (htonl d)) digest)"

definition sr_handle_auth_request :: "vns_env \<Rightarrow> sr_instance \<Rightarrow> bytes \<Rightarrow> (int \<times> sr_instance) res" where
  "sr_handle_auth_request env sr req =
     (case auth_file env of
        None \<Rightarrow> Inr (0, sr)
      | Some contents \<Rightarrow>
          let line = fst (fgets AUTH_KEY_LEN contents)
          in if line = [] then Inr (0, sr)
             else
               rbind (SHA1Input (SHA1Reset (sha_garbage env)) (drop 8 req)) (\<lambda>c1.
               rbind (SHA1Input c1 (auth_key_bytes env line)) (\<lambda>c2.
               rbind (SHA1Result c2) (\<lambda>(ok, c3).
                 if ok = 0 then Inr (0, sr)
                 else
                   let buf = auth_reply (sr_user sr) (Message_Digest c3);
                       rc = sock_write sr buf
                   in Inr (if rc = int (length buf) then 1 else 0, sr\<lparr>sock_out := sock_out sr @ [buf]\<rparr>)))))"

definition sr_handle_auth_status :: "bytes \<Rightarrow> int res" where
  "sr_handle_auth_status status = rbind (guard OutOfBounds (9 \<le> length status)) (\<lambda>_. Inr (uint (status ! 8)))"

section \<open>Frames\<close>

definition sr_arp_req_not_for_us :: "sr_instance \<Rightarrow> bytes \<Rightarrow> string \<Rightarrow> bool res" where
  "sr_arp_req_not_for_us sr packet interface =
     (if length packet < sizeof_ethernet_hdr + sizeof_arp_hdr then Inr False
      else case sr_get_interface sr interface of
        None \<Rightarrow> Inl AssertFailed
      | Some iface \<Rightarrow>
          Inr (ether_type (ld_struct 14 dec_ether packet 0) = htons ethertype_arp
             \<and> ar_op (ld_struct 28 dec_arp packet 14) = htons arp_op_request
             \<and> ar_tip (ld_struct 28 dec_arp packet 14) \<noteq> if_ip iface))"

text \<open>
  The interface name is a C string, of which at most 32 characters are compared. For a message shorter
  than its header the unsigned length of the frame wraps around, and the frame lies outside the message.
\<close>

definition handle_vnspacket :: "nat \<Rightarrow> sr_instance \<Rightarrow> bytes \<Rightarrow> sr_instance res" where
  "handle_vnspacket n sr buf =
     rbind (guard OutOfBounds (8 + sr_IFACE_NAMELEN \<le> length buf \<or> 0 \<in> set (drop 8 buf))) (\<lambda>_.
     let interface = c_string (drop 8 buf)
     in if length buf < sizeof_c_packet_header then
          Inl (if sr_get_interface sr interface = None then AssertFailed else OutOfBounds)
        else
          let packet = drop sizeof_c_packet_header buf
          in rbind (sr_arp_req_not_for_us sr packet interface) (\<lambda>skip.
             if skip then Inr sr
             else sr_handlepacket n (sr_log_packet sr packet (length packet)) packet interface))"

section \<open>Reading a command\<close>

definition handle_command :: "vns_env \<Rightarrow> nat \<Rightarrow> vns_state \<Rightarrow> u32 \<Rightarrow> bytes \<Rightarrow> (int \<times> vns_state) res" where
  "handle_command env n st command buf =
     (if command = VNSPACKET then
        rbind (handle_vnspacket n (vs_sr st) buf) (\<lambda>sr. Inr (1, st\<lparr>vs_sr := sr\<rparr>))
      else if command = VNSCLOSE then Inr (0, st)
      else if command = VNSBANNER then Inr (1, st)
      else if command = VNSHWINFO then
        rbind (sr_handle_hwinfo (if_garbage env) (vs_sr st) buf) (\<lambda>(k, sr).
          Inr (if sr_verify_routing_table sr \<noteq> 0 then -1 else 1, st\<lparr>vs_sr := sr\<rparr>))
      else if command = VNS_RTABLE then
        rbind (sr_handle_rtable env st buf) (\<lambda>(r, st1). Inr (if r = 0 then -1 else 1, st1))
      else if command = VNS_AUTH_REQUEST then
        rbind (sr_handle_auth_request env (vs_sr st) buf) (\<lambda>(r, sr).
          Inr (if r = 0 then -1 else 1, st\<lparr>vs_sr := sr\<rparr>))
      else if command = VNS_AUTH_STATUS then
        rbind (sr_handle_auth_status buf) (\<lambda>r. Inr (if r = 0 then -1 else 1, st))
      else Inr (1, st))"

definition sr_read_from_server_expect ::
  "vns_env \<Rightarrow> nat \<Rightarrow> 's reader \<Rightarrow> vns_state \<Rightarrow> 's \<Rightarrow> u32 \<Rightarrow> ((int \<times> vns_state \<times> 's) res) option" where
  "sr_read_from_server_expect env n rd st s expected_cmd =
     (case read_bytes rd s 4 [] of
        None \<Rightarrow> None
      | Some (None, s1) \<Rightarrow> Some (Inr (-1, st, s1))
      | Some (Some lenb, s1) \<Rightarrow>
          let len = sint (ntohl (ld32 lenb 0))
          in if len > 10000 \<or> len < 0 then Some (Inr (-1, st\<lparr>vs_closed := True\<rparr>, s1))
             else if len < 4 then Some (Inl OutOfBounds)
             else case read_bytes rd s1 (nat len - 4) [] of
                None \<Rightarrow> None
              | Some (None, s2) \<Rightarrow> Some (Inr (-1, st\<lparr>vs_closed := True\<rparr>, s2))
              | Some (Some body, s2) \<Rightarrow>
                  if len < 8 then Some (Inl OutOfBounds)
                  else
                    let buf = le32 (htonl (of_int len)) @ body;
                        command = ntohl (ld32 buf 4);
                        buf1 = st32 buf 4 command
                    in if expected_cmd \<noteq> 0 \<and> command \<noteq> expected_cmd \<and> command \<noteq> VNSCLOSE
                       then Some (Inr (-1, st, s2))
                       else Some (rbind (handle_command env n st command buf1) (\<lambda>(r, st1). Inr (r, st1, s2))))"

definition sr_read_from_server ::
  "vns_env \<Rightarrow> nat \<Rightarrow> 's reader \<Rightarrow> vns_state \<Rightarrow> 's \<Rightarrow> ((int \<times> vns_state \<times> 's) res) option" where
  "sr_read_from_server env n rd st s = sr_read_from_server_expect env n rd st s 0"

section \<open>Opening the session\<close>

definition open_message :: "sr_instance \<Rightarrow> bytes" where
  "open_message sr =
     (if length (sr_template sr) > 0 then
        enc_open_template \<lparr>ct_mLen = htonl 70, ct_mType = htonl VNS_OPEN_TEMPLATE,
          ct_templateName = strncpy_bytes 30 (sr_template sr), ct_mVirtualHostID = strncpy_bytes IDSIZE (sr_host sr)\<rparr>
      else
        enc_open \<lparr>co_mLen = htonl 108, co_mType = htonl VNSOPEN, co_topoID = htons (topo_id sr), co_pad = 0,
          co_mVirtualHostID = strncpy_bytes IDSIZE (sr_host sr), co_mUID = strncpy_bytes IDSIZE (sr_user sr),
          co_mPass = replicate IDSIZE 0\<rparr>)"

text \<open>A call that reads one command and goes on only when it returned 1.\<close>

definition expect_then ::
  "((int \<times> vns_state \<times> 's) res) option \<Rightarrow> (vns_state \<Rightarrow> 's \<Rightarrow> ((int \<times> vns_state \<times> 's) res) option)
    \<Rightarrow> ((int \<times> vns_state \<times> 's) res) option" where
  "expect_then r f =
     (case r of None \<Rightarrow> None
      | Some (Inl e) \<Rightarrow> Some (Inl e)
      | Some (Inr (rc, st, s)) \<Rightarrow> if rc \<noteq> 1 then Some (Inr (-1, st, s)) else f st s)"

text \<open>\<open>resolved\<close>, \<open>created\<close> and \<open>connected\<close> say whether the three system calls succeed.\<close>

definition sr_connect_to_server ::
  "vns_env \<Rightarrow> nat \<Rightarrow> 's reader \<Rightarrow> bool \<Rightarrow> bool \<Rightarrow> bool \<Rightarrow> vns_state \<Rightarrow> 's
    \<Rightarrow> ((int \<times> vns_state \<times> 's) res) option" where
  "sr_connect_to_server env n rd resolved created connected st s =
     (if \<not> resolved then Some (Inr (-1, st, s))
      else if \<not> created then Some (Inr (-1, st, s))
      else if \<not> connected then Some (Inr (-1, st\<lparr>vs_closed := True\<rparr>, s))
      else
        expect_then (sr_read_from_server_expect env n rd st s VNS_AUTH_REQUEST) (\<lambda>st1 s1.
        expect_then (sr_read_from_server_expect env n rd st1 s1 VNS_AUTH_STATUS) (\<lambda>st2 s2.
          let sr = vs_sr st2; buf = open_message sr; rc = sock_write sr buf;
              st3 = st2\<lparr>vs_sr := sr\<lparr>sock_out := sock_out sr @ [buf]\<rparr>\<rparr>
          in if rc \<noteq> int (length buf) then Some (Inr (-1, st3, s2))
             else if length (sr_template sr) > 0 then
               expect_then (sr_read_from_server_expect env n rd st3 s2 VNS_RTABLE) (\<lambda>st4 s3. Some (Inr (0, st4, s3)))
             else Some (Inr (0, st3, s2)))))"

text \<open>The main loop of \<^verbatim>\<open>sr_main.c\<close>: commands are read as long as a read returns 1.\<close>

partial_function (option) main_loop ::
  "vns_env \<Rightarrow> nat \<Rightarrow> 's reader \<Rightarrow> vns_state \<Rightarrow> 's \<Rightarrow> ((int \<times> vns_state \<times> 's) res) option" where
  "main_loop env n rd st s =
     (case sr_read_from_server env n rd st s of
        None \<Rightarrow> None
      | Some (Inl e) \<Rightarrow> Some (Inl e)
      | Some (Inr (rc, st1, s1)) \<Rightarrow> if rc = 1 then main_loop env n rd st1 s1 else Some (Inr (rc, st1, s1)))"

end
