(* ===== verification/Sr_Load.thy ===== *)
theory Sr_Load
  imports Sr_Rt Libc
begin

text \<open>
  \<^verbatim>\<open>sr_load_rt\<close> of \<^verbatim>\<open>sr_rt.c\<close>: the routing table file. The file system is the function \<open>fs\<close> from
  names to contents (\<open>None\<close> when \<^verbatim>\<open>access\<close> fails); the four word buffers keep their contents from
  line to line, so a short line reuses the words of the line before it.
\<close>

section \<open>The loader\<close>

record rt_words =
  w_dest :: string
  w_gw :: string
  w_mask :: string
  w_iface :: string

definition BUFSIZ :: nat where "BUFSIZ = 8192"

text \<open>\<^verbatim>\<open>sscanf(line, "%s %s %s %s", dest, gw, mask, iface)\<close> into buffers of 32 characters.\<close>

definition scan_line :: "string \<Rightarrow> rt_words \<Rightarrow> rt_words res" where
  "scan_line line w =
     (let ws = scan_words 4 (takeWhile (\<lambda>c. c \<noteq> CHR 0x00) line)
      in rbind (guard OutOfBounds (\<forall>t \<in> set ws. length t < 32))
           (\<lambda>_. Inr \<lparr>w_dest = (if 0 < length ws then ws ! 0 else w_dest w),
                     w_gw = (if 1 < length ws then ws ! 1 else w_gw w),
                     w_mask = (if 2 < length ws then ws ! 2 else w_mask w),
                     w_iface = (if 3 < length ws then ws ! 3 else w_iface w)\<rparr>))"

function load_rt_lines ::
  "sr_instance \<Rightarrow> bool \<Rightarrow> rt_words \<Rightarrow> string \<Rightarrow> (int \<times> sr_instance) res" where
  "load_rt_lines sr cleared w inp =
     (if inp = [] then Inr (0, sr)
      else case fgets (BUFSIZ - 1) inp of (line, rest) \<Rightarrow>
        rbind (scan_line line w) (\<lambda>w'.
          case inet_aton (w_dest w') of None \<Rightarrow> Inr (-1, sr) | Some dest_addr \<Rightarrow>
          case inet_aton (w_gw w') of None \<Rightarrow> Inr (-1, sr) | Some gw_addr \<Rightarrow>
          case inet_aton (w_mask w') of None \<Rightarrow> Inr (-1, sr) | Some mask_addr \<Rightarrow>
            let sr' = (if cleared then sr else sr\<lparr>routing_table := []\<rparr>)
            in load_rt_lines (sr_add_rt_entry sr' dest_addr gw_addr mask_addr (w_iface w'))
                 True w' rest))"
  by pat_completeness auto
termination
proof (relation "measure (\<lambda>(sr, cleared, w, inp). length inp)")
  fix sr cleared w inp line rest w' d g m sr'
  assume "inp \<noteq> []" "(line, rest) = fgets (BUFSIZ - 1) inp"
  then show "((sr', True, w', rest), sr, cleared, w, inp) \<in> measure (\<lambda>(sr, cleared, w, inp). length inp)"
    using fgets_progress [of inp 8190] by (simp add: BUFSIZ_def) (metis snd_conv)
qed auto

declare load_rt_lines.simps [simp del]

definition sr_load_rt ::
  "(string \<Rightarrow> string option) \<Rightarrow> rt_words \<Rightarrow> sr_instance \<Rightarrow> string \<Rightarrow> (int \<times> sr_instance) res" where
  "sr_load_rt fs garbage sr filename =
     (case fs filename of None \<Rightarrow> Inr (-1, sr)
      | Some contents \<Rightarrow> load_rt_lines sr False garbage contents)"

end
