(* ===== verification/Sr_Main.thy ===== *)
theory Sr_Main
  imports Sr_Vns Sr_Load
begin

text \<open>
  The driver of the router, \<^verbatim>\<open>sr_main.c\<close>: the command line, the set-up of the instance, the connection to the server
  and the main loop. The environment \<open>main_env\<close> holds what the code asks the operating system for. The uninitialised
  instance on the stack is a parameter. What is printed is not part of the result.
\<close>

section \<open>The command line\<close>

record sr_options =
  o_host :: string
  o_user :: "string option"
  o_server :: string
  o_rtable :: string
  o_template :: "string option"
  o_port :: u32
  o_topo :: u32
  o_logfile :: "string option"

definition default_options :: sr_options where
  "default_options = \<lparr>o_host = ''vrhost'', o_user = None, o_server = ''localhost'', o_rtable = ''rtable'',
     o_template = None, o_port = 8888, o_topo = 0, o_logfile = None\<rparr>"

definition ROUTER_OPTIONS :: string where "ROUTER_OPTIONS = ''hs:v:p:u:t:r:l:T:''"

text \<open>One turn of the \<^verbatim>\<open>switch\<close>; \<open>None\<close> is the exit after the usage message.\<close>

definition set_option :: "char \<times> string \<Rightarrow> sr_options \<Rightarrow> sr_options option" where
  "set_option = (\<lambda>(c, optarg) opt.
     if c = CHR ''h'' then None
     else if c = CHR ''p'' then Some (opt\<lparr>o_port := word_of_int (atoi optarg)\<rparr>)
     else if c = CHR ''t'' then Some (opt\<lparr>o_topo := word_of_int (atoi optarg)\<rparr>)
     else if c = CHR ''v'' then Some (opt\<lparr>o_host := optarg\<rparr>)
     else if c = CHR ''u'' then Some (opt\<lparr>o_user := Some optarg\<rparr>)
     else if c = CHR ''s'' then Some (opt\<lparr>o_server := optarg\<rparr>)
     else if c = CHR ''l'' then Some (opt\<lparr>o_logfile := Some optarg\<rparr>)
     else if c = CHR ''r'' then Some (opt\<lparr>o_rtable := optarg\<rparr>)
     else if c = CHR ''T'' then Some (opt\<lparr>o_template := Some optarg\<rparr>)
     else Some opt)"

fun parse_options :: "(char \<times> string) list \<Rightarrow> sr_options \<Rightarrow> sr_options option" where
  "parse_options [] opt = Some opt"
| "parse_options (p # ps) opt = (case set_option p opt of None \<Rightarrow> None | Some opt1 \<Rightarrow> parse_options ps opt1)"

section \<open>Set-up\<close>

record main_env =
  m_vns :: vns_env
  m_fs :: "string \<Rightarrow> string option"
  m_words :: rt_words                       \<comment> \<open>the uninitialised buffers of the loader\<close>
  m_passwd :: "string option"               \<comment> \<open>the name \<^verbatim>\<open>getpwuid\<close> finds\<close>
  m_resolves :: "string \<Rightarrow> bool"
  m_socket :: bool
  m_connects :: "string \<Rightarrow> u16 \<Rightarrow> bool"

definition sr_init_instance :: "sr_instance \<Rightarrow> sr_instance" where
  "sr_init_instance sr = sr\<lparr>sr_user := [], sr_host := [], topo_id := 0, if_list := [], routing_table := [], logfile := None\<rparr>"

definition sr_set_user :: "string option \<Rightarrow> sr_instance \<Rightarrow> sr_instance" where
  "sr_set_user pw sr = sr\<lparr>sr_user := strncpy 32 (case pw of None \<Rightarrow> ''something_silly'' | Some pw_name \<Rightarrow> pw_name)\<rparr>"

text \<open>A computation that may also end the program with an exit code.\<close>

type_synonym 'a flow = "(int + 'a) res"

definition fbind :: "'a flow \<Rightarrow> ('a \<Rightarrow> 'b flow) \<Rightarrow> 'b flow" where
  "fbind r f = rbind r (\<lambda>x. case x of Inl code \<Rightarrow> Inr (Inl code) | Inr a \<Rightarrow> f a)"

definition sr_load_rt_wrap :: "(string \<Rightarrow> string option) \<Rightarrow> rt_words \<Rightarrow> sr_instance \<Rightarrow> string \<Rightarrow> sr_instance flow" where
  "sr_load_rt_wrap fs words sr rtable =
     rbind (sr_load_rt fs words sr rtable) (\<lambda>(rc, sr1). Inr (if rc \<noteq> 0 then Inl 1 else Inr sr1))"

definition sr_setup :: "main_env \<Rightarrow> sr_options \<Rightarrow> sr_instance \<Rightarrow> sr_instance flow" where
  "sr_setup env opt garbage =
     (let sr = sr_init_instance garbage
      in fbind (case o_template opt of
                  None \<Rightarrow> sr_load_rt_wrap (m_fs env) (m_words env) (sr\<lparr>sr_template := []\<rparr>) (o_rtable opt)
                | Some template \<Rightarrow> Inr (Inr (sr\<lparr>sr_template := strncpy 30 template\<rparr>))) (\<lambda>sr1.
           let sr2 = sr1\<lparr>topo_id := ucast (o_topo opt), sr_host := strncpy 32 (o_host opt)\<rparr>;
               sr3 = (case o_user opt of
                        None \<Rightarrow> sr_set_user (m_passwd env) sr2
                      | Some user \<Rightarrow> sr2\<lparr>sr_user := strncpy 32 user\<rparr>)
           in case o_logfile opt of
                None \<Rightarrow> Inr (Inr sr3)
              | Some fname \<Rightarrow>
                  (case sr_dump_open (can_write (m_vns env)) fname 0 (of_nat PACKET_DUMP_SIZE) of
                     None \<Rightarrow> Inr (Inl 1)
                   | Some fp \<Rightarrow> Inr (Inr (sr3\<lparr>logfile := Some fp\<rparr>)))))"

section \<open>The program\<close>

text \<open>The file system once the server has sent files.\<close>

definition files_written :: "(string \<Rightarrow> string option) \<Rightarrow> (string \<times> bytes) list \<Rightarrow> string \<Rightarrow> string option" where
  "files_written fs files name =
     (case map_of (rev files) name of None \<Rightarrow> fs name | Some b \<Rightarrow> Some (string_of_bytes b))"

text \<open>The exit code, the final state and the rest of the connection. Both branches behind the connection load the same file.\<close>

definition sr_main ::
  "main_env \<Rightarrow> nat \<Rightarrow> 's reader \<Rightarrow> string list \<Rightarrow> sr_instance \<Rightarrow> 's \<Rightarrow> ((int \<times> vns_state \<times> 's) res) option" where
  "sr_main env n rd args garbage s =
     (let st0 = \<lparr>vs_sr = garbage, vs_files = [], vs_closed = False\<rparr>
      in case parse_options (fst (getopt ROUTER_OPTIONS args)) default_options of
        None \<Rightarrow> Some (Inr (0, st0, s))
      | Some opt \<Rightarrow>
          (case sr_setup env opt garbage of
             Inl e \<Rightarrow> Some (Inl e)
           | Inr (Inl code) \<Rightarrow> Some (Inr (code, st0, s))
           | Inr (Inr sr) \<Rightarrow>
               (case sr_connect_to_server (m_vns env) n rd (m_resolves env (o_server opt)) (m_socket env)
                       (m_connects env (o_server opt) (ucast (o_port opt))) (st0\<lparr>vs_sr := sr\<rparr>) s of
                  None \<Rightarrow> None
                | Some (Inl e) \<Rightarrow> Some (Inl e)
                | Some (Inr (rc, st1, s1)) \<Rightarrow>
                    if rc = -1 then Some (Inr (1, st1, s1))
                    else
                      let fname = (if o_template opt \<noteq> None \<and> o_rtable opt = ''rtable.vrhost'' then ''rtable.vrhost''
                                   else o_rtable opt)
                      in case sr_load_rt_wrap (files_written (m_fs env) (vs_files st1)) (m_words env) (vs_sr st1) fname of
                           Inl e \<Rightarrow> Some (Inl e)
                         | Inr (Inl code) \<Rightarrow> Some (Inr (code, st1, s1))
                         | Inr (Inr sr2) \<Rightarrow>
                             (case main_loop (m_vns env) n rd (st1\<lparr>vs_sr := sr_init sr2\<rparr>) s1 of
                                None \<Rightarrow> None
                              | Some r \<Rightarrow> Some (rbind r (\<lambda>(_, st2, s2). Inr (0, st2, s2)))))))"

end
