(* ===== verification/Sr_Vns_Props.thy ===== *)
theory Sr_Vns_Props
  imports Sr_Vns
begin

text \<open>
  The session of the router with its server: commands are read from a socket that delivers bytes in
  arbitrary pieces (\<open>reader_ok\<close>), frames reach the router in order, the authentication and hardware
  messages have their effect, and end of file is not noticed.
\<close>


section \<open>Messages\<close>

definition vns_message :: "u32 \<Rightarrow> bytes \<Rightarrow> bytes" where
  "vns_message cmd body = le32 (htonl (of_nat (8 + length body))) @ le32 (htonl cmd) @ body"

lemma ld32_le32_at: "off = length p \<Longrightarrow> ld32 (p @ le32 v @ q) off = v"
  by (rule ld32_of_le32) (simp add: nth_append)

lemma ld32_le32_0: "ld32 (le32 v @ q) 0 = v"
  using ld32_le32_at [of 0 "[]"] by simp

lemma st32_at: "off = length p \<Longrightarrow> st32 (p @ le32 v @ q) off w = p @ le32 w @ q"
  by (rule nth_equalityI) (auto simp: nth_st_bytes nth_append)

lemma sint_small: "k \<le> 10000 \<Longrightarrow> sint (of_nat k :: u32) = int k"
  by (simp add: signed_of_nat signed_take_bit_int_eq_self)

lemma packet_message_vns: "packet_message f i = vns_message VNSPACKET (strncpy_bytes 16 i @ f)"
  by (simp add: packet_message_def vns_message_def VNSPACKET_def add.commute)

lemma takeWhile_nul: "0 \<notin> set b \<Longrightarrow> takeWhile (\<lambda>x. x \<noteq> 0) (b @ 0 # r) = (b :: bytes)"
  by (subst takeWhile_append2) auto

lemma c_string_strncpy:
  assumes "CHR 0x00 \<notin> set name" "length name < k"
  shows "c_string (strncpy_bytes k name @ r) = name"
proof -
  have "strncpy_bytes k name @ r = map of_char name @ 0 # (replicate (k - length name - 1) 0 @ r)"
    using assms(2) by (cases "k - length name") (auto simp: strncpy_bytes_def strncpy_id [OF assms(1)])
  moreover have "0 \<notin> set (map of_char name :: bytes)"
    using assms(1) by (auto simp: of_char_eq_0_iff)
  ultimately show ?thesis
    by (simp add: c_string_def takeWhile_nul string_of_of_char)
qed

text \<open>A whole message is read as soon as its bytes arrive, in whatever pieces, and exactly its bytes.\<close>

lemma read_message:
  assumes ok: "reader_ok rd contents intr" and c: "contents s = vns_message cmd body @ rest"
    and len: "8 + length body \<le> 10000"
  shows "\<exists>s'. contents s' = rest \<and> sr_read_from_server_expect env n rd st s ex =
     (if ex \<noteq> 0 \<and> cmd \<noteq> ex \<and> cmd \<noteq> VNSCLOSE then Some (Inr (-1, st, s'))
      else Some (rbind (handle_command env n st cmd (le32 (htonl (of_nat (8 + length body))) @ le32 cmd @ body))
                  (\<lambda>(r, st1). Inr (r, st1, s'))))"
proof -
  let ?l = "le32 (htonl (of_nat (8 + length body)))"
  obtain s1 where s1: "read_bytes rd s 4 [] = Some (Some ?l, s1)" "contents s1 = le32 (htonl cmd) @ body @ rest"
    using read_bytes_ok [OF ok, of "[]" 4 4 s] c by (auto simp: vns_message_def)
  obtain s2 where s2: "read_bytes rd s1 (nat (int (8 + length body)) - 4) [] = Some (Some (le32 (htonl cmd) @ body), s2)"
      "contents s2 = rest"
    using read_bytes_ok [OF ok, of "[]" "4 + length body" "4 + length body" s1] s1(2) by (auto simp: nat_add_distrib)
  have "sint (ntohl (ld32 ?l 0)) = int (8 + length body)"
    using ld32_le32_0 [of _ "[]"] sint_small [OF len] by simp
  with s1(1) s2 len show ?thesis
    by (intro exI [of _ s2]) (simp add: sr_read_from_server_expect_def Let_def ld32_le32_at st32_at)
qed

section \<open>Sessions\<close>

text \<open>What the router does with a sequence of frames, each with the interface it came in on.\<close>

fun handle_frames :: "nat \<Rightarrow> sr_instance \<Rightarrow> (bytes \<times> string) list \<Rightarrow> sr_instance res" where
  "handle_frames n sr [] = Inr sr"
| "handle_frames n sr ((f, i) # fs) =
     rbind (sr_arp_req_not_for_us sr f i) (\<lambda>skip.
     rbind (if skip then Inr sr else sr_handlepacket n (sr_log_packet sr f (length f)) f i) (\<lambda>sr1.
       handle_frames n sr1 fs))"

definition frame_ok :: "bytes \<times> string \<Rightarrow> bool" where
  "frame_ok = (\<lambda>(f, i). length f \<le> 9976 \<and> CHR 0x00 \<notin> set i \<and> length i < 16)"

lemma handle_vnspacket_message:
  assumes "CHR 0x00 \<notin> set i" "length i < 16" "length l = 8"
  shows "handle_vnspacket n sr (l @ strncpy_bytes 16 i @ f) =
    rbind (sr_arp_req_not_for_us sr f i) (\<lambda>skip.
      if skip then Inr sr else sr_handlepacket n (sr_log_packet sr f (length f)) f i)"
proof -
  have "length (strncpy 16 i) < 16" 
    using assms(2) length_takeWhile_le [of "\<lambda>c. c \<noteq> CHR 0x00" i] by (simp add: strncpy_def)
  then have "0 \<in> set (strncpy_bytes 16 i)" by (simp add: strncpy_bytes_def)
  then show ?thesis
    using assms by (simp add: handle_vnspacket_def c_string_strncpy sizeof_c_packet_header_def guard_def)
qed

lemma read_packet:
  assumes "reader_ok rd contents intr" "contents s = packet_message f i @ rest" "frame_ok (f, i)"
  shows "\<exists>s'. contents s' = rest \<and> sr_read_from_server env n rd st s =
    Some (rbind (handle_frames n (vs_sr st) [(f, i)]) (\<lambda>sr. Inr (1, st\<lparr>vs_sr := sr\<rparr>, s')))"
proof -
  let ?l = "le32 (htonl (of_nat (8 + length (strncpy_bytes 16 i @ f)))) @ le32 VNSPACKET"
  obtain s' where s': "contents s' = rest" "sr_read_from_server_expect env n rd st s 0 =
      Some (rbind (handle_command env n st VNSPACKET (?l @ strncpy_bytes 16 i @ f)) (\<lambda>(r, st1). Inr (r, st1, s')))"
    using read_message [OF assms(1), of s VNSPACKET "strncpy_bytes 16 i @ f" rest env n st 0] assms(2,3)
    by (auto simp: packet_message_vns frame_ok_def)
  have "handle_vnspacket n (vs_sr st) (?l @ strncpy_bytes 16 i @ f) = handle_frames n (vs_sr st) [(f, i)]"
    using assms(3) by (subst handle_vnspacket_message) (auto simp: frame_ok_def rbind_def split: sum.splits)
  with s' show ?thesis
    by (intro exI [of _ s'])
      (auto simp: sr_read_from_server_def handle_command_def rbind_def split: sum.splits)
qed

lemma read_close:
  assumes "reader_ok rd contents intr" "contents s = vns_message VNSCLOSE reason @ rest" "length reason \<le> 9992"
  shows "\<exists>s'. contents s' = rest \<and> sr_read_from_server env n rd st s = Some (Inr (0, st, s'))"
  using read_message [OF assms(1,2), of env n st 0] assms(3)
  by (auto simp: sr_read_from_server_def handle_command_def VNSCLOSE_def VNSPACKET_def)

lemma session_served:
  assumes "reader_ok rd contents intr" "length reason \<le> 9992"
  shows "contents s = concat (map (\<lambda>(f, i). packet_message f i) fs) @ vns_message VNSCLOSE reason @ rest \<longrightarrow>
    list_all frame_ok fs \<longrightarrow>
    (\<exists>s'. contents s' = rest \<and> main_loop env n rd st s =
       Some (rbind (handle_frames n (vs_sr st) fs) (\<lambda>sr'. Inr (0, st\<lparr>vs_sr := sr'\<rparr>, s'))))"
proof (induction fs arbitrary: s st)
  case Nil
  then show ?case
    using read_close [OF assms(1) _ assms(2), of s rest env n st] by (subst main_loop.simps) auto
next
  case (Cons p fs)
  obtain f i where p: "p = (f, i)" by (cases p)
  show ?case
  proof (intro impI)
    assume c: "contents s = concat (map (\<lambda>(f, i). packet_message f i) (p # fs)) @ vns_message VNSCLOSE reason @ rest"
      and ok: "list_all frame_ok (p # fs)"
    obtain s1 where s1: "contents s1 = concat (map (\<lambda>(f, i). packet_message f i) fs) @ vns_message VNSCLOSE reason @ rest"
        "sr_read_from_server env n rd st s =
           Some (rbind (handle_frames n (vs_sr st) [(f, i)]) (\<lambda>sr. Inr (1, st\<lparr>vs_sr := sr\<rparr>, s1)))"
      using read_packet [OF assms(1), of s f i _ env n st] c ok p by auto
    have step: "handle_frames n sr (p # fs) = rbind (handle_frames n sr [(f, i)]) (\<lambda>sr1. handle_frames n sr1 fs)" for sr
      by (simp add: p rbind_def split: sum.splits)
    show "\<exists>s'. contents s' = rest \<and> main_loop env n rd st s =
       Some (rbind (handle_frames n (vs_sr st) (p # fs)) (\<lambda>sr'. Inr (0, st\<lparr>vs_sr := sr'\<rparr>, s')))"
    proof (cases "handle_frames n (vs_sr st) [(f, i)]")
      case (Inl e)
      have "\<exists>s'. contents s' = rest" using Cons.IH [of s1 st] s1(1) ok by auto
      then show ?thesis using Inl s1(2) step by (subst main_loop.simps) (auto simp del: handle_frames.simps)
    next
      case (Inr sr1)
      then show ?thesis using Cons.IH [of s1 "st\<lparr>vs_sr := sr1\<rparr>"] s1 step ok
        by (subst main_loop.simps) (auto simp del: handle_frames.simps)
    qed
  qed
qed

lemma read_eof:
  assumes "\<And>k. rd s k = (Got [], s)"
  shows "sr_read_from_server_expect env n rd st s ex = None"
  using read_bytes_eof [of rd s "[]" 4] assms by (simp add: sr_read_from_server_expect_def)

section \<open>Opening the session\<close>

lemma fgets_nonempty: "s \<noteq> [] \<Longrightarrow> fst (fgets (Suc n) s) \<noteq> []"
  by (cases s) (auto split: prod.splits)

lemma AUTH_KEY_LEN_Suc: "AUTH_KEY_LEN = Suc 63"
  by (simp add: AUTH_KEY_LEN_def)

lemma length_auth_key_bytes: "length (auth_key_bytes env line) \<le> 64"
  by (simp add: auth_key_bytes_def AUTH_KEY_LEN_def)

lemma SHA1Result_ok:
  assumes "sha_inv ctx m"
  shows "\<exists>c. SHA1Result ctx = Inr (1, c) \<and> Message_Digest c = digest_list (sha1_spec m)"
  using SHA1PadMessage_ok [OF assms] assms by (auto simp: SHA1Result_def sha_inv_def)

lemma auth_request_answered:
  assumes "auth_file env = Some contents" "contents \<noteq> []" "length (Message_Block (sha_garbage env)) = 64"
    "length l = 8" "length salt \<le> 9992"
    and reply: "reply = auth_reply (sr_user sr) (digest_list (sha1_spec (salt @ auth_key_bytes env (fst (fgets AUTH_KEY_LEN contents)))))"
  shows "sr_handle_auth_request env sr (l @ salt) =
    Inr (if sock_write sr reply = int (length reply) then 1 else 0, sr\<lparr>sock_out := sock_out sr @ [reply]\<rparr>)"
proof -
  let ?line = "fst (fgets AUTH_KEY_LEN contents)"
  have line: "?line \<noteq> []" unfolding AUTH_KEY_LEN_Suc by (rule fgets_nonempty [OF assms(2)])
  have "length (auth_key_bytes env ?line) \<le> 64" by (rule length_auth_key_bytes)
  obtain c1 where c1: "SHA1Input (SHA1Reset (sha_garbage env)) salt = Inr c1" "sha_inv c1 salt"
    using SHA1Input_ok [OF sha_inv_reset [OF assms(3)], of salt] assms(5) by auto
  obtain c2 where c2: "SHA1Input c1 (auth_key_bytes env ?line) = Inr c2" "sha_inv c2 (salt @ auth_key_bytes env ?line)"
    using SHA1Input_ok [OF c1(2), of "auth_key_bytes env ?line"] assms(5) length_auth_key_bytes [of env ?line] by auto
  obtain c3 where "SHA1Result c2 = Inr (1, c3)" "Message_Digest c3 = digest_list (sha1_spec (salt @ auth_key_bytes env ?line))"
    using SHA1Result_ok [OF c2(2)] by blast
  then show ?thesis
    using assms(1,4) line c1(1) c2(1) by (simp add: sr_handle_auth_request_def Let_def reply)
qed

section \<open>Hardware information\<close>

definition hw_entry :: "u32 \<Rightarrow> bytes \<Rightarrow> bytes" where
  "hw_entry key val = le32 (htonl key) @ val @ replicate (32 - length val) 0"

definition interface_entries :: "string \<times> mac \<times> u32 \<Rightarrow> bytes list" where
  "interface_entries = (\<lambda>(name, addr, ip).
     [hw_entry HWINTERFACE (strncpy_bytes 32 name), hw_entry HWETHER (mac_bytes addr), hw_entry HWETHIP (le32 ip)])"

fun handle_entries :: "sr_if \<Rightarrow> sr_instance \<Rightarrow> bytes list \<Rightarrow> sr_instance res" where
  "handle_entries g sr [] = Inr sr"
| "handle_entries g sr (e # es) = rbind (handle_hw_entry g sr e) (\<lambda>sr1. handle_entries g sr1 es)"

lemma handle_entries_append:
  "handle_entries g sr (es @ fs) = rbind (handle_entries g sr es) (\<lambda>sr1. handle_entries g sr1 fs)"
  by (induction g sr es rule: handle_entries.induct) (auto simp: rbind_def split: sum.splits)

lemma hwinfo_loop_entries:
  "drop (8 + 36 * i) hwinfo = concat es \<Longrightarrow> \<forall>e \<in> set es. length e = 36 \<Longrightarrow>
   hwinfo_loop g sr hwinfo i (length es) = handle_entries g sr es"
proof (induction es arbitrary: sr i)
  case (Cons e es)
  then have "bslice hwinfo (8 + 36 * i) 36 = e" by (simp add: bslice_def)
  moreover have "drop (8 + 36 * Suc i) hwinfo = drop 36 (drop (8 + 36 * i) hwinfo)" by (simp add: algebra_simps)
  then have "drop (8 + 36 * Suc i) hwinfo = concat es" using Cons.prems by simp
  ultimately show ?case using Cons by simp
qed simp

lemma length_hw_entry: "length val \<le> 32 \<Longrightarrow> length (hw_entry key val) = 36"
  by (simp add: hw_entry_def)

lemma length_concat_36: "\<forall>e \<in> set es. length e = 36 \<Longrightarrow> length (concat es) = 36 * length es"
  by (induction es) auto

definition new_if :: "sr_if \<Rightarrow> string \<times> mac \<times> u32 \<Rightarrow> sr_if" where
  "new_if g = (\<lambda>(name, addr, ip). g\<lparr>if_name := name, if_addr := addr, if_ip := ip\<rparr>)"

definition name_ok :: "string \<Rightarrow> bool" where
  "name_ok name \<longleftrightarrow> CHR 0x00 \<notin> set name \<and> length name < 32"

lemma handle_interface:
  assumes "name_ok name"
  shows "handle_entries g sr (interface_entries (name, addr, ip)) = Inr (sr\<lparr>if_list := if_list sr @ [new_if g (name, addr, ip)]\<rparr>)"
proof -
  have name: "c_string (strncpy_bytes 32 name) = name" "strncpy 32 name = name"
    using assms c_string_strncpy [of name 32 "[]"] by (auto simp: name_ok_def strncpy_id)
  have 1: "handle_hw_entry g sr (hw_entry HWINTERFACE (strncpy_bytes 32 name))
      = Inr (sr\<lparr>if_list := if_list sr @ [g\<lparr>if_name := name\<rparr>]\<rparr>)"
    using name by (simp add: handle_hw_entry_def dec_hw_entry_def hw_entry_def ld32_le32_0 sr_add_interface_def sr_IFACE_NAMELEN_def Let_def)
  have 2: "handle_hw_entry g (sr\<lparr>if_list := if_list sr @ [j]\<rparr>) (hw_entry HWETHER (mac_bytes addr))
      = Inr (sr\<lparr>if_list := if_list sr @ [j\<lparr>if_addr := addr\<rparr>]\<rparr>)" for j
    by (cases addr) (simp add: handle_hw_entry_def dec_hw_entry_def hw_entry_def ld32_le32_0 HWETHER_def HWINTERFACE_def HWETHIP_def
      sr_set_ether_addr_def guard_def bytes_mac_def)
  have 3: "handle_hw_entry g (sr\<lparr>if_list := if_list sr @ [j]\<rparr>) (hw_entry HWETHIP (le32 ip))
      = Inr (sr\<lparr>if_list := if_list sr @ [j\<lparr>if_ip := ip\<rparr>]\<rparr>)" for j
    by (simp add: handle_hw_entry_def dec_hw_entry_def hw_entry_def ld32_le32_0 HWINTERFACE_def HWETHIP_def sr_set_ether_ip_def guard_def)
  show ?thesis by (simp add: interface_entries_def 1 2 3 new_if_def)
qed

lemma handle_interfaces:
  "list_all (\<lambda>(name, _). name_ok name) ifs \<Longrightarrow>
   handle_entries g sr (concat (map interface_entries ifs)) = Inr (sr\<lparr>if_list := if_list sr @ map (new_if g) ifs\<rparr>)"
proof (induction ifs arbitrary: sr)
  case (Cons p ifs)
  then show ?case by (cases p) (auto simp: handle_entries_append handle_interface)
qed simp

lemma hwinfo_interfaces:
  assumes "list_all (\<lambda>(name, _). name_ok name) ifs" "length ifs \<le> 90" "length l = 4"
  defines "body \<equiv> concat (concat (map interface_entries ifs))"
  shows "sr_handle_hwinfo g sr (le32 (htonl (of_nat (8 + length body))) @ l @ body)
    = Inr (3 * length ifs, sr\<lparr>if_list := if_list sr @ map (new_if g) ifs\<rparr>)"
proof -
  let ?es = "concat (map interface_entries ifs)"
  have es: "\<forall>e \<in> set ?es. length e = 36"
    by (auto simp: interface_entries_def length_hw_entry)
  have n: "length ?es = 3 * length ifs"
    by (induction ifs) (auto simp: interface_entries_def)
  have len: "length body = 36 * (3 * length ifs)"
    unfolding body_def length_concat_36 [OF es] n ..
  have "unat (of_nat (8 + length body) :: u32) = 8 + length body"
    using assms(2) len by (simp only: unsigned_of_nat take_bit_eq_mod) simp
  then have "(unat (ntohl (ld32 (le32 (htonl (of_nat (8 + length body))) @ l @ body) 0)) - 8) div 36 = 3 * length ifs"
    by (simp add: ld32_le32_0 len)
  moreover have "hwinfo_loop g sr (le32 (htonl (of_nat (8 + length body))) @ l @ body) 0 (length ?es) = handle_entries g sr ?es"
    by (rule hwinfo_loop_entries) (use es assms(3) in \<open>simp_all add: body_def\<close>)
  ultimately show ?thesis
    using handle_interfaces [OF assms(1), of g sr] n by (simp add: sr_handle_hwinfo_def Let_def)
qed


text \<open>
  C26: on a connection the server has closed, where every read returns no bytes, the main loop never returns:
  the loops that collect the length of a command do not treat a read of 0 bytes as end of file.
\<close>

theorem vns_eof_never_returns:
  assumes "\<And>k. rd s k = (Got [], s)"
  shows "main_loop env n rd st s = None"
  using read_eof [of rd s env n st 0] assms by (subst main_loop.simps) (simp add: sr_read_from_server_def)

text \<open>
  Opening a session succeeds when the server asks for authentication and accepts it: the router answers the
  salt with a reply that carries its user name and the SHA-1 digest of the salt followed by the 64 bytes
  of its key, then sends the message that opens the topology, and nothing else.
\<close>

lemma session_opened:
  assumes "reader_ok rd contents intr"
    and "contents s = vns_message VNS_AUTH_REQUEST salt @ vns_message VNS_AUTH_STATUS (auth_ok # msg) @ rest"
    and "length salt \<le> 9992" "length msg < 9992" "auth_ok \<noteq> 0"
    and "auth_file env = Some key" "key \<noteq> []" "length (Message_Block (sha_garbage env)) = 64"
    and "\<And>b. sock_write (vs_sr st) b = int (length b)" "sr_template (vs_sr st) = []"
  shows "\<exists>s'. contents s' = rest \<and> sr_connect_to_server env n rd True True True st s =
    Some (Inr (0, st\<lparr>vs_sr := (vs_sr st)\<lparr>sock_out := sock_out (vs_sr st) @
      [auth_reply (sr_user (vs_sr st)) (digest_list (sha1_spec (salt @ auth_key_bytes env (fst (fgets AUTH_KEY_LEN key))))),
       open_message (vs_sr st)]\<rparr>\<rparr>, s'))"
proof -
  define reply where "reply = auth_reply (sr_user (vs_sr st))
    (digest_list (sha1_spec (salt @ auth_key_bytes env (fst (fgets AUTH_KEY_LEN key)))))"
  define st1 where "st1 = st\<lparr>vs_sr := (vs_sr st)\<lparr>sock_out := sock_out (vs_sr st) @ [reply]\<rparr>\<rparr>"
  have cmds: "VNS_AUTH_REQUEST \<noteq> VNSPACKET" "VNS_AUTH_REQUEST \<noteq> VNSCLOSE" "VNS_AUTH_REQUEST \<noteq> VNSBANNER"
    "VNS_AUTH_REQUEST \<noteq> VNSHWINFO" "VNS_AUTH_REQUEST \<noteq> VNS_RTABLE"
    "VNS_AUTH_STATUS \<noteq> VNSPACKET" "VNS_AUTH_STATUS \<noteq> VNSCLOSE" "VNS_AUTH_STATUS \<noteq> VNSBANNER"
    "VNS_AUTH_STATUS \<noteq> VNSHWINFO" "VNS_AUTH_STATUS \<noteq> VNS_RTABLE" "VNS_AUTH_STATUS \<noteq> VNS_AUTH_REQUEST"
    by (simp_all add: VNSPACKET_def VNSCLOSE_def VNSBANNER_def VNSHWINFO_def VNS_RTABLE_def VNS_AUTH_REQUEST_def
        VNS_AUTH_STATUS_def)
  have "sr_handle_auth_request env (vs_sr st) (l @ salt) =
      Inr (1, (vs_sr st)\<lparr>sock_out := sock_out (vs_sr st) @ [reply]\<rparr>)" if "length l = 8" for l
    using auth_request_answered [OF assms(6-8) that assms(3) reply_def] assms(9) by simp
  from this [of "le32 (htonl (of_nat (8 + length salt))) @ le32 VNS_AUTH_REQUEST"]
  obtain s1 where s1: "sr_read_from_server_expect env n rd st s VNS_AUTH_REQUEST = Some (Inr (1, st1, s1))"
      "contents s1 = vns_message VNS_AUTH_STATUS (auth_ok # msg) @ rest"
    using read_message [OF assms(1,2), of env n st VNS_AUTH_REQUEST] assms(3) cmds
    by (auto simp: handle_command_def st1_def)
  have "sr_handle_auth_status (l @ auth_ok # msg) = Inr (uint auth_ok)" if "length l = 8" for l
    using that by (simp add: sr_handle_auth_status_def guard_def nth_append)
  from this [of "le32 (htonl (of_nat (8 + length (auth_ok # msg)))) @ le32 VNS_AUTH_STATUS"]
  obtain s2 where s2: "sr_read_from_server_expect env n rd st1 s1 VNS_AUTH_STATUS = Some (Inr (1, st1, s2))"
      "contents s2 = rest"
    using read_message [OF assms(1) s1(2), of env n st1 VNS_AUTH_STATUS] assms(4,5) cmds
    by (auto simp: handle_command_def uint_0_iff)
  have "open_message (vs_sr st1) = open_message (vs_sr st)" by (simp add: st1_def open_message_def)
  with s1(1) s2 assms(9,10) show ?thesis
    by (intro exI [of _ s2]) (simp add: sr_connect_to_server_def expect_then_def st1_def reply_def Let_def)
qed

text \<open>
  A VNSHWINFO message that lists interfaces by name, hardware address and IP address adds exactly these
  interfaces, in order, to the interface list of the router; the read fails exactly when the routing
  table then names an unknown interface.
\<close>

lemma hwinfo_registers:
  assumes "reader_ok rd contents intr" "list_all (\<lambda>(name, _). name_ok name) ifs" "length ifs \<le> 90"
    and "contents s = vns_message VNSHWINFO (concat (concat (map interface_entries ifs))) @ rest"
    and sr': "sr' = (vs_sr st)\<lparr>if_list := if_list (vs_sr st) @ map (new_if (if_garbage env)) ifs\<rparr>"
  shows "\<exists>s'. contents s' = rest \<and> sr_read_from_server env n rd st s =
    Some (Inr (if sr_verify_routing_table sr' = 0 then 1 else -1, st\<lparr>vs_sr := sr'\<rparr>, s'))"
proof -
  define body where "body = concat (concat (map interface_entries ifs))"
  have "length body = 108 * length ifs"
    unfolding body_def by (induction ifs) (auto simp: interface_entries_def length_hw_entry)
  then have "8 + length body \<le> 10000" using assms(3) by simp
  then obtain s' where "contents s' = rest" "sr_read_from_server_expect env n rd st s 0 =
      Some (rbind (handle_command env n st VNSHWINFO (le32 (htonl (of_nat (8 + length body))) @ le32 VNSHWINFO @ body))
        (\<lambda>(r, st1). Inr (r, st1, s')))"
    using read_message [OF assms(1), of s VNSHWINFO body rest env n st 0] assms(4)
    by (auto simp: body_def)
  moreover have "sr_handle_hwinfo (if_garbage env) (vs_sr st) (le32 (htonl (of_nat (8 + length body))) @ le32 VNSHWINFO @ body)
      = Inr (3 * length ifs, sr')"
    using hwinfo_interfaces [OF assms(2,3), of "le32 VNSHWINFO" "if_garbage env" "vs_sr st"]
    by (simp add: body_def sr')
  ultimately show ?thesis
    by (intro exI [of _ s']) (simp add: sr_read_from_server_def handle_command_def VNSHWINFO_def VNSPACKET_def
        VNSCLOSE_def VNSBANNER_def)
qed

end
