(* ===== verification/Sr_Arpcache_Inv.thy ===== *)
theory Sr_Arpcache_Inv
  imports Sr_Arpcache
begin

text \<open>
  The invariant of the ARP cache and of what the router has put on the wire, the contract of
  \<^verbatim>\<open>sr_arpcache_handle_arpreq\<close> as a locale, and its interpretation on the model of that function.
\<close>

section \<open>Invariants\<close>

definition pkt_ok :: "sr_if list \<Rightarrow> sr_packet \<Rightarrow> bool" where
  "pkt_ok is p \<longleftrightarrow> frame_ok (pk_buf p) \<and> sendable is (pk_buf p) (pk_iface p)"

definition req_ok :: "sr_if list \<Rightarrow> sr_arpreq \<Rightarrow> bool" where
  "req_ok is r \<longleftrightarrow> rq_packets r \<noteq> [] \<and> (\<forall>p \<in> set (rq_packets r). pkt_ok is p)"

text \<open>
  The queue lists exactly the allocated requests, no two for the same address; every request has
  packets waiting, each a well-formed IP frame for an existing interface; the table has its size.
\<close>

definition store_ok :: "sr_if list \<Rightarrow> sr_arpcache \<Rightarrow> bool" where
  "store_ok is c \<longleftrightarrow>
     (\<forall>a r. req_store c a = Some r \<longrightarrow> a < req_fresh c \<and> req_ok is r)
     \<and> (\<forall>a b r s. req_store c a = Some r \<and> req_store c b = Some s \<and> rq_ip r = rq_ip s \<longrightarrow> a = b)"

definition arp_inv :: "sr_if list \<Rightarrow> sr_arpcache \<Rightarrow> bool" where
  "arp_inv is c \<longleftrightarrow> length (entries c) = SR_ARPCACHE_SZ \<and> distinct (requests c)
     \<and> set (requests c) = dom (req_store c) \<and> store_ok is c"

definition good_msg :: "sr_if list \<Rightarrow> bytes \<Rightarrow> bool" where
  "good_msg is msg \<longleftrightarrow> (\<exists>f i. msg = packet_message f i \<and> sendable is f i
     \<and> (frame_ok f \<or> ether_type (ld_struct 14 dec_ether f 0) = htons ethertype_arp))"

definition evolves :: "sr_instance \<Rightarrow> sr_instance \<Rightarrow> bool" where
  "evolves sr sr' \<longleftrightarrow> if_list sr' = if_list sr \<and> routing_table sr' = routing_table sr
     \<and> (\<exists>out. sock_out sr' = sock_out sr @ out \<and> (\<forall>m \<in> set out. good_msg (if_list sr) m)
          \<and> logged (map wire_frame out) (logfile sr) (logfile sr'))"

definition routed :: "sr_instance \<Rightarrow> bool" where
  "routed sr \<longleftrightarrow> sr_verify_routing_table sr = 0
     \<and> (\<forall>ip. sr_findLPMentry (routing_table sr) ip \<noteq> None)"

lemma evolves_refl [simp, intro]: "evolves sr sr"
  by (simp add: evolves_def)

lemma evolves_trans [trans]: "evolves sr sr1 \<Longrightarrow> evolves sr1 sr2 \<Longrightarrow> evolves sr sr2"
  unfolding evolves_def by (auto intro: logged_trans)

lemma evolves_cache [simp]: "evolves sr (sr1\<lparr>cache := c\<rparr>) = evolves sr sr1"
  "evolves (sr\<lparr>cache := c\<rparr>) sr1 = evolves sr sr1"
  by (simp_all add: evolves_def)

lemma evolves_ticks [simp]: "evolves sr (sr1\<lparr>ticks := n\<rparr>) = evolves sr sr1"
  "evolves (sr\<lparr>ticks := n\<rparr>) sr1 = evolves sr sr1"
  by (simp_all add: evolves_def)

lemma evolves_env:
  "evolves sr sr1 \<Longrightarrow> if_list sr1 = if_list sr \<and> routing_table sr1 = routing_table sr"
  by (simp add: evolves_def)

lemma evolves_send:
  "frame_ok f \<or> ether_type (ld_struct 14 dec_ether f 0) = htons ethertype_arp \<Longrightarrow>
   evolves sr (snd (sr_send_packet sr f i))"
  using logged_send [of sr f i] by (auto simp: evolves_def sock_out_send good_msg_def)

lemma routed_cong:
  "if_list sr1 = if_list sr \<Longrightarrow> routing_table sr1 = routing_table sr \<Longrightarrow> routed sr1 = routed sr"
  by (simp add: routed_def sr_verify_routing_table_def)

lemma routed_evolves: "evolves sr sr1 \<Longrightarrow> routed sr \<Longrightarrow> routed sr1"
  using routed_cong [of sr1 sr] by (simp add: evolves_def)

lemma routedE:
  assumes "routed sr"
  obtains rt i where "sr_findLPMentry (routing_table sr) ip = Some rt"
    "sr_get_interface sr (rt_interface rt) = Some i"
proof -
  from assms obtain rt where rt: "sr_findLPMentry (routing_table sr) ip = Some rt"
    by (auto simp: routed_def)
  moreover from assms rt have "sr_get_interface sr (rt_interface rt) \<noteq> None"
    using findLPM_in_table [OF rt] by (simp add: routed_def sr_verify_routing_table_0_iff)
  ultimately show ?thesis using that by blast
qed

section \<open>The queue operations keep the invariant\<close>

lemma find_req_cases:
  assumes "set as \<subseteq> dom (req_store c)"
  shows "(\<exists>a r. find_req c as ip = Inr (Some a) \<and> a \<in> set as \<and> req_store c a = Some r \<and> rq_ip r = ip)
    \<or> find_req c as ip = Inr None \<and> (\<forall>a \<in> set as. \<forall>r. req_store c a = Some r \<longrightarrow> rq_ip r \<noteq> ip)"
proof (use assms in \<open>induction as\<close>)
  case (Cons a as)
  then obtain y where "req_store c a = Some y" by auto
  with Cons show ?case by (cases "rq_ip y = ip") (auto simp: get_req_def)
qed simp

lemma find_if_strncpy [simp]: "find_if is (strncpy sr_IFACE_NAMELEN n) = find_if is n"
  by (induction "is") auto

lemma sendable_strncpy [simp]: "sendable is f (strncpy sr_IFACE_NAMELEN n) = sendable is f n"
  by (simp add: sendable_def)

lemma sendableI:
  "14 \<le> length f \<Longrightarrow> find_if is i = Some ifc \<Longrightarrow>
   ether_shost (ld_struct 14 dec_ether f 0) = if_addr ifc \<Longrightarrow> sendable is f i"
  by (simp add: sendable_def)

lemma sendable_set_shost:
  "14 \<le> length f \<Longrightarrow> find_if is i = Some ifc \<Longrightarrow> sendable is (set_shost f (if_addr ifc)) i"
  by (simp add: sendable_def set_shost_ld)

lemma frame_ok_length: "frame_ok f \<Longrightarrow> 14 \<le> length f"
  by (simp add: frame_ok_def)

lemma queuereq_spec:
  assumes inv: "arp_inv is c" and f: "frame_ok f" "sendable is f iface"
  obtains a r c' where "sr_arpcache_queuereq c ip f iface = Inr (a, c')" "arp_inv is c'"
    "req_store c' a = Some r" "rq_ip r = ip" "entries c' = entries c"
    "rq_packets r = \<lparr>pk_buf = f, pk_iface = strncpy sr_IFACE_NAMELEN iface\<rparr>
        # (case req_store c a of None \<Rightarrow> [] | Some r0 \<Rightarrow> rq_packets r0)"
    "\<forall>b. b \<noteq> a \<longrightarrow> req_store c' b = req_store c b"
    "rq_times_sent r = (case req_store c a of None \<Rightarrow> 0 | Some r0 \<Rightarrow> rq_times_sent r0)"
proof -
  let ?p = "\<lparr>pk_buf = f, pk_iface = strncpy sr_IFACE_NAMELEN iface\<rparr>"
  have ne: "f \<noteq> []" using f by (auto simp: frame_ok_def)
  have p: "pkt_ok is ?p" using f by (simp add: pkt_ok_def)
  have dom: "set (requests c) = dom (req_store c)" using inv by (simp add: arp_inv_def)
  from find_req_cases [of "requests c" c ip, OF equalityD1 [OF dom]] show ?thesis
  proof (elim disjE exE conjE)
    fix a r assume a: "find_req c (requests c) ip = Inr (Some a)" "req_store c a = Some r" "rq_ip r = ip"
    show ?thesis
    proof (rule that [where r = "r\<lparr>rq_packets := ?p # rq_packets r\<rparr>"])
      show "sr_arpcache_queuereq c ip f iface = Inr (a, c\<lparr>req_store := (req_store c)(a \<mapsto>
          r\<lparr>rq_packets := ?p # rq_packets r\<rparr>)\<rparr>)"
        using a ne by (simp add: sr_arpcache_queuereq_def add_packet_def get_req_def)
      show "arp_inv is (c\<lparr>req_store := (req_store c)(a \<mapsto> r\<lparr>rq_packets := ?p # rq_packets r\<rparr>)\<rparr>)"
        using inv a p by (auto simp: arp_inv_def store_ok_def req_ok_def)
    qed (use a in auto)
  next
    assume n: "find_req c (requests c) ip = Inr None"
      and fresh: "\<forall>a \<in> set (requests c). \<forall>r. req_store c a = Some r \<longrightarrow> rq_ip r \<noteq> ip"
    define a where "a = req_fresh c"
    define r where "r = \<lparr>rq_ip = ip, rq_sent = 0, rq_times_sent = 0, rq_packets = [?p]\<rparr>"
    have nf: "req_store c a = None"
      using inv by (auto simp: arp_inv_def store_ok_def a_def)
    show ?thesis
    proof (rule that [where r = r])
      show "sr_arpcache_queuereq c ip f iface = Inr (a, c\<lparr>requests := a # requests c,
          req_store := (req_store c)(a \<mapsto> r), req_fresh := Suc a\<rparr>)"
        using n ne by (simp add: sr_arpcache_queuereq_def new_req_def add_packet_def get_req_def
            a_def r_def Let_def)
      show "arp_inv is (c\<lparr>requests := a # requests c, req_store := (req_store c)(a \<mapsto> r),
          req_fresh := Suc a\<rparr>)"
        using inv nf fresh p unfolding arp_inv_def store_ok_def a_def
        by (auto simp: req_ok_def r_def less_Suc_eq)
    qed (use nf in \<open>auto simp: r_def\<close>)
  qed
qed

lemma destroy_inv:
  assumes "arp_inv is c" "sr_arpreq_destroy c a = Inr c'"
  shows "arp_inv is c' \<and> a \<notin> set (requests c')"
  using assms
  by (auto simp: sr_arpreq_destroy_def arp_inv_def store_ok_def res_simps get_req_def set_remove1_eq
      split: option.splits if_splits)

lemma get_req_fault: "get_req c a = Inl e \<Longrightarrow> e = UseAfterFree"
  by (simp add: get_req_def split: option.splits)

section \<open>The contract of the request handler\<close>

abbreviation sr_ok :: "sr_instance \<Rightarrow> bool" where
  "sr_ok sr \<equiv> arp_inv (if_list sr) (cache sr)"

text \<open>The faults that remain possible when every address has a route to an existing interface.\<close>

definition mem_fault :: "fault \<Rightarrow> bool" where
  "mem_fault e \<longleftrightarrow> e = OutOfBounds \<or> e = UseAfterFree \<or> e = OutOfFuel"

lemma mem_fault_simps [simp]:
  "mem_fault OutOfBounds" "mem_fault UseAfterFree" "mem_fault OutOfFuel"
  "\<not> mem_fault NullDeref" "\<not> mem_fault AssertFailed"
  by (simp_all add: mem_fault_def)

text \<open>
  \<open>keeps sr r\<close>: the result \<open>r\<close> of an operation started in \<open>sr\<close> is a good successor state, or a
  memory fault, or (without a complete routing table) any fault.
\<close>

definition keeps :: "sr_instance \<Rightarrow> sr_instance res \<Rightarrow> bool" where
  "keeps sr r \<longleftrightarrow> (case r of Inr sr' \<Rightarrow> sr_ok sr' \<and> evolves sr sr' | Inl e \<Rightarrow> routed sr \<longrightarrow> mem_fault e)"

lemma keeps_Inr [simp]: "keeps sr (Inr sr') \<longleftrightarrow> sr_ok sr' \<and> evolves sr sr'"
  by (simp add: keeps_def)

lemma keeps_Inl [simp]: "keeps sr (Inl e) \<longleftrightarrow> (routed sr \<longrightarrow> mem_fault e)"
  by (simp add: keeps_def)

lemma keeps_cong:
  "if_list sr1 = if_list sr \<Longrightarrow> routing_table sr1 = routing_table sr \<Longrightarrow> sock_out sr1 = sock_out sr \<Longrightarrow>
   logfile sr1 = logfile sr \<Longrightarrow> keeps sr1 r = keeps sr r"
  using routed_cong [of sr1 sr] by (simp add: keeps_def evolves_def split: sum.splits)

lemma keeps_update [simp]:
  "keeps (sr\<lparr>cache := c\<rparr>) r = keeps sr r" "keeps (sr\<lparr>ticks := n\<rparr>) r = keeps sr r"
  by (rule keeps_cong; simp)+

lemma keeps_trans: "evolves sr sr1 \<Longrightarrow> keeps sr1 r \<Longrightarrow> keeps sr r"
  by (auto simp: keeps_def intro: evolves_trans routed_evolves split: sum.splits)

lemma keeps_rbind:
  "keeps sr r \<Longrightarrow> (\<And>sr1. r = Inr sr1 \<Longrightarrow> sr_ok sr1 \<Longrightarrow> evolves sr sr1 \<Longrightarrow> keeps sr1 (f sr1)) \<Longrightarrow>
   keeps sr (rbind r f)"
  by (cases r) (auto intro: keeps_trans)

lemma keeps_guard: "mem_fault e \<Longrightarrow> (b \<Longrightarrow> keeps sr (f ())) \<Longrightarrow> keeps sr (rbind (guard e b) f)"
  by (cases b) auto

lemma keeps_get_req: "(\<And>r. req_store c a = Some r \<Longrightarrow> keeps sr (f r)) \<Longrightarrow> keeps sr (rbind (get_req c a) f)"
  by (cases "req_store c a") (auto simp: get_req_def)

lemma keeps_route:
  "(\<And>rt. sr_findLPMentry (routing_table sr) ip = Some rt \<Longrightarrow> keeps sr (f rt)) \<Longrightarrow>
   keeps sr (rbind (deref (sr_findLPMentry (routing_table sr) ip)) f)"
  by (cases "sr_findLPMentry (routing_table sr) ip") (auto simp: routed_def)

lemma keeps_route_iface:
  "sr_findLPMentry (routing_table sr) ip = Some rt \<Longrightarrow>
   (\<And>i. find_if (if_list sr) (rt_interface rt) = Some i \<Longrightarrow> keeps sr (f i)) \<Longrightarrow>
   keeps sr (rbind (deref (sr_get_interface sr (rt_interface rt))) f)"
  by (cases "sr_get_interface sr (rt_interface rt)")
    (auto simp: sr_get_interface_def elim: routedE [where ip = ip])

lemma keeps_destroy:
  assumes "sr_ok sr"
  shows "keeps sr (rbind (sr_arpreq_destroy (cache sr) a) (\<lambda>c. Inr (sr\<lparr>cache := c\<rparr>)))"
  using assms destroy_inv [OF assms, of a]
  by (cases "sr_arpreq_destroy (cache sr) a") (auto simp: sr_arpreq_destroy_def get_req_def
      split: option.splits)

lemma keeps_send:
  "sr_ok sr \<Longrightarrow> frame_ok f \<or> ether_type (ld_struct 14 dec_ether f 0) = htons ethertype_arp \<Longrightarrow>
   keeps sr (Inr (snd (sr_send_packet sr f i)))"
  by (simp add: evolves_send)

locale arp_handler =
  fixes handle :: "sr_instance \<Rightarrow> req_addr \<Rightarrow> sr_instance res"
  assumes handle_keeps: "sr_ok sr \<Longrightarrow> keeps sr (handle sr a)"
begin

lemma queue_keeps:
  assumes "sr_ok sr" "frame_ok f" "sendable (if_list sr) f iface"
  shows "keeps sr (rbind (sr_arpcache_queuereq (cache sr) ip f iface) (\<lambda>(b, c). handle (sr\<lparr>cache := c\<rparr>) b))"
proof -
  obtain a r c' where "sr_arpcache_queuereq (cache sr) ip f iface = Inr (a, c')" "arp_inv (if_list sr) c'"
    using queuereq_spec [OF assms] by metis
  with handle_keeps [of "sr\<lparr>cache := c'\<rparr>" a] show ?thesis by simp
qed

lemma send_or_queue_keeps:
  assumes "sr_ok sr" "frame_ok f" "sendable (if_list sr) f (rt_interface rt)"
  shows "keeps sr (send_or_queue handle sr f rt)"
  using assms queue_keeps [OF assms, of "rt_gw rt"]
  by (auto simp: send_or_queue_def evolves_send split: option.split)

lemma host_unreachable_keeps: "sr_ok sr \<Longrightarrow> keeps sr (host_unreachable handle sr ip p)"
  unfolding host_unreachable_def Let_def
  by (intro keeps_route keeps_route_iface keeps_guard send_or_queue_keeps)
    (auto simp: sizeof_defs ICMP_DATA_SIZE_def mk_icmp_t3_headers intro!: sendableI)

lemma unreach_loop_keeps: "sr_ok sr \<Longrightarrow> keeps sr (unreach_loop handle sr a ip ps)"
  by (induction ps arbitrary: sr)
    (auto intro!: keeps_rbind host_unreachable_keeps keeps_get_req)

end

section \<open>The request handler meets the contract\<close>

lemma length_mk_arp [simp]: "length (mk_arp opc sha sip tha tip shost dhost) = 42"
  by (simp add: mk_arp_def Let_def sizeof_defs)

lemma ether_mk_arp [simp]:
  "ld_struct 14 dec_ether (mk_arp opc sha sip tha tip shost dhost) 0 =
     \<lparr>ether_dhost = dhost, ether_shost = shost, ether_type = htons ethertype_arp\<rparr>"
  by (simp add: mk_arp_def Let_def sizeof_defs ether.ld_st_same)

lemma send_arp_request_keeps:
  assumes "sr_ok sr" "req_store (cache sr) a = Some req"
  shows "keeps sr (send_arp_request sr a req)"
proof -
  from assms have ok: "req_ok (if_list sr) req" "a < req_fresh (cache sr)"
    by (auto simp: arp_inv_def store_ok_def)
  then obtain p ps where p: "rq_packets req = p # ps" "frame_ok (pk_buf p)"
    and i: "find_if (if_list sr) (pk_iface p) \<noteq> None"
    by (cases "rq_packets req") (auto simp: req_ok_def pkt_ok_def sendable_def)
  from i obtain ifc where ifc: "sr_get_interface sr (pk_iface p) = Some ifc"
    by (auto simp: sr_get_interface_def)
  have upd: "arp_inv (if_list sr) ((cache sr)\<lparr>req_store := (req_store (cache sr))(a \<mapsto>
      req\<lparr>rq_sent := now, rq_times_sent := k\<rparr>)\<rparr>)" for now k
    using assms ok unfolding arp_inv_def store_ok_def by (auto simp: req_ok_def)
  show ?thesis
    using p ifc unfolding send_arp_request_def Let_def
    by (auto intro!: keeps_guard keeps_route simp: upd evolves_send sr_time_def)
qed

lemma handle_step:
  assumes "arp_handler (sr_arpcache_handle_arpreq n)"
  shows "arp_handler (sr_arpcache_handle_arpreq (Suc n))"
proof
  fix sr a assume "sr_ok sr"
  moreover define sr1 where "sr1 = snd (sr_time sr)"
  ultimately have ok: "sr_ok sr1" by (simp add: sr_time_def)
  have "keeps sr1 (rbind (unreach_loop (sr_arpcache_handle_arpreq n) sr1 a (rq_ip req) (rq_packets req))
      (\<lambda>sr2. rbind (sr_arpreq_destroy (cache sr2) a) (\<lambda>c. Inr (sr2\<lparr>cache := c\<rparr>))))" for req
    by (intro keeps_rbind arp_handler.unreach_loop_keeps [OF assms] ok keeps_destroy)
  moreover have "keeps sr1 (send_arp_request sr1 a req)" if "req_store (cache sr1) a = Some req" for req
    using send_arp_request_keeps [OF ok that] .
  ultimately have "keeps sr1 (sr_arpcache_handle_arpreq (Suc n) sr a)"
    using ok by (auto simp: sr_time_def sr1_def intro!: keeps_get_req)
  then show "keeps sr (sr_arpcache_handle_arpreq (Suc n) sr a)"
    by (simp add: sr1_def sr_time_def)
qed

lemma handle_arp_handler: "arp_handler (sr_arpcache_handle_arpreq n)"
proof (induction n)
  case 0
  show ?case by unfold_locales simp
qed (rule handle_step)

interpretation arpreq: arp_handler "sr_arpcache_handle_arpreq n" for n
  by (rule handle_arp_handler)

section \<open>The periodic sweep\<close>

lemma sweep_loop_keeps: "sr_ok sr \<Longrightarrow> keeps sr (sweep_loop n m sr a)"
proof (induction n m sr a rule: sweep_loop.induct)
  case (3 n m sr a)
  then show ?case
    by (auto intro!: keeps_get_req keeps_rbind arpreq.handle_keeps)
qed auto

lemma arp_inv_expire [simp]:
  "arp_inv is (c\<lparr>entries := map (expire_entry now) (entries c)\<rparr>) = arp_inv is c"
  by (simp add: arp_inv_def store_ok_def)

lemma timeout_keeps: "sr_ok sr \<Longrightarrow> keeps sr (sr_arpcache_timeout n sr)"
  using sweep_loop_keeps [of "snd (sr_time sr)\<lparr>cache := (cache sr)\<lparr>entries :=
      map (expire_entry (fst (sr_time sr))) (entries (cache sr))\<rparr>\<rparr>"]
  by (simp add: sr_arpcache_timeout_def sr_arpcache_sweepreqs_def sr_time_def)

end
