(* ===== verification/Sr_Router_Inv.thy ===== *)
theory Sr_Router_Inv
  imports Sr_Router Sr_Arpcache_Inv
begin

text \<open>
  The packet handler keeps the invariants of the router: every branch of \<^verbatim>\<open>sr_handlepacket\<close> and
  every round of the timeout thread, hence every state the router reaches from \<^verbatim>\<open>sr_init\<close>.
\<close>

section \<open>The validation of an IP frame\<close>

definition ip_valid :: "bytes \<Rightarrow> bool" where
  "ip_valid packet \<longleftrightarrow> 34 \<le> length packet \<and> ip_v (ld_struct 20 dec_ip packet 14) = 4
     \<and> ip_cksum_ok packet \<and> ip_sum (ld_struct 20 dec_ip packet 14) \<noteq> 0"

lemma ip_sum_ld: "34 \<le> length packet \<Longrightarrow> ip_sum (ld_struct 20 dec_ip packet 14) = ld16 (bslice packet 14 20) 10"
  by (simp add: ld_struct_def dec_ip_def)

lemma ip_cksum_check:
  assumes "34 \<le> length packet"
  defines "h \<equiv> ld_struct 20 dec_ip packet 14"
  shows "ip_sum h = cksum (bslice (st_bytes packet 14 (enc_ip (h\<lparr>ip_sum := 0\<rparr>))) 14 20)
     \<longleftrightarrow> ip_cksum_ok packet \<and> ip_sum h \<noteq> 0"
proof -
  have "bslice (st_bytes packet 14 (enc_ip (h\<lparr>ip_sum := 0\<rparr>))) 14 20 = st16 (bslice packet 14 20) 10 0"
    using assms(1) by (simp add: bslice_st_bytes_same enc_ip_sum h_def iphdr.enc_ld)
  then show ?thesis
    using cksum_field_iff [of 10 "bslice packet 14 20"] assms(1)
    by (simp add: h_def ip_sum_ld ip_cksum_ok_def)
qed

lemma handle_ip_eq:
  "handle_ip n sr packet =
     (if ip_valid packet \<and> \<not> ip_black_list (ld_struct 20 dec_ip packet 14) then
        if \<exists>i \<in> set (if_list sr). if_ip i = ip_dst (ld_struct 20 dec_ip packet 14)
        then handle_for_me n sr packet else handle_forward n sr packet
      else Inr sr)"
proof (cases "34 \<le> length packet")
  case True
  then have len: "\<not> length packet - sizeof_ethernet_hdr < sizeof_ip_hdr"
    by (simp add: sizeof_defs)
  have find: "(\<exists>i \<in> set is. if_ip i = d) \<longleftrightarrow> (\<exists>i. find (\<lambda>i. d = if_ip i) is = Some i)" for d "is"
    by (induction "is") auto
  show ?thesis
    using len True ip_cksum_check [OF True] unfolding find
    by (auto simp: handle_ip_def Let_def ip_valid_def sizeof_ip_hdr_def st_bytes_same iphdr.st_ld_id
        split: option.split)
qed (auto simp: handle_ip_def ip_valid_def sizeof_defs)

section \<open>Every branch keeps the invariant\<close>

lemma frame_ok_ip_valid:
  "ip_valid packet \<Longrightarrow> ether_type (ld_struct 14 dec_ether packet 0) = htons ethertype_ip \<Longrightarrow> frame_ok packet"
  by (simp add: frame_ok_def ip_valid_def)

lemma frame_ok_rewrite_ip: "frame_ok f \<Longrightarrow> frame_ok (set_ip_cksum (st_bytes f 14 (enc_ip h)))"
  by (simp add: frame_ok_def ether.ld_st_other ip_cksum_ok_set_ip_cksum)

lemma frame_ok_dec_ttl: "frame_ok f \<Longrightarrow> frame_ok (dec_ttl f)"
  by (simp add: dec_ttl_def Let_def frame_ok_rewrite_ip)

lemma icmp_error_keeps:
  "sr_ok sr \<Longrightarrow> 42 \<le> length packet \<Longrightarrow> 70 \<le> new_len \<Longrightarrow> new_len \<le> 65535 \<Longrightarrow>
   keeps sr (send_icmp_error n sr packet new_len ty code)"
  unfolding send_icmp_error_def Let_def
  by (intro keeps_route keeps_route_iface arpreq.send_or_queue_keeps)
    (auto simp: ICMP_DATA_SIZE_def mk_icmp_t3_headers intro!: sendableI)

lemma port_unreachable_keeps: "sr_ok sr \<Longrightarrow> keeps sr (port_unreachable n sr packet)"
  by (auto simp: port_unreachable_def sizeof_defs ICMP_DATA_SIZE_def intro!: icmp_error_keeps)

lemma time_exceeded_keeps: "sr_ok sr \<Longrightarrow> keeps sr (time_exceeded n sr packet)"
  by (auto simp: time_exceeded_def sizeof_defs ICMP_DATA_SIZE_def intro!: icmp_error_keeps)

lemma net_unreachable_keeps: "sr_ok sr \<Longrightarrow> keeps sr (net_unreachable n sr packet)"
  by (auto simp: net_unreachable_def sizeof_defs ICMP_DATA_SIZE_def Let_def intro!: icmp_error_keeps)

text \<open>The frame the echo branch sends, before its destination address is filled in.\<close>

definition echo_reply :: "bytes \<Rightarrow> mac \<Rightarrow> bytes" where
  "echo_reply packet m =
     (let h = ld_struct 20 dec_ip packet 14; ic = ld_struct 4 dec_icmp packet 34;
          p2 = set_ip_cksum (st_bytes packet 14 (enc_ip (h\<lparr>ip_ttl := INIT_TTL, ip_src := ip_dst h, ip_dst := ip_src h\<rparr>)));
          p3 = st_bytes p2 34 (enc_icmp (ic\<lparr>icmp_type := 0, icmp_sum := 0\<rparr>))
      in set_shost (st_bytes p3 34 (enc_icmp (ic\<lparr>icmp_type := 0, icmp_sum := cksum (drop 34 p3)\<rparr>))) m)"

lemma icmp_sum_ld:
  "38 \<le> length packet \<Longrightarrow> icmp_sum (ld_struct 4 dec_icmp packet 34) = ld16 (drop 34 packet) 2"
  by (simp add: ld_struct_def dec_icmp_def ld16_def)

lemma icmp_cksum_check:
  assumes "38 \<le> length packet" "length packet \<le> 131104"
  defines "h \<equiv> ld_struct 4 dec_icmp packet 34"
  shows "icmp_sum h = cksum (bslice (st_bytes packet 34 (enc_icmp (h\<lparr>icmp_sum := 0\<rparr>))) 34 (length packet - 34))
     \<longleftrightarrow> icmp_cksum_ok packet \<and> icmp_sum h \<noteq> 0"
proof -
  have "st_bytes packet 34 (enc_icmp (h\<lparr>icmp_sum := 0\<rparr>)) = st16 packet 36 0"
    using assms(1) by (simp add: st_enc_icmp_sum h_def icmphdr.st_ld_id)
  then have "bslice (st_bytes packet 34 (enc_icmp (h\<lparr>icmp_sum := 0\<rparr>))) 34 (length packet - 34)
      = st16 (drop 34 packet) 2 0"
    by (simp add: bslice_all drop_st_bytes)
  then show ?thesis
    using cksum_field_iff [of 2 "drop 34 packet"] assms(1,2)
    by (simp add: h_def icmp_sum_ld icmp_cksum_ok_def)
qed

lemma handle_echo_request_eq:
  assumes "38 \<le> length packet" "length packet \<le> 131104"
  shows "handle_echo_request n sr packet =
     (if icmp_cksum_ok packet \<and> icmp_sum (ld_struct 4 dec_icmp packet 34) \<noteq> 0 then
        case sr_findLPMentry (routing_table sr) (ip_src (ld_struct 20 dec_ip packet 14)) of
          None \<Rightarrow> Inr sr
        | Some rtentry \<Rightarrow>
            rbind (deref (sr_get_interface sr (rt_interface rtentry))) (\<lambda>ifc.
              send_or_queue (sr_arpcache_handle_arpreq n) sr (echo_reply packet (if_addr ifc)) rtentry)
      else Inr sr)"
  using assms icmp_cksum_check [OF assms]
  by (auto simp: handle_echo_request_def Let_def echo_reply_def st_bytes_same icmphdr.st_ld_id
      bslice_all split: option.splits)

lemma echo_reply_frame_ok: "frame_ok packet \<Longrightarrow> frame_ok (echo_reply packet m)"
  by (simp add: echo_reply_def Let_def frame_ok_st_payload frame_ok_rewrite_ip)

lemma echo_request_keeps:
  "sr_ok sr \<Longrightarrow> frame_ok packet \<Longrightarrow> 38 \<le> length packet \<Longrightarrow> keeps sr (handle_echo_request n sr packet)"
  unfolding handle_echo_request_def Let_def
  by (auto simp: frame_ok_st_payload frame_ok_rewrite_ip split: option.split
      intro!: keeps_route_iface arpreq.send_or_queue_keeps sendable_set_shost)

lemma for_me_keeps: "sr_ok sr \<Longrightarrow> frame_ok packet \<Longrightarrow> keeps sr (handle_for_me n sr packet)"
  by (auto simp: handle_for_me_def Let_def sizeof_defs intro!: echo_request_keeps port_unreachable_keeps)

lemma forward_packet_keeps:
  assumes "sr_ok sr" "frame_ok packet" "sr_findLPMentry (routing_table sr) ip = Some rt"
  shows "keeps sr (forward_packet n sr packet rt)"
  unfolding forward_packet_def Let_def using assms
  by (auto simp: frame_ok_dec_ttl split: option.split
      intro!: keeps_route_iface [OF assms(3)] arpreq.queue_keeps evolves_send sendable_set_shost
        frame_ok_length)

lemma forward_keeps: "sr_ok sr \<Longrightarrow> frame_ok packet \<Longrightarrow> keeps sr (handle_forward n sr packet)"
  by (auto simp: handle_forward_def Let_def split: option.split
      intro!: time_exceeded_keeps forward_packet_keeps net_unreachable_keeps)

lemma ip_keeps:
  "sr_ok sr \<Longrightarrow> ether_type (ld_struct 14 dec_ether packet 0) = htons ethertype_ip \<Longrightarrow>
   keeps sr (handle_ip n sr packet)"
  by (auto simp: handle_ip_eq intro!: for_me_keeps forward_keeps frame_ok_ip_valid)

section \<open>ARP replies\<close>

text \<open>
  Between \<^verbatim>\<open>sr_arpcache_insert\<close> and \<^verbatim>\<open>sr_arpreq_destroy\<close> one request is off the queue but still
  allocated.
\<close>

definition arp_inv_pending :: "sr_if list \<Rightarrow> sr_arpcache \<Rightarrow> req_addr \<Rightarrow> bool" where
  "arp_inv_pending is c a \<longleftrightarrow> length (entries c) = SR_ARPCACHE_SZ \<and> distinct (requests c)
     \<and> a \<notin> set (requests c) \<and> insert a (set (requests c)) = dom (req_store c) \<and> store_ok is c"

definition inserted :: "sr_instance \<Rightarrow> mac \<Rightarrow> u32 \<Rightarrow> req_addr option \<Rightarrow> sr_instance" where
  "inserted sr m ip req =
     (let c = cache sr;
          c1 = (case req of None \<Rightarrow> c | Some a \<Rightarrow> c\<lparr>requests := remove1 a (requests c)\<rparr>);
          i = first_invalid (entries c)
      in if i \<noteq> length (entries c)
         then sr\<lparr>ticks := Suc (ticks sr), cache := c1\<lparr>entries := (entries c)[i :=
                \<lparr>ae_mac = m, ae_ip = ip, ae_added = clk sr (ticks sr), ae_valid = True\<rparr>]\<rparr>\<rparr>
         else sr\<lparr>cache := c1\<rparr>)"

lemma insert_eq:
  "sr_arpcache_insert sr m ip =
     rbind (find_req (cache sr) (requests (cache sr)) ip) (\<lambda>req. Inr (req, inserted sr m ip req))"
  by (auto simp: sr_arpcache_insert_def inserted_def Let_def sr_time_def rbind_def
      split: option.splits sum.splits)

lemma inserted_simps [simp]:
  "req_store (cache (inserted sr m ip req)) = req_store (cache sr)"
  "length (entries (cache (inserted sr m ip req))) = length (entries (cache sr))"
  "requests (cache (inserted sr m ip req)) =
     (case req of None \<Rightarrow> requests (cache sr) | Some a \<Rightarrow> remove1 a (requests (cache sr)))"
  "req_fresh (cache (inserted sr m ip req)) = req_fresh (cache sr)"
  "if_list (inserted sr m ip req) = if_list sr"
  "routing_table (inserted sr m ip req) = routing_table sr"
  "sock_out (inserted sr m ip req) = sock_out sr"
  "logfile (inserted sr m ip req) = logfile sr"
  by (auto simp: inserted_def Let_def split: option.splits)

lemma inserted_evolves [simp]: "evolves sr (inserted sr m ip req)"
  by (simp add: evolves_def)

lemma insert_cases:
  assumes "sr_ok sr"
  obtains "sr_arpcache_insert sr m ip = Inr (None, inserted sr m ip None)" "sr_ok (inserted sr m ip None)"
  | a r where "sr_arpcache_insert sr m ip = Inr (Some a, inserted sr m ip (Some a))"
      "arp_inv_pending (if_list sr) (cache (inserted sr m ip (Some a))) a"
      "req_store (cache sr) a = Some r" "rq_ip r = ip"
proof -
  let ?c = "cache sr"
  have dom: "set (requests ?c) = dom (req_store ?c)" using assms by (simp add: arp_inv_def)
  from find_req_cases [of "requests ?c" ?c ip, OF equalityD1 [OF dom]] show ?thesis
  proof (elim disjE exE conjE)
    fix a r assume a: "find_req ?c (requests ?c) ip = Inr (Some a)" "req_store ?c a = Some r" "rq_ip r = ip"
      "a \<in> set (requests ?c)"
    then have "arp_inv_pending (if_list sr) (cache (inserted sr m ip (Some a))) a"
      using assms by (auto simp: arp_inv_pending_def arp_inv_def store_ok_def set_remove1_eq)
    with a that(2) show ?thesis by (simp add: insert_eq)
  next
    assume "find_req ?c (requests ?c) ip = Inr None"
    then show ?thesis
      using assms by (intro that(1)) (auto simp: insert_eq arp_inv_def store_ok_def)
  qed
qed

lemma send_waiting_evolves:
  assumes "\<forall>p \<in> set ps. pkt_ok (if_list sr) p"
  shows "case send_waiting sr m ps of
      Inr sr' \<Rightarrow> evolves sr sr' \<and> cache sr' = cache sr
    | Inl e \<Rightarrow> \<not> routed sr"
  using assms
proof (induction ps arbitrary: sr)
  case (Cons p ps)
  define f where "f = (if ip_ttl (ld_struct 20 dec_ip (set_dhost (pk_buf p) m) 14) \<noteq> INIT_TTL
    then dec_ttl (set_dhost (pk_buf p) m) else set_dhost (pk_buf p) m)"
  define sr1 where "sr1 = snd (sr_send_packet sr f (pk_iface p))"
  from Cons.prems have p: "frame_ok (pk_buf p)" "34 \<le> length (pk_buf p)"
    by (auto simp: pkt_ok_def frame_ok_def)
  then have "evolves sr sr1"
    unfolding sr1_def by (intro evolves_send) (simp add: f_def frame_ok_dec_ttl)
  moreover have "case send_waiting sr1 m ps of Inr sr' \<Rightarrow> evolves sr1 sr' \<and> cache sr' = cache sr1
      | Inl e \<Rightarrow> \<not> routed sr1"
    using Cons.prems by (intro Cons.IH) (simp add: sr1_def)
  moreover have "cache sr1 = cache sr" "routed sr1 = routed sr"
    by (simp add: sr1_def, rule routed_cong) (simp_all add: sr1_def)
  ultimately show ?case
    using p by (auto simp: routed_def sr1_def f_def Let_def res_simps deref_def
        split: option.split sum.splits intro: evolves_trans)
qed simp

lemma keeps_pending_destroy:
  assumes "arp_inv_pending (if_list sr) (cache sr) a"
  shows "keeps sr (rbind (sr_arpreq_destroy (cache sr) a) (\<lambda>c. Inr (sr\<lparr>cache := c\<rparr>)))"
proof -
  from assms obtain r where "req_store (cache sr) a = Some r"
    by (auto simp: arp_inv_pending_def)
  with assms show ?thesis
    by (auto simp: sr_arpreq_destroy_def get_req_def arp_inv_pending_def arp_inv_def store_ok_def
        remove1_idem)
qed

lemma flush_keeps:
  assumes p: "arp_inv_pending (if_list sr) (cache sr) a" and r: "req_store (cache sr) a = Some r"
  shows "keeps sr (rbind (send_waiting sr m (rq_packets r)) (\<lambda>sr2.
      rbind (sr_arpreq_destroy (cache sr2) a) (\<lambda>c. Inr (sr2\<lparr>cache := c\<rparr>))))"
proof (cases "send_waiting sr m (rq_packets r)")
  have "\<forall>q \<in> set (rq_packets r). pkt_ok (if_list sr) q"
    using p r by (auto simp: arp_inv_pending_def store_ok_def req_ok_def)
  note sw = send_waiting_evolves [OF this, of m]
  {
    case (Inl e)
    then show ?thesis using sw by simp
  next
    case (Inr sr2)
    with sw have "evolves sr sr2" "cache sr2 = cache sr" by simp_all
    with p keeps_pending_destroy [of sr2 a] have "keeps sr2 (rbind (sr_arpreq_destroy (cache sr2) a)
        (\<lambda>c. Inr (sr2\<lparr>cache := c\<rparr>)))"
      by (simp add: evolves_env)
    with \<open>evolves sr sr2\<close> Inr show ?thesis
      by (simp add: keeps_trans)
  }
qed

lemma arp_reply_keeps:
  assumes "sr_ok sr"
  shows "keeps sr (handle_arp_reply sr h)"
proof (cases rule: insert_cases [OF assms, of "ar_sha h" "ar_sip h"])
  case 1
  then show ?thesis by (simp add: handle_arp_reply_def)
next
  case (2 a r)
  let ?sr1 = "inserted sr (ar_sha h) (ar_sip h) (Some a)"
  from 2 flush_keeps [of ?sr1 a r "ar_sha h"] have "keeps ?sr1 (handle_arp_reply sr h)"
    by (simp add: handle_arp_reply_def get_req_def)
  then show ?thesis
    using keeps_trans [OF inserted_evolves] by blast
qed

lemma arp_keeps: "sr_ok sr \<Longrightarrow> keeps sr (handle_arp sr packet)"
  unfolding handle_arp_def Let_def
  by (auto intro!: keeps_route keeps_route_iface arp_reply_keeps
      simp: arp_reply_to_def evolves_send)

lemma handlepacket_keeps: "sr_ok sr \<Longrightarrow> keeps sr (sr_handlepacket n sr packet iface)"
  by (auto simp: sr_handlepacket_def Let_def intro: ip_keeps arp_keeps)

end
