(* ===== verification/Sr_Router_Props.thy ===== *)
theory Sr_Router_Props
  imports Sr_Router_Inv
begin

text \<open>
  What the router does with each kind of frame, stated on the bytes that reach the wire, and the
  safety of every reachable state.
\<close>

section \<open>Reading back the frames the router builds\<close>

lemma sendable_iff:
  "14 \<le> length f \<Longrightarrow> find_if is i = Some ifc \<Longrightarrow>
   sendable is f i \<longleftrightarrow> ether_shost (ld_struct 14 dec_ether f 0) = if_addr ifc"
  by (simp add: sendable_def)

lemma sock_out_send_ok:
  "14 \<le> length f \<Longrightarrow> find_if (if_list sr) i = Some ifc \<Longrightarrow>
   ether_shost (ld_struct 14 dec_ether f 0) = if_addr ifc \<Longrightarrow>
   sock_out (snd (sr_send_packet sr f i)) = sock_out sr @ [packet_message f i]"
  by (simp add: sock_out_send sendable_iff)

lemma drop_set_hosts [simp]:
  "14 \<le> k \<Longrightarrow> drop k (set_dhost f m) = drop k f" "14 \<le> k \<Longrightarrow> drop k (set_shost f m) = drop k f"
  by (rule nth_equalityI; simp add: set_dhost_def set_shost_def nth_st_bytes)+

lemma cksum_ok_set_hosts [simp]:
  "ip_cksum_ok (set_dhost f m) = ip_cksum_ok f" "ip_cksum_ok (set_shost f m) = ip_cksum_ok f"
  "icmp_cksum_ok (set_dhost f m) = icmp_cksum_ok f" "icmp_cksum_ok (set_shost f m) = icmp_cksum_ok f"
  by (simp_all add: ip_cksum_ok_def icmp_cksum_ok_def)

lemma icmp_ld_set_hosts [simp]:
  "ld_struct 4 dec_icmp (set_dhost f m) 34 = ld_struct 4 dec_icmp f 34"
  "ld_struct 4 dec_icmp (set_shost f m) 34 = ld_struct 4 dec_icmp f 34"
  "ld_struct 36 dec_t3 (set_dhost f m) 34 = ld_struct 36 dec_t3 f 34"
  "ld_struct 36 dec_t3 (set_shost f m) 34 = ld_struct 36 dec_t3 f 34"
  by (simp_all add: ld_struct_def)

lemma drop_st_before: "off + length xs \<le> k \<Longrightarrow> drop k (st_bytes f off xs) = drop k f"
  by (rule nth_equalityI) (simp_all add: nth_st_bytes)

lemma drop_set_ip_cksum: "34 \<le> k \<Longrightarrow> 34 \<le> length f \<Longrightarrow> drop k (set_ip_cksum f) = drop k f"
  by (simp add: set_ip_cksum_eq drop_st_before)

lemma echo_reply_headers:
  fixes m
  assumes "frame_ok packet" "38 \<le> length packet" "length packet \<le> 131104"
  defines "f \<equiv> echo_reply packet m" and "h \<equiv> ld_struct 20 dec_ip packet 14"
    and "ic \<equiv> ld_struct 4 dec_icmp packet 34"
  shows "length f = length packet"
    and "ld_struct 14 dec_ether f 0 = (ld_struct 14 dec_ether packet 0)\<lparr>ether_shost := m\<rparr>"
    and "(ld_struct 20 dec_ip f 14)\<lparr>ip_sum := 0\<rparr> =
           h\<lparr>ip_ttl := 255, ip_src := ip_dst h, ip_dst := ip_src h, ip_sum := 0\<rparr>"
    and "(ld_struct 4 dec_icmp f 34)\<lparr>icmp_sum := 0\<rparr> = ic\<lparr>icmp_type := 0, icmp_sum := 0\<rparr>"
    and "drop 38 f = drop 38 packet"
    and "icmp_cksum_ok f"
proof -
  define h1 where "h1 = h\<lparr>ip_ttl := INIT_TTL, ip_src := ip_dst h, ip_dst := ip_src h\<rparr>"
  define p2 where "p2 = set_ip_cksum (st_bytes packet 14 (enc_ip h1))"
  define ic1 where "ic1 = ic\<lparr>icmp_type := 0\<rparr>"
  define p3 where "p3 = st_bytes p2 34 (enc_icmp (ic1\<lparr>icmp_sum := 0\<rparr>))"
  define p4 where "p4 = st_bytes p3 34 (enc_icmp (ic1\<lparr>icmp_sum := cksum (drop 34 p3)\<rparr>))"
  have f: "f = set_shost p4 m"
    by (simp add: f_def echo_reply_def Let_def p4_def p3_def ic1_def p2_def h1_def h_def ic_def)
  have p4: "p4 = st_bytes p2 34 (enc_icmp (ic1\<lparr>icmp_sum := cksum (drop 34 p3)\<rparr>))"
    by (simp add: p4_def p3_def st_bytes_same)
  have len: "length p2 = length packet" "length p3 = length packet" "length p4 = length packet"
    by (simp_all add: p2_def p3_def p4_def)
  show "length f = length packet" by (simp add: f len)
  show "ld_struct 14 dec_ether f 0 = (ld_struct 14 dec_ether packet 0)\<lparr>ether_shost := m\<rparr>"
    using assms(2) by (simp add: f set_shost_ld len) (simp add: p4 ether.ld_st_other p2_def)
  show "(ld_struct 20 dec_ip f 14)\<lparr>ip_sum := 0\<rparr> =
      h\<lparr>ip_ttl := 255, ip_src := ip_dst h, ip_dst := ip_src h, ip_sum := 0\<rparr>"
    using assms(2) by (simp add: f p4 iphdr.ld_st_other p2_def ip_hdr_set_ip_cksum iphdr.ld_st_same
        h1_def INIT_TTL_def)
  show "(ld_struct 4 dec_icmp f 34)\<lparr>icmp_sum := 0\<rparr> = ic\<lparr>icmp_type := 0, icmp_sum := 0\<rparr>"
    using assms(2) by (simp add: f p4 icmphdr.ld_st_same len ic1_def)
  show "drop 38 f = drop 38 packet"
    using assms(2) by (simp add: f p4 drop_st_before p2_def drop_set_ip_cksum)
  have "p3 = st16 (st_bytes p2 34 (enc_icmp ic1)) 36 0"
    by (simp add: p3_def st_enc_icmp_sum)
  then have "icmp_cksum_ok (st16 (st_bytes p2 34 (enc_icmp ic1)) 36 (cksum (drop 34 p3)))"
    using assms(2,3) by (intro icmp_cksum_ok_st16) (simp_all add: len)
  then show "icmp_cksum_ok f"
    by (simp add: f p4 st_enc_icmp_sum)
qed

lemma dec_ttl_headers:
  assumes "34 \<le> length f"
  defines "h \<equiv> ld_struct 20 dec_ip f 14"
  shows "length (dec_ttl f) = length f"
    and "ld_struct 14 dec_ether (dec_ttl f) 0 = ld_struct 14 dec_ether f 0"
    and "(ld_struct 20 dec_ip (dec_ttl f) 14)\<lparr>ip_sum := 0\<rparr> = h\<lparr>ip_ttl := ip_ttl h - 1, ip_sum := 0\<rparr>"
    and "drop 34 (dec_ttl f) = drop 34 f"
    and "ip_cksum_ok (dec_ttl f)"
  using assms by (simp_all add: dec_ttl_def Let_def ether.ld_st_other ip_hdr_set_ip_cksum
      iphdr.ld_st_same drop_set_ip_cksum drop_st_before ip_cksum_ok_set_ip_cksum)

section \<open>IP frames\<close>

lemma handlepacket_ip:
  "ip_valid packet \<Longrightarrow> ether_type (ld_struct 14 dec_ether packet 0) = htons ethertype_ip \<Longrightarrow>
   sr_handlepacket n sr packet iface = handle_ip n sr packet"
  by (simp add: sr_handlepacket_def sizeof_defs ip_valid_def)

lemma send_or_queue_hit:
  assumes "sr_arpcache_lookup (cache sr) (rt_gw rt) = Some entry"
    and "find_if (if_list sr) (rt_interface rt) = Some ifc"
    and "14 \<le> length f" "ether_shost (ld_struct 14 dec_ether f 0) = if_addr ifc"
  shows "\<exists>sr'. send_or_queue handle sr f rt = Inr sr' \<and> cache sr' = cache sr
    \<and> sock_out sr' = sock_out sr @ [packet_message (set_dhost f (ae_mac entry)) (rt_interface rt)]"
  using assms by (simp add: send_or_queue_def sock_out_send_ok set_dhost_ld)

text \<open>
  C7: an ICMP echo request with valid checksums that is addressed to an interface of the
  router, from an address outside the black list whose route has a known gateway, is answered by
  exactly one frame: it leaves on the interface of the route to the sender, from that interface's
  MAC address to the gateway's; the IP addresses are exchanged, the TTL is 255, the type is echo reply,
  everything else in both headers and the whole payload is unchanged, and both checksums are valid.
\<close>

theorem echo_request_answered:
  assumes "ether_type (ld_struct 14 dec_ether packet 0) = htons ethertype_ip"
    and "ip_valid packet" "38 \<le> length packet" "length packet \<le> 131104"
    and h: "ld_struct 20 dec_ip packet 14 = h" "ip_p h = ip_protocol_icmp" "\<not> ip_black_list h"
    and me: "\<exists>i \<in> set (if_list sr). if_ip i = ip_dst h"
    and ic: "ld_struct 4 dec_icmp packet 34 = ic" "icmp_type ic = 8" "icmp_sum ic \<noteq> 0"
    and "icmp_cksum_ok packet"
    and rt: "sr_findLPMentry (routing_table sr) (ip_src h) = Some rt"
    and ifc: "sr_get_interface sr (rt_interface rt) = Some ifc"
    and entry: "sr_arpcache_lookup (cache sr) (rt_gw rt) = Some entry"
  shows "\<exists>sr' f. sr_handlepacket n sr packet iface = Inr sr' \<and> cache sr' = cache sr
    \<and> sock_out sr' = sock_out sr @ [packet_message f (rt_interface rt)]
    \<and> length f = length packet
    \<and> ld_struct 14 dec_ether f 0 = \<lparr>ether_dhost = ae_mac entry, ether_shost = if_addr ifc,
        ether_type = htons ethertype_ip\<rparr>
    \<and> (ld_struct 20 dec_ip f 14)\<lparr>ip_sum := 0\<rparr> =
        h\<lparr>ip_ttl := 255, ip_src := ip_dst h, ip_dst := ip_src h, ip_sum := 0\<rparr>
    \<and> (ld_struct 4 dec_icmp f 34)\<lparr>icmp_sum := 0\<rparr> = ic\<lparr>icmp_type := 0, icmp_sum := 0\<rparr>
    \<and> drop 38 f = drop 38 packet \<and> ip_cksum_ok f \<and> icmp_cksum_ok f"
proof -
  have ok: "frame_ok packet" using assms(1,2) by (simp add: frame_ok_ip_valid)
  let ?e = "echo_reply packet (if_addr ifc)"
  note hd = echo_reply_headers [OF ok assms(3,4), of "if_addr ifc", unfolded h(1) ic(1)]
  have e: "frame_ok ?e" using echo_reply_frame_ok [OF ok] .
  have "sr_handlepacket n sr packet iface = handle_echo_request n sr packet"
    using assms by (auto simp: handlepacket_ip handle_ip_eq handle_for_me_def sizeof_defs)
  also have "\<dots> = send_or_queue (sr_arpcache_handle_arpreq n) sr ?e rt"
    using assms by (simp add: handle_echo_request_eq)
  finally obtain sr' where "sr_handlepacket n sr packet iface = Inr sr'" "cache sr' = cache sr"
    "sock_out sr' = sock_out sr @ [packet_message (set_dhost ?e (ae_mac entry)) (rt_interface rt)]"
    using send_or_queue_hit [OF entry, of ifc ?e] ifc hd(1,2) assms(3)
    by (auto simp: sr_get_interface_def)
  then show ?thesis
    using hd e assms(1,3) by (intro exI [of _ sr'] exI [of _ "set_dhost ?e (ae_mac entry)"])
      (simp add: set_dhost_ld frame_ok_def)
qed

text \<open>
  C8: a valid IP frame for another host, with a route whose gateway is known and a TTL
  other than 1, is forwarded as exactly one frame: new Ethernet addresses, the TTL decremented, a valid
  header checksum, all other header fields and the payload unchanged.
\<close>

theorem ip_packet_forwarded:
  assumes "ether_type (ld_struct 14 dec_ether packet 0) = htons ethertype_ip" "ip_valid packet"
    and h: "ld_struct 20 dec_ip packet 14 = h" "\<not> ip_black_list h" "ip_ttl h \<noteq> 1"
    and "\<not> (\<exists>i \<in> set (if_list sr). if_ip i = ip_dst h)"
    and rt: "sr_findLPMentry (routing_table sr) (ip_dst h) = Some rt"
    and ifc: "sr_get_interface sr (rt_interface rt) = Some ifc"
    and entry: "sr_arpcache_lookup (cache sr) (rt_gw rt) = Some entry"
  shows "\<exists>sr' f. sr_handlepacket n sr packet iface = Inr sr' \<and> cache sr' = cache sr
    \<and> sock_out sr' = sock_out sr @ [packet_message f (rt_interface rt)]
    \<and> length f = length packet
    \<and> ld_struct 14 dec_ether f 0 = \<lparr>ether_dhost = ae_mac entry, ether_shost = if_addr ifc,
        ether_type = htons ethertype_ip\<rparr>
    \<and> (ld_struct 20 dec_ip f 14)\<lparr>ip_sum := 0\<rparr> = h\<lparr>ip_ttl := ip_ttl h - 1, ip_sum := 0\<rparr>
    \<and> drop 34 f = drop 34 packet \<and> ip_cksum_ok f"
proof -
  have len: "34 \<le> length packet" using assms(2) by (simp add: ip_valid_def)
  let ?p = "set_dhost (set_shost packet (if_addr ifc)) (ae_mac entry)"
  have len': "34 \<le> length ?p" using len by simp
  note hd = dec_ttl_headers [OF len']
  have eth: "ld_struct 14 dec_ether ?p 0 = \<lparr>ether_dhost = ae_mac entry, ether_shost = if_addr ifc,
        ether_type = htons ethertype_ip\<rparr>"
    using len assms(1) by (simp add: set_dhost_ld set_shost_ld)
  have "sr_handlepacket n sr packet iface = forward_packet n sr packet rt"
    using assms by (simp add: handlepacket_ip handle_ip_eq handle_forward_def)
  also have "\<dots> = Inr (snd (sr_send_packet sr (dec_ttl ?p) (rt_interface rt)))"
    using ifc entry by (simp add: forward_packet_def)
  finally show ?thesis
    using hd len h eth ifc
    by (auto intro!: exI [of _ "dec_ttl ?p"] simp: sock_out_send_ok sr_get_interface_def)
qed

section \<open>ICMP errors\<close>

text \<open>
  Which error a valid frame calls for: frame length, type and code. Port unreachable for TCP and UDP
  to the router itself, time exceeded for a frame to be forwarded with TTL 1, net unreachable for a
  destination without a route (the source checks the checksum at the ICMP position first).
\<close>

definition icmp_error_due :: "sr_instance \<Rightarrow> bytes \<Rightarrow> (nat \<times> u8 \<times> u8) option" where
  "icmp_error_due sr packet =
     (let h = ld_struct 20 dec_ip packet 14
      in if \<exists>i \<in> set (if_list sr). if_ip i = ip_dst h then
           if ip_p h \<in> {ip_protocol_tcp, ip_protocol_udp} then Some (98, 3, 3) else None
         else if sr_findLPMentry (routing_table sr) (ip_dst h) \<noteq> None then
           if ip_ttl h = 1 then Some (98, 11, 0) else None
         else if icmp_cksum_ok packet \<and> icmp_sum (ld_struct 4 dec_icmp packet 34) \<noteq> 0
         then Some (70, 3, 0) else None)"

lemma net_unreachable_eq:
  "42 \<le> length packet \<Longrightarrow> length packet \<le> 131104 \<Longrightarrow>
   net_unreachable n sr packet =
     (if icmp_cksum_ok packet \<and> icmp_sum (ld_struct 4 dec_icmp packet 34) \<noteq> 0
      then send_icmp_error n sr packet 70 3 0 else Inr sr)"
  using icmp_cksum_check [of packet]
  by (auto simp: net_unreachable_def Let_def sizeof_defs ICMP_DATA_SIZE_def st_bytes_same
      icmphdr.st_ld_id)

lemma handlepacket_icmp_error:
  assumes "ether_type (ld_struct 14 dec_ether packet 0) = htons ethertype_ip"
    and "ip_valid packet" "42 \<le> length packet" "length packet \<le> 131104"
    and "\<not> ip_black_list (ld_struct 20 dec_ip packet 14)"
    and "icmp_error_due sr packet = Some (new_len, ty, code)"
  shows "sr_handlepacket n sr packet iface = send_icmp_error n sr packet new_len ty code"
proof -
  let ?h = "ld_struct 20 dec_ip packet 14"
  have ip: "sr_handlepacket n sr packet iface = (if \<exists>i \<in> set (if_list sr). if_ip i = ip_dst ?h
      then handle_for_me n sr packet else handle_forward n sr packet)"
    using assms(1,2,5) by (simp add: handlepacket_ip handle_ip_eq)
  have errs: "port_unreachable n sr packet = send_icmp_error n sr packet 98 3 3"
    "time_exceeded n sr packet = send_icmp_error n sr packet 98 11 0"
    using assms(3) by (auto simp: port_unreachable_def time_exceeded_def sizeof_defs ICMP_DATA_SIZE_def)
  show ?thesis
  proof (cases "\<exists>i \<in> set (if_list sr). if_ip i = ip_dst ?h")
    case True
    with assms(6) ip errs show ?thesis
      by (auto simp: icmp_error_due_def handle_for_me_def protocol_consts Let_def split: if_splits)
  next
    case False
    with assms(6) ip errs net_unreachable_eq [OF assms(3,4)] show ?thesis
      by (cases "sr_findLPMentry (routing_table sr) (ip_dst ?h)")
        (auto simp: icmp_error_due_def handle_forward_def Let_def split: if_splits)
  qed
qed

text \<open>
  C9: a valid frame that calls for an ICMP error, from a source whose route has a known
  gateway, makes the router send exactly one frame to that source: an ICMP message of the required
  type and code from the address of the outgoing interface, with valid IP and ICMP checksums, carrying
  the IP header and the first eight bytes of the payload of the offending frame.
\<close>

theorem icmp_error_sent:
  assumes "ether_type (ld_struct 14 dec_ether packet 0) = htons ethertype_ip"
    and "ip_valid packet" "42 \<le> length packet" "length packet \<le> 131104"
    and h: "ld_struct 20 dec_ip packet 14 = h" "\<not> ip_black_list h"
    and due: "icmp_error_due sr packet = Some (new_len, ty, code)"
    and rt: "sr_findLPMentry (routing_table sr) (ip_src h) = Some rt"
    and ifc: "sr_get_interface sr (rt_interface rt) = Some ifc"
    and entry: "sr_arpcache_lookup (cache sr) (rt_gw rt) = Some entry"
  shows "\<exists>sr' f. sr_handlepacket n sr packet iface = Inr sr' \<and> cache sr' = cache sr
    \<and> sock_out sr' = sock_out sr @ [packet_message f (rt_interface rt)]
    \<and> length f = new_len
    \<and> ld_struct 14 dec_ether f 0 = \<lparr>ether_dhost = ae_mac entry, ether_shost = if_addr ifc,
        ether_type = htons ethertype_ip\<rparr>
    \<and> (ld_struct 20 dec_ip f 14)\<lparr>ip_sum := 0\<rparr> = t3_ip_hdr new_len (if_ip ifc) h
    \<and> (ld_struct 36 dec_t3 f 34)\<lparr>t3_icmp_sum := 0\<rparr> = \<lparr>t3_icmp_type = ty, t3_icmp_code = code,
        t3_icmp_sum = 0, t3_unused = 0, t3_next_mtu = htons 0xFF, t3_data = bslice packet 14 28\<rparr>
    \<and> ip_cksum_ok f \<and> icmp_cksum_ok f"
proof -
  let ?f = "mk_icmp_t3 new_len (if_ip ifc) h ty code (bslice packet 14 28) (if_addr ifc)"
  have len: "70 \<le> new_len" "new_len \<le> 65535" "length (bslice packet 14 28) = 28"
    using due assms(3) by (auto simp: icmp_error_due_def Let_def split: if_splits)
  note hd = mk_icmp_t3_headers [OF len, of "if_ip ifc" h ty code "if_addr ifc"]
  have "sr_handlepacket n sr packet iface = send_icmp_error n sr packet new_len ty code"
    using assms by (intro handlepacket_icmp_error) auto
  also have "\<dots> = send_or_queue (sr_arpcache_handle_arpreq n) sr ?f rt"
    using h rt ifc by (simp add: send_icmp_error_def ICMP_DATA_SIZE_def)
  finally obtain sr' where "sr_handlepacket n sr packet iface = Inr sr'" "cache sr' = cache sr"
    "sock_out sr' = sock_out sr @ [packet_message (set_dhost ?f (ae_mac entry)) (rt_interface rt)]"
    using send_or_queue_hit [OF entry, of ifc ?f] ifc hd(1) len
    by (auto simp: sr_get_interface_def)
  then show ?thesis
    using hd len by (intro exI [of _ sr'] exI [of _ "set_dhost ?f (ae_mac entry)"])
      (simp add: set_dhost_ld frame_ok_def)
qed

section \<open>The source address filter\<close>

lemma low_bytes_eq_iff:
  fixes v c :: u32
  assumes "take_bit 24 c = c"
  shows "take_bit 24 v = c \<longleftrightarrow> ucast v = (ucast c :: u8)
    \<and> ucast (drop_bit 8 v) = (ucast (drop_bit 8 c) :: u8)
    \<and> ucast (drop_bit 16 v) = (ucast (drop_bit 16 c) :: u8)" (is "?l \<longleftrightarrow> ?r")
proof
  assume ?l
  then show ?r
    by (intro conjI bit_word_eqI) (auto simp: bit_simps)
next
  assume r: ?r
  then have "bit v k = bit c k" "bit v (8 + k) = bit c (8 + k)" "bit v (16 + k) = bit c (16 + k)" if "k < 8" for k
    using that by (auto simp: bit_eq_iff bit_simps)
  note b = this
  have "bit v k = bit c k" if "k < 24" for k
    using that b(1) [of k] b(2) [of "k - 8"] b(3) [of "k - 16"]
    by (cases "k < 8"; cases "k < 16") auto
  then have "take_bit 24 v = take_bit 24 c"
    by (intro bit_word_eqI) (auto simp: bit_simps)
  with assms show ?l by simp
qed

lemma ip_black_list_bytes:
  assumes "34 \<le> length packet"
  shows "ip_black_list (ld_struct 20 dec_ip packet 14) \<longleftrightarrow> bslice packet 26 3 = [10, 0, 2]"
proof -
  let ?v = "ip_src (ld_struct 20 dec_ip packet 14)"
  have m: "inet_addr ''10.0.2.0'' = 0x0002000A" "inet_addr ''255.255.255.0'' = mask 24"
    by code_simp+
  have b: "ucast ?v = packet ! 26" "ucast (drop_bit 8 ?v) = packet ! 27" "ucast (drop_bit 16 ?v) = packet ! 28"
    using assms by (simp_all add: ld_struct_def dec_ip_def ucast_ld32)
  have "bslice packet 26 3 = [packet ! 26, packet ! 27, packet ! 28]"
    using assms by (intro nth_equalityI) (auto simp: less_Suc_eq numeral_3_eq_3)
  moreover have "take_bit 24 (0x0002000A :: u32) = 0x0002000A" "ucast (0x0002000A :: u32) = (10 :: u8)"
    "ucast (drop_bit 8 (0x0002000A :: u32)) = (0 :: u8)" "ucast (drop_bit 16 (0x0002000A :: u32)) = (2 :: u8)"
    by code_simp+
  ultimately have "bslice packet 26 3 = [10, 0, 2] \<longleftrightarrow> take_bit 24 ?v = 0x0002000A"
    using b low_bytes_eq_iff [of "0x0002000A" ?v] by (simp only: list.inject simp_thms)
  then show ?thesis
    by (auto simp: ip_black_list_def m Let_def take_bit_eq_mask and.commute)
qed

text \<open>
  A frame whose IP source address is in 10.0.2.0/24 (bytes 26 to 28 of the frame)
  is dropped: nothing is sent, and the router's state is the one before the frame.
\<close>

lemma black_listed_dropped:
  assumes "34 \<le> length packet" "ether_type (ld_struct 14 dec_ether packet 0) = htons ethertype_ip"
    and "bslice packet 26 3 = [10, 0, 2]"
  shows "sr_handlepacket n sr packet iface = Inr sr"
  using assms by (simp add: sr_handlepacket_def sizeof_defs handle_ip_eq ip_black_list_bytes)

section \<open>Reachable states\<close>

text \<open>
  The router runs two threads on one state: the receiving thread calls \<^verbatim>\<open>sr_handlepacket\<close>, the timeout
  thread started by \<^verbatim>\<open>sr_init\<close> runs \<^verbatim>\<open>sr_arpcache_timeout\<close>. Here a step is one whole call of the first
  or one round of the second; the theories on threads let the actions of a call and of a round alternate.
\<close>

inductive sr_reach :: "nat \<Rightarrow> sr_instance \<Rightarrow> sr_instance \<Rightarrow> bool" for n sr0 where
  init: "sr_reach n sr0 (sr_init sr0)"
| packet: "sr_reach n sr0 sr \<Longrightarrow> sr_handlepacket n sr pkt iface = Inr sr' \<Longrightarrow> sr_reach n sr0 sr'"
| tick: "sr_reach n sr0 sr \<Longrightarrow> sr_arpcache_timeout n sr = Inr sr' \<Longrightarrow> sr_reach n sr0 sr'"

definition fresh_router :: "sr_instance \<Rightarrow> bool" where
  "fresh_router sr0 \<longleftrightarrow> (\<forall>a. req_store (cache sr0) a = None) \<and> sock_out sr0 = []"

lemma sr_init_ok: "fresh_router sr0 \<Longrightarrow> sr_ok (sr_init sr0) \<and> evolves sr0 (sr_init sr0)"
  by (auto simp: fresh_router_def sr_init_def sr_arpcache_init_def arp_inv_def store_ok_def)

lemma reach_ok: "sr_reach n sr0 sr \<Longrightarrow> fresh_router sr0 \<Longrightarrow> sr_ok sr \<and> evolves sr0 sr"
proof (induction rule: sr_reach.induct)
  case init
  then show ?case using sr_init_ok by blast
next
  case (packet sr pkt iface sr')
  with handlepacket_keeps [of sr n pkt iface] show ?case by (auto intro: evolves_trans)
next
  case (tick sr sr')
  with timeout_keeps [of sr n] show ?case by (auto intro: evolves_trans)
qed

lemma evolves_output_sound:
  assumes "evolves sr0 sr" "fresh_router sr0" "msg \<in> set (sock_out sr)"
  shows "\<exists>f i ifc. msg = packet_message f i \<and> sr_get_interface sr i = Some ifc \<and> 14 \<le> length f
    \<and> ether_shost (ld_struct 14 dec_ether f 0) = if_addr ifc
    \<and> (ether_type (ld_struct 14 dec_ether f 0) = htons ethertype_arp
       \<or> ether_type (ld_struct 14 dec_ether f 0) = htons ethertype_ip \<and> 34 \<le> length f \<and> ip_cksum_ok f)"
proof -
  have "good_msg (if_list sr) msg" using assms by (auto simp: evolves_def fresh_router_def)
  then show ?thesis
    unfolding good_msg_def sendable_def frame_ok_def sr_get_interface_def by blast
qed

lemma evolves_log_readable:
  assumes "evolves sr0 sr" "fresh_router sr0" "logfile sr0 = sr_dump_open can_write fname 0 (of_nat PACKET_DUMP_SIZE)"
    and "logfile sr0 \<noteq> None"
  shows "\<exists>log h rs. logfile sr = Some log \<and> read_pcap log = Some (h, rs) \<and> pf_linktype h = LINKTYPE_ETHERNET
    \<and> subseq (map (take 1024 \<circ> wire_frame) (sock_out sr)) (map snd rs)"
proof -
  obtain h where h: "logfile sr0 = Some (enc_pcap_file h)" "pf_magic h = TCPDUMP_MAGIC" "pf_linktype h = LINKTYPE_ETHERNET"
    using assms(3,4) by (auto simp: sr_dump_open_def sf_write_header_def split: if_splits)
  have "logged (map wire_frame (sock_out sr)) (logfile sr0) (logfile sr)"
    using assms(1,2) by (auto simp: evolves_def fresh_router_def)
  then obtain rs where "logfile sr = Some (enc_pcap_file h @ concat (map enc_record rs))" "list_all record_ok rs"
      "subseq (map (take PACKET_DUMP_SIZE) (map wire_frame (sock_out sr))) (map snd rs)"
    using h(1) by (auto simp: logged_def)
  then show ?thesis
    using h read_pcap_enc [of rs h] by (auto simp: PACKET_DUMP_SIZE_def)
qed

text \<open>
  Between whole calls the ARP queue lists exactly the allocated requests, once
  each, no two of them for the same address, each with at least one waiting packet that is a
  well-formed IP frame for an existing interface; the table has its hundred entries.
\<close>

lemma reachable_arp_queue:
  assumes "sr_reach n sr0 sr" "fresh_router sr0"
  shows "length (entries (cache sr)) = 100 \<and> distinct (requests (cache sr))
    \<and> set (requests (cache sr)) = dom (req_store (cache sr))
    \<and> (\<forall>a r. req_store (cache sr) a = Some r \<longrightarrow> rq_packets r \<noteq> []
        \<and> (\<forall>p \<in> set (rq_packets r). 34 \<le> length (pk_buf p) \<and> ip_cksum_ok (pk_buf p)
             \<and> sr_get_interface sr (pk_iface p) \<noteq> None))
    \<and> (\<forall>a b r s. req_store (cache sr) a = Some r \<and> req_store (cache sr) b = Some s
        \<and> rq_ip r = rq_ip s \<longrightarrow> a = b)"
proof -
  have ok: "sr_ok sr" using reach_ok [OF assms] by simp
  then have r: "req_ok (if_list sr) r" if "req_store (cache sr) a = Some r" for a r
    using that by (simp add: arp_inv_def store_ok_def)
  then have "rq_packets r \<noteq> [] \<and> (\<forall>p \<in> set (rq_packets r). 34 \<le> length (pk_buf p) \<and> ip_cksum_ok (pk_buf p)
      \<and> sr_get_interface sr (pk_iface p) \<noteq> None)" if "req_store (cache sr) a = Some r" for a r
    using r [OF that] by (auto simp: req_ok_def pkt_ok_def frame_ok_def sendable_def sr_get_interface_def)
  with ok show ?thesis
    unfolding arp_inv_def store_ok_def SR_ARPCACHE_SZ_def by blast
qed

text \<open>
  When the routing table names only existing interfaces and has a route for every address, no frame and no timeout makes the router dereference a null pointer or fail an assertion
  in any reachable state.
\<close>

lemma reachable_no_null_dereference:
  assumes "sr_reach n sr0 sr" "fresh_router sr0" "sr_verify_routing_table sr0 = 0"
    and "\<forall>ip. sr_findLPMentry (routing_table sr0) ip \<noteq> None"
  shows "sr_handlepacket n sr packet iface \<notin> {Inl NullDeref, Inl AssertFailed}
    \<and> sr_arpcache_timeout n sr \<notin> {Inl NullDeref, Inl AssertFailed}"
proof -
  from reach_ok [OF assms(1,2)] have ok: "sr_ok sr" "evolves sr0 sr" by auto
  have "routed sr"
    using routed_evolves [OF ok(2)] assms(3,4) by (simp add: routed_def)
  then have "keeps sr (Inl e) \<Longrightarrow> e \<noteq> NullDeref \<and> e \<noteq> AssertFailed" for e
    by auto
  then show ?thesis
    using handlepacket_keeps [OF ok(1), of n packet iface] timeout_keeps [OF ok(1), of n]
    by (metis empty_iff insert_iff)
qed

end
