(* ===== verification/Sr_Arp_Props.thy ===== *)
theory Sr_Arp_Props
  imports Sr_Router_Props
begin

text \<open>
  Address resolution: ARP requests answered, mappings learnt, frames queued on a miss and released by
  the reply, requests repeated and given up.
\<close>

section \<open>ARP frames\<close>

lemma st_bytes_all: "length xs = length b \<Longrightarrow> st_bytes b 0 xs = xs"
  by (rule nth_equalityI) (simp_all add: nth_st_bytes)

lemma mk_arp_eq:
  "mk_arp opc sha sip tha tip shost dhost =
     enc_ether \<lparr>ether_dhost = dhost, ether_shost = shost, ether_type = htons ethertype_arp\<rparr>
     @ enc_arp \<lparr>ar_hrd = htons 1, ar_pro = htons ethertype_ip, ar_hln = 6, ar_pln = 4,
         ar_op = htons opc, ar_sha = sha, ar_sip = sip, ar_tha = tha, ar_tip = tip\<rparr>"
  (is "?l = ?e @ ?a")
proof -
  have l: "?l = st_bytes (st_bytes (replicate 42 0) 14 ?a) 0 ?e"
    by (simp add: mk_arp_def Let_def sizeof_defs)
  have "st_bytes (st_bytes (replicate 42 0) 0 ?e) 14 ?a = st_bytes (replicate 42 0) 0 (?e @ ?a)"
    by (simp add: st_bytes_append)
  also have "\<dots> = ?e @ ?a"
    by (rule st_bytes_all) simp
  finally show ?thesis
    by (simp add: l st_bytes_swap [of 0 ?e 14])
qed

text \<open>
  C15: an ARP request for the address of the interface that the longest prefix match
  finds for it is answered by exactly one frame on that interface: an ARP reply that gives the
  interface's MAC address for the requested address, sent to the requester's MAC address.
\<close>

theorem arp_request_answered:
  assumes "42 \<le> length packet" "ether_type (ld_struct 14 dec_ether packet 0) = htons ethertype_arp"
    and a: "ld_struct 28 dec_arp packet 14 = a" "ar_op a = htons arp_op_request"
    and rt: "sr_findLPMentry (routing_table sr) (ar_tip a) = Some rt"
    and ifc: "sr_get_interface sr (rt_interface rt) = Some ifc" "if_ip ifc = ar_tip a"
  shows "\<exists>sr'. sr_handlepacket n sr packet iface = Inr sr' \<and> cache sr' = cache sr
    \<and> sock_out sr' = sock_out sr @ [packet_message
        (enc_ether \<lparr>ether_dhost = ar_sha a, ether_shost = if_addr ifc, ether_type = htons ethertype_arp\<rparr>
         @ enc_arp \<lparr>ar_hrd = htons 1, ar_pro = htons ethertype_ip, ar_hln = 6, ar_pln = 4,
             ar_op = htons arp_op_reply, ar_sha = if_addr ifc, ar_sip = if_ip ifc,
             ar_tha = ar_sha a, ar_tip = ar_sip a\<rparr>) (rt_interface rt)]"
proof -
  have ne: "htons ethertype_arp \<noteq> htons ethertype_ip"
    by (simp add: protocol_consts)
  have "sr_handlepacket n sr packet iface = Inr (arp_reply_to sr a rt ifc)"
    using assms ne by (auto simp: sr_handlepacket_def handle_arp_def sizeof_defs)
  then show ?thesis
    using ifc by (simp add: arp_reply_to_def sock_out_send_ok sr_get_interface_def)
      (simp add: mk_arp_eq)
qed

section \<open>The mapping table\<close>

definition arp_hit :: "u32 \<Rightarrow> sr_arpentry \<Rightarrow> bool" where
  "arp_hit ip e \<longleftrightarrow> ae_valid e \<and> ae_ip e = ip"

lemma lookup_scan_append:
  "lookup_scan (es @ fs) ip x = lookup_scan fs ip (lookup_scan es ip x)"
  by (induction es arbitrary: x) auto

lemma lookup_scan_miss: "\<forall>e \<in> set es. \<not> arp_hit ip e \<Longrightarrow> lookup_scan es ip x = x"
  by (induction es arbitrary: x) (auto simp: arp_hit_def)

lemma lookup_scan_SomeD:
  "lookup_scan es ip x = Some e \<Longrightarrow> x = Some e \<or> e \<in> set es \<and> arp_hit ip e"
  by (induction es arbitrary: x) (fastforce simp: arp_hit_def split: if_splits)+

lemma lookup_scan_None_iff:
  "lookup_scan es ip x = None \<longleftrightarrow> x = None \<and> (\<forall>e \<in> set es. \<not> arp_hit ip e)"
  by (induction es arbitrary: x) (auto simp: arp_hit_def)

lemma first_invalid_split:
  "first_invalid es < length es \<Longrightarrow>
   \<exists>us e vs. es = us @ e # vs \<and> length us = first_invalid es \<and> \<not> ae_valid e"
proof (induction es)
  case (Cons e es)
  show ?case
  proof (cases "ae_valid e")
    case True
    with Cons obtain us f vs where "es = us @ f # vs" "length us = first_invalid es" "\<not> ae_valid f"
      by auto
    with True show ?thesis by (intro exI [of _ "e # us"]) auto
  qed (auto intro: exI [of _ "[]"])
qed simp

lemma first_invalid_le: "first_invalid es \<le> length es"
  by (induction es) auto

text \<open>What an insertion does to lookups, when the table has room.\<close>

lemma lookup_insert:
  assumes "first_invalid es \<noteq> length es" "ae_valid new" "lookup_scan es (ae_ip new) None = None"
  shows "lookup_scan (es[first_invalid es := new]) ip None =
    (if ip = ae_ip new then Some new else lookup_scan es ip None)"
proof -
  from assms(1) first_invalid_le [of es] obtain us e vs
    where es: "es = us @ e # vs" "length us = first_invalid es" "\<not> ae_valid e"
    using first_invalid_split [of es] by auto
  have upd: "es[first_invalid es := new] = us @ new # vs"
    unfolding es(2) [symmetric] by (simp add: es(1))
  have "lookup_scan vs (ae_ip new) x = x" for x
    using assms(3) by (intro lookup_scan_miss) (simp add: lookup_scan_None_iff es(1))
  then show ?thesis
    unfolding upd using assms(2) es by (auto simp: lookup_scan_append)
qed

section \<open>ARP replies release the waiting frames\<close>

definition released :: "mac \<Rightarrow> sr_packet \<Rightarrow> bytes" where
  "released m p =
     (let b = set_dhost (pk_buf p) m
      in if ip_ttl (ld_struct 20 dec_ip b 14) \<noteq> 255 then dec_ttl b else b)"

lemma released_sendable: "pkt_ok is p \<Longrightarrow> sendable is (released m p) (pk_iface p)"
  by (auto simp: pkt_ok_def frame_ok_def sendable_def released_def Let_def dec_ttl_headers set_dhost_ld)

lemma send_waiting_out:
  assumes "\<forall>p \<in> set ps. pkt_ok (if_list sr) p" "routed sr"
  shows "\<exists>sr'. send_waiting sr m ps = Inr sr' \<and> cache sr' = cache sr
    \<and> sock_out sr' = sock_out sr @ map (\<lambda>p. packet_message (released m p) (pk_iface p)) ps"
  using assms
proof (induction ps arbitrary: sr)
  case (Cons p ps)
  define sr1 where "sr1 = snd (sr_send_packet sr (released m p) (pk_iface p))"
  have p: "34 \<le> length (pk_buf p)" and out: "sock_out sr1 = sock_out sr @ [packet_message (released m p) (pk_iface p)]"
    using Cons.prems by (auto simp: sr1_def sock_out_send released_sendable pkt_ok_def frame_ok_def)
  have "\<forall>p \<in> set ps. pkt_ok (if_list sr1) p" "routed sr1"
    using Cons.prems routed_cong [of sr1 sr] by (auto simp: sr1_def)
  note IH = Cons.IH [OF this]
  obtain rt where "sr_findLPMentry (routing_table sr) (ip_dst (ld_struct 20 dec_ip (pk_buf p) 14)) = Some rt"
    using Cons.prems(2) by (auto simp: routed_def)
  with p have "send_waiting sr m (p # ps) = send_waiting sr1 m ps"
    by (simp add: sr1_def released_def Let_def INIT_TTL_def)
  with IH out show ?case by (auto simp: sr1_def)
qed simp

lemma find_req_pending:
  assumes "arp_inv is c" "req_store c q = Some r"
  shows "find_req c (requests c) (rq_ip r) = Inr (Some q)"
proof -
  have dom: "set (requests c) = dom (req_store c)" using assms(1) by (simp add: arp_inv_def)
  show ?thesis
    using find_req_cases [of "requests c" c "rq_ip r"] dom assms
    by (auto simp: arp_inv_def store_ok_def dom_def)
qed

lemma inserted_entries:
  "entries (cache (inserted sr m ip req)) =
     (let es = entries (cache sr); i = first_invalid es
      in if i \<noteq> length es
         then es[i := \<lparr>ae_mac = m, ae_ip = ip, ae_added = clk sr (ticks sr), ae_valid = True\<rparr>] else es)"
  by (auto simp: inserted_def Let_def split: option.splits)

lemma first_invalid_room: "\<exists>e \<in> set es. \<not> ae_valid e \<Longrightarrow> first_invalid es \<noteq> length es"
  by (induction es) auto

lemma lookup_inserted:
  assumes "\<exists>e \<in> set (entries (cache sr)). \<not> ae_valid e" "sr_arpcache_lookup (cache sr) ip0 = None"
  shows "map_option ae_mac (sr_arpcache_lookup (cache (inserted sr m ip0 req)) ip) =
    (if ip = ip0 then Some m else map_option ae_mac (sr_arpcache_lookup (cache sr) ip))"
  using assms first_invalid_room [OF assms(1)]
    lookup_insert [of "entries (cache sr)" "\<lparr>ae_mac = m, ae_ip = ip0, ae_added = clk sr (ticks sr), ae_valid = True\<rparr>" ip]
  by (simp add: sr_arpcache_lookup_def inserted_entries Let_def)

text \<open>
  C11: an ARP reply for an address with a pending request, arriving when the table has
  room and no mapping for that address, installs the mapping and leaves every other mapping alone; it sends
  all waiting frames, in queue order and each on the interface it was queued for, addressed to the
  MAC address of the reply (with the TTL decremented unless it is 255); and the request is gone.
\<close>

theorem arp_reply_releases:
  assumes inv: "arp_inv (if_list sr) (cache sr)"
    and "sr_verify_routing_table sr = 0" "\<forall>ip. sr_findLPMentry (routing_table sr) ip \<noteq> None"
    and "42 \<le> length packet" "ether_type (ld_struct 14 dec_ether packet 0) = htons ethertype_arp"
    and a: "ld_struct 28 dec_arp packet 14 = a" "ar_op a = htons arp_op_reply"
    and rt: "sr_findLPMentry (routing_table sr) (ar_tip a) = Some rt"
    and ifc: "sr_get_interface sr (rt_interface rt) = Some ifc" "if_ip ifc = ar_tip a"
    and req: "req_store (cache sr) q = Some r" "rq_ip r = ar_sip a"
    and room: "\<exists>e \<in> set (entries (cache sr)). \<not> ae_valid e"
    and new: "sr_arpcache_lookup (cache sr) (ar_sip a) = None"
  shows "\<exists>sr'. sr_handlepacket n sr packet iface = Inr sr'
    \<and> sock_out sr' = sock_out sr @ map (\<lambda>p. packet_message (released (ar_sha a) p) (pk_iface p)) (rq_packets r)
    \<and> (\<forall>ip. map_option ae_mac (sr_arpcache_lookup (cache sr') ip) =
        (if ip = ar_sip a then Some (ar_sha a) else map_option ae_mac (sr_arpcache_lookup (cache sr) ip)))
    \<and> requests (cache sr') = remove1 q (requests (cache sr)) \<and> req_store (cache sr') q = None"
proof -
  let ?sr1 = "inserted sr (ar_sha a) (ar_sip a) (Some q)"
  have ne: "htons ethertype_arp \<noteq> htons ethertype_ip" "htons arp_op_reply \<noteq> htons arp_op_request"
    by (simp_all add: protocol_consts)
  have hp: "sr_handlepacket n sr packet iface = handle_arp_reply sr a"
    using assms(4-10) ne by (auto simp: sr_handlepacket_def handle_arp_def sizeof_defs)
  have ins: "sr_arpcache_insert sr (ar_sha a) (ar_sip a) = Inr (Some q, ?sr1)"
    using find_req_pending [OF inv req(1)] req(2) by (simp add: insert_eq)
  have "\<forall>p \<in> set (rq_packets r). pkt_ok (if_list ?sr1) p"
    using inv req(1) by (auto simp: arp_inv_def store_ok_def req_ok_def)
  moreover have "routed ?sr1"
    using assms(2,3) routed_cong [of ?sr1 sr] by (simp add: routed_def)
  ultimately obtain sr2 where sr2: "send_waiting ?sr1 (ar_sha a) (rq_packets r) = Inr sr2"
    "cache sr2 = cache ?sr1" "sock_out sr2 = sock_out sr
       @ map (\<lambda>p. packet_message (released (ar_sha a) p) (pk_iface p)) (rq_packets r)"
    using send_waiting_out [of "rq_packets r" ?sr1 "ar_sha a"] by auto
  have "q \<notin> set (remove1 q (requests (cache sr)))"
    using inv by (simp add: arp_inv_def)
  then have "handle_arp_reply sr a = Inr (sr2\<lparr>cache := (cache sr2)\<lparr>req_store := (req_store (cache sr2))(q := None)\<rparr>\<rparr>)"
    using ins sr2 req(1) by (simp add: handle_arp_reply_def get_req_def sr_arpreq_destroy_def remove1_idem)
  with hp sr2 lookup_inserted [OF room new, of "ar_sha a" "Some q"] show ?thesis
    by (simp add: sr_arpcache_lookup_def)
qed

section \<open>A miss queues the frame and asks for the address\<close>

text \<open>
  C12: a valid frame to be forwarded to a gateway without a mapping and without a pending
  request, when the clock has passed its first second, is queued as the only frame of a new request for the
  gateway, and one ARP request is broadcast on the outgoing interface from that interface's addresses.
  The address it asks for is the destination of the frame, whatever the gateway.
\<close>

theorem arp_miss_queues:
  assumes inv: "arp_inv (if_list sr) (cache sr)"
    and "ether_type (ld_struct 14 dec_ether packet 0) = htons ethertype_ip" "ip_valid packet"
    and h: "ld_struct 20 dec_ip packet 14 = h" "\<not> ip_black_list h" "ip_ttl h \<noteq> 1"
    and "\<not> (\<exists>i \<in> set (if_list sr). if_ip i = ip_dst h)"
    and rt: "sr_findLPMentry (routing_table sr) (ip_dst h) = Some rt"
    and ifc: "sr_get_interface sr (rt_interface rt) = Some ifc"
    and miss: "sr_arpcache_lookup (cache sr) (rt_gw rt) = None"
    and none: "\<forall>a r. req_store (cache sr) a = Some r \<longrightarrow> rq_ip r \<noteq> rt_gw rt"
    and clk: "clk sr (ticks sr) > 1"
  shows "\<exists>sr' q. sr_handlepacket (Suc n) sr packet iface = Inr sr'
    \<and> sock_out sr' = sock_out sr @ [packet_message
        (enc_ether \<lparr>ether_dhost = broadcast, ether_shost = if_addr ifc, ether_type = htons ethertype_arp\<rparr>
         @ enc_arp \<lparr>ar_hrd = htons 1, ar_pro = htons ethertype_ip, ar_hln = 6, ar_pln = 4,
             ar_op = htons arp_op_request, ar_sha = if_addr ifc, ar_sip = if_ip ifc,
             ar_tha = (0, 0, 0, 0, 0, 0), ar_tip = ip_dst h\<rparr>) (rt_interface rt)]
    \<and> requests (cache sr') = q # requests (cache sr)
    \<and> req_store (cache sr') = (req_store (cache sr))(q \<mapsto> \<lparr>rq_ip = rt_gw rt,
        rq_sent = clk sr (ticks sr + 1), rq_times_sent = 1, rq_packets = [\<lparr>pk_buf =
          set_shost packet (if_addr ifc), pk_iface = strncpy sr_IFACE_NAMELEN (rt_interface rt)\<rparr>]\<rparr>)"
proof -
  define p1 where "p1 = set_shost packet (if_addr ifc)"
  define pk where "pk = \<lparr>pk_buf = p1, pk_iface = strncpy sr_IFACE_NAMELEN (rt_interface rt)\<rparr>"
  define q where "q = req_fresh (cache sr)"
  define r where "r = \<lparr>rq_ip = rt_gw rt, rq_sent = 0, rq_times_sent = 0, rq_packets = [pk]\<rparr>"
  define c1 where "c1 = (cache sr)\<lparr>requests := q # requests (cache sr),
      req_store := (req_store (cache sr))(q \<mapsto> r), req_fresh := Suc q\<rparr>"
  have len: "34 \<le> length packet" using assms(3) by (simp add: ip_valid_def)
  then have "0 < length p1" by (simp only: p1_def length_set_hosts)
  then have p1: "p1 \<noteq> []" by simp
  have dom: "set (requests (cache sr)) \<subseteq> dom (req_store (cache sr))"
    using inv by (simp add: arp_inv_def)
  have "find_req (cache sr) (requests (cache sr)) (rt_gw rt) = Inr None"
    using find_req_cases [OF dom, of "rt_gw rt"] none by auto
  then have qr: "sr_arpcache_queuereq (cache sr) (rt_gw rt) p1 (rt_interface rt) = Inr (q, c1)"
    using p1 by (simp add: sr_arpcache_queuereq_def new_req_def add_packet_def get_req_def Let_def
        q_def c1_def r_def pk_def)
  have "sr_handlepacket (Suc n) sr packet iface = forward_packet (Suc n) sr packet rt"
    using assms by (simp add: handlepacket_ip handle_ip_eq handle_forward_def)
  also have "\<dots> = sr_arpcache_handle_arpreq (Suc n) (sr\<lparr>cache := c1\<rparr>) q"
    using ifc miss qr by (simp add: forward_packet_def p1_def)
  also have "\<dots> = send_arp_request (sr\<lparr>cache := c1, ticks := Suc (ticks sr)\<rparr>) q r"
    using clk by (simp add: sr_time_def get_req_def c1_def r_def)
  finally have hp: "sr_handlepacket (Suc n) sr packet iface =
    send_arp_request (sr\<lparr>cache := c1, ticks := Suc (ticks sr)\<rparr>) q r" .
  have sh: "ether_shost (ld_struct 14 dec_ether p1 0) = if_addr ifc"
    and dst: "ip_dst (ld_struct 20 dec_ip p1 14) = ip_dst h" and len1: "34 \<le> length p1"
    using len h by (simp_all add: p1_def set_shost_ld)
  have gi: "sr_get_interface (sr\<lparr>cache := c1, ticks := Suc (ticks sr)\<rparr>) (pk_iface pk) = Some ifc"
    using ifc by (simp add: sr_get_interface_def pk_def)
  let ?s = "sr\<lparr>cache := c1, ticks := Suc (ticks sr)\<rparr>"
  let ?f = "mk_arp arp_op_request (if_addr ifc) (if_ip ifc) (0, 0, 0, 0, 0, 0) (ip_dst h) (if_addr ifc) broadcast"
  have out: "sock_out (snd (sr_send_packet ?s ?f (rt_interface rt))) = sock_out sr @ [packet_message ?f (rt_interface rt)]"
    using sock_out_send_ok [of ?f ?s "rt_interface rt" ifc] ifc by (simp add: sr_get_interface_def)
  have "send_arp_request ?s q r = (let s1 = snd (sr_send_packet ?s ?f (rt_interface rt)) in
      Inr (s1\<lparr>ticks := Suc (ticks s1), cache := c1\<lparr>req_store := (req_store c1)(q \<mapsto>
        r\<lparr>rq_sent := clk sr (ticks sr + 1), rq_times_sent := 1\<rparr>)\<rparr>\<rparr>))"
    using gi rt sh dst len1 by (simp add: send_arp_request_def r_def Let_def sr_time_def pk_def)
  with out show ?thesis
    unfolding hp mk_arp_eq [symmetric] by (simp add: Let_def c1_def r_def pk_def p1_def)
qed

end
