(* ===== verification/Sr_Arp_Life.thy ===== *)
theory Sr_Arp_Life
  imports Sr_Arp_Props
begin

text \<open>
  The life of an ARP request: the handler returns whenever no request has used up its five
  transmissions, a request that has is answered with ICMP host unreachable for every waiting frame and
  destroyed, and the one configuration in which the recursion of \<^verbatim>\<open>sr_arpcache_handle_arpreq\<close> does not
  end.
\<close>

section \<open>The handler returns while no request has expired\<close>

definition unexpired :: "sr_arpcache \<Rightarrow> bool" where
  "unexpired c \<longleftrightarrow> (\<forall>a r. req_store c a = Some r \<longrightarrow> rq_times_sent r < 5)"

definition returns :: "sr_instance res \<Rightarrow> bool" where
  "returns r \<longleftrightarrow> (\<exists>sr'. r = Inr sr')"

lemma returns_Inr [simp]: "returns (Inr sr)"
  by (simp add: returns_def)

lemma send_arp_request_returns:
  assumes "sr_ok sr" "routed sr" "req_store (cache sr) a = Some r"
  shows "returns (send_arp_request sr a r)"
proof -
  from assms(1,3) have "req_ok (if_list sr) r" by (auto simp: arp_inv_def store_ok_def)
  then obtain p ps where p: "rq_packets r = p # ps" "pkt_ok (if_list sr) p"
    by (cases "rq_packets r") (auto simp: req_ok_def)
  then obtain ifc where "sr_get_interface sr (pk_iface p) = Some ifc" "34 \<le> length (pk_buf p)"
    by (auto simp: pkt_ok_def sendable_def frame_ok_def sr_get_interface_def)
  moreover obtain rt where
    "sr_findLPMentry (routing_table sr) (ip_dst (ld_struct 20 dec_ip (pk_buf p) 14)) = Some rt"
    using assms(2) by (auto simp: routed_def)
  ultimately show ?thesis
    using p by (simp add: send_arp_request_def Let_def sr_time_def)
qed

lemma handle_returns:
  assumes "sr_ok sr" "routed sr" "req_store (cache sr) a = Some r" "rq_times_sent r < 5"
  shows "returns (sr_arpcache_handle_arpreq (Suc n) sr a)"
proof -
  let ?sr1 = "sr\<lparr>ticks := Suc (ticks sr)\<rparr>"
  have "returns (send_arp_request ?sr1 a r)"
    using assms routed_cong [of ?sr1 sr] by (intro send_arp_request_returns) auto
  with assms show ?thesis
    by (auto simp: sr_time_def get_req_def)
qed

lemma queue_returns:
  assumes "sr_ok sr" "routed sr" "unexpired (cache sr)" "frame_ok f" "sendable (if_list sr) f iface"
  shows "returns (rbind (sr_arpcache_queuereq (cache sr) ip f iface)
    (\<lambda>(b, c). sr_arpcache_handle_arpreq (Suc n) (sr\<lparr>cache := c\<rparr>) b))"
proof -
  obtain a r c' where q: "sr_arpcache_queuereq (cache sr) ip f iface = Inr (a, c')"
    and c': "arp_inv (if_list sr) c'" "req_store c' a = Some r"
    and sent: "rq_times_sent r = (case req_store (cache sr) a of None \<Rightarrow> 0 | Some r0 \<Rightarrow> rq_times_sent r0)"
    by (rule queuereq_spec [OF assms(1,4,5)])
  have "rq_times_sent r < 5"
    using sent assms(3) by (auto simp: unexpired_def split: option.splits)
  with c' have "returns (sr_arpcache_handle_arpreq (Suc n) (sr\<lparr>cache := c'\<rparr>) a)"
    using assms(2) routed_cong [of "sr\<lparr>cache := c'\<rparr>" sr] by (intro handle_returns) auto
  with q show ?thesis by simp
qed

lemma send_or_queue_returns:
  assumes "sr_ok sr" "routed sr" "unexpired (cache sr)" "frame_ok f" "sendable (if_list sr) f (rt_interface rt)"
  shows "returns (send_or_queue (sr_arpcache_handle_arpreq (Suc n)) sr f rt)"
  using queue_returns [OF assms, of "rt_gw rt" n] by (simp add: send_or_queue_def split: option.split)

lemma icmp_error_returns:
  assumes "sr_ok sr" "routed sr" "unexpired (cache sr)" "42 \<le> length packet" "70 \<le> len" "len \<le> 65535"
  shows "returns (send_icmp_error (Suc n) sr packet len ty code)"
proof -
  let ?h = "ld_struct 20 dec_ip packet 14"
  obtain rt ifc where rt: "sr_findLPMentry (routing_table sr) (ip_src ?h) = Some rt"
    "sr_get_interface sr (rt_interface rt) = Some ifc"
    using routedE [OF assms(2)] by metis
  note hd = mk_icmp_t3_headers [OF assms(5,6), of "bslice packet 14 28" "if_ip ifc" ?h ty code "if_addr ifc"]
  have "returns (send_or_queue (sr_arpcache_handle_arpreq (Suc n)) sr
      (mk_icmp_t3 len (if_ip ifc) ?h ty code (bslice packet 14 28) (if_addr ifc)) rt)"
    using assms rt hd by (intro send_or_queue_returns sendableI [where ifc = ifc])
      (auto simp: sr_get_interface_def)
  with rt show ?thesis
    by (simp add: send_icmp_error_def ICMP_DATA_SIZE_def)
qed

lemma echo_returns:
  assumes "sr_ok sr" "routed sr" "unexpired (cache sr)" "frame_ok packet" "38 \<le> length packet"
  shows "returns (handle_echo_request (Suc n) sr packet)"
proof -
  obtain rt ifc where rt: "sr_findLPMentry (routing_table sr) (ip_src (ld_struct 20 dec_ip packet 14)) = Some rt"
    "sr_get_interface sr (rt_interface rt) = Some ifc"
    using routedE [OF assms(2)] by metis
  then show ?thesis
    unfolding handle_echo_request_def Let_def using assms
    by (auto simp: frame_ok_st_payload frame_ok_rewrite_ip sr_get_interface_def
        intro!: send_or_queue_returns sendable_set_shost)
qed

lemma for_me_returns:
  assumes "sr_ok sr" "routed sr" "unexpired (cache sr)" "frame_ok packet"
  shows "returns (handle_for_me (Suc n) sr packet)"
  using assms by (auto simp: handle_for_me_def port_unreachable_def Let_def sizeof_defs ICMP_DATA_SIZE_def
      intro!: echo_returns icmp_error_returns)

lemma forward_returns:
  assumes "sr_ok sr" "routed sr" "unexpired (cache sr)" "frame_ok packet"
  shows "returns (handle_forward (Suc n) sr packet)"
proof -
  obtain rt ifc where rt: "sr_findLPMentry (routing_table sr) (ip_dst (ld_struct 20 dec_ip packet 14)) = Some rt"
    "sr_get_interface sr (rt_interface rt) = Some ifc"
    using routedE [OF assms(2)] by metis
  have "returns (forward_packet (Suc n) sr packet rt)"
    unfolding forward_packet_def using rt(2) assms
    by (auto simp: Let_def sr_get_interface_def frame_ok_length split: option.split
        intro!: queue_returns sendable_set_shost simp del: sr_arpcache_handle_arpreq.simps)
  with rt assms show ?thesis
    by (auto simp: handle_forward_def time_exceeded_def Let_def sizeof_defs ICMP_DATA_SIZE_def
        intro!: icmp_error_returns)
qed

lemma arp_reply_returns:
  assumes "sr_ok sr" "routed sr"
  shows "returns (handle_arp_reply sr a)"
proof (cases rule: insert_cases [OF assms(1), of "ar_sha a" "ar_sip a"])
  case (2 q r)
  let ?sr1 = "inserted sr (ar_sha a) (ar_sip a) (Some q)"
  have "\<forall>p \<in> set (rq_packets r). pkt_ok (if_list ?sr1) p"
    using assms(1) 2(3) by (auto simp: arp_inv_def store_ok_def req_ok_def)
  moreover have "routed ?sr1" using assms(2) routed_cong [of ?sr1 sr] by simp
  ultimately obtain sr2 where "send_waiting ?sr1 (ar_sha a) (rq_packets r) = Inr sr2" "cache sr2 = cache ?sr1"
    using send_waiting_out by blast
  with 2 show ?thesis
    by (simp add: handle_arp_reply_def get_req_def sr_arpreq_destroy_def)
qed (simp add: handle_arp_reply_def)


section \<open>Giving up\<close>

text \<open>
  \<open>unreach_for sr ip p msg\<close>: the message \<open>msg\<close> tells the source of the waiting frame \<open>p\<close> that the host
  it wanted is unreachable; \<open>ip\<close> is the address the request was for.
\<close>

definition unreach_for :: "sr_instance \<Rightarrow> u32 \<Rightarrow> sr_packet \<Rightarrow> bytes \<Rightarrow> bool" where
  "unreach_for sr ip p msg \<longleftrightarrow>
     (\<exists>rt0 ifc0 rt ifc e f. sr_findLPMentry (routing_table sr) ip = Some rt0
        \<and> sr_get_interface sr (rt_interface rt0) = Some ifc0
        \<and> sr_findLPMentry (routing_table sr) (ip_src (ld_struct 20 dec_ip (pk_buf p) 14)) = Some rt
        \<and> sr_get_interface sr (rt_interface rt) = Some ifc
        \<and> sr_arpcache_lookup (cache sr) (rt_gw rt) = Some e
        \<and> msg = packet_message f (rt_interface rt)
        \<and> ld_struct 14 dec_ether f 0 = \<lparr>ether_dhost = ae_mac e, ether_shost = if_addr ifc,
            ether_type = htons ethertype_ip\<rparr>
        \<and> (ld_struct 20 dec_ip f 14)\<lparr>ip_sum := 0\<rparr> =
            t3_ip_hdr 98 (if_ip ifc0) (ld_struct 20 dec_ip (pk_buf p) 14)
        \<and> (ld_struct 36 dec_t3 f 34)\<lparr>t3_icmp_sum := 0\<rparr> = \<lparr>t3_icmp_type = 3, t3_icmp_code = 1,
            t3_icmp_sum = 0, t3_unused = 0, t3_next_mtu = htons 0xFF, t3_data = bslice (pk_buf p) 14 28\<rparr>
        \<and> ip_cksum_ok f \<and> icmp_cksum_ok f)"

definition source_mapped :: "sr_instance \<Rightarrow> sr_packet \<Rightarrow> bool" where
  "source_mapped sr p \<longleftrightarrow> 42 \<le> length (pk_buf p) \<and>
     (\<exists>rt. sr_findLPMentry (routing_table sr) (ip_src (ld_struct 20 dec_ip (pk_buf p) 14)) = Some rt
        \<and> sr_arpcache_lookup (cache sr) (rt_gw rt) \<noteq> None)"

lemma host_unreachable_hit:
  assumes "routed sr" "source_mapped sr p"
  shows "\<exists>sr' msg. host_unreachable handle sr ip p = Inr sr' \<and> cache sr' = cache sr
    \<and> if_list sr' = if_list sr \<and> routing_table sr' = routing_table sr
    \<and> sock_out sr' = sock_out sr @ [msg] \<and> unreach_for sr ip p msg"
proof -
  let ?h = "ld_struct 20 dec_ip (pk_buf p) 14"
  obtain rt0 ifc0 where r0: "sr_findLPMentry (routing_table sr) ip = Some rt0"
    "sr_get_interface sr (rt_interface rt0) = Some ifc0"
    using routedE [OF assms(1)] by metis
  obtain rt ifc where r12: "sr_findLPMentry (routing_table sr) (ip_src ?h) = Some rt"
    "sr_get_interface sr (rt_interface rt) = Some ifc"
    using routedE [OF assms(1)] by metis
  with assms(2) obtain e where r34: "sr_arpcache_lookup (cache sr) (rt_gw rt) = Some e"
    "42 \<le> length (pk_buf p)"
    by (auto simp: source_mapped_def)
  note r = r12 r34
  define f where "f = mk_icmp_t3 98 (if_ip ifc0) ?h 3 1 (bslice (pk_buf p) 14 28) (if_addr ifc)"
  have l: "70 \<le> (98 :: nat)" "(98 :: nat) \<le> 65535" "length (bslice (pk_buf p) 14 28) = 28"
    using r(4) by simp_all
  note hd = mk_icmp_t3_headers [OF l, of "if_ip ifc0" ?h 3 1 "if_addr ifc", folded f_def]
  define g where "g = set_dhost f (ae_mac e)"
  have "length f = 98" by (simp add: f_def)
  then have eth: "ld_struct 14 dec_ether g 0 = \<lparr>ether_dhost = ae_mac e, ether_shost = if_addr ifc,
      ether_type = htons ethertype_ip\<rparr>" and lg: "14 \<le> length g"
    using hd(1) by (simp_all add: g_def set_dhost_ld)
  have "host_unreachable handle sr ip p = Inr (snd (sr_send_packet sr g (rt_interface rt)))"
    using r0 r by (simp add: host_unreachable_def Let_def sizeof_defs ICMP_DATA_SIZE_def f_def
        send_or_queue_def g_def)
  moreover have "sock_out (snd (sr_send_packet sr g (rt_interface rt))) =
      sock_out sr @ [packet_message g (rt_interface rt)]"
    using r(2) eth lg by (intro sock_out_send_ok) (auto simp: sr_get_interface_def)
  moreover have "unreach_for sr ip p (packet_message g (rt_interface rt))"
    unfolding unreach_for_def using r0 r eth hd
    by (intro exI [of _ rt0] exI [of _ ifc0] exI [of _ rt] exI [of _ ifc] exI [of _ e] exI [of _ g])
      (simp add: g_def frame_ok_def)
  ultimately show ?thesis by auto
qed

lemma same_env:
  assumes "cache sr' = cache sr" "if_list sr' = if_list sr" "routing_table sr' = routing_table sr"
  shows "unreach_for sr' = unreach_for sr" "source_mapped sr' = source_mapped sr"
    "routed sr' = routed sr"
  using assms routed_cong [of sr' sr]
  by (auto intro!: ext simp: unreach_for_def source_mapped_def sr_get_interface_def)

lemma unreach_loop_hits:
  assumes "routed sr" "\<forall>p \<in> set ps. source_mapped sr p" "req_store (cache sr) q \<noteq> None"
  shows "\<exists>sr' msgs. unreach_loop handle sr q ip ps = Inr sr' \<and> cache sr' = cache sr
    \<and> sock_out sr' = sock_out sr @ msgs \<and> list_all2 (unreach_for sr ip) ps msgs"
  using assms
proof (induction ps arbitrary: sr)
  case (Cons p ps)
  from Cons.prems have "source_mapped sr p" by simp
  from host_unreachable_hit [OF Cons.prems(1) this, of handle ip] obtain sr1 msg
    where s1: "host_unreachable handle sr ip p = Inr sr1" "cache sr1 = cache sr"
      "if_list sr1 = if_list sr" "routing_table sr1 = routing_table sr"
      "sock_out sr1 = sock_out sr @ [msg]" "unreach_for sr ip p msg"
    by blast
  note env = same_env [OF s1(2,3,4)]
  obtain sr2 msgs where "unreach_loop handle sr1 q ip ps = Inr sr2" "cache sr2 = cache sr"
    "sock_out sr2 = sock_out sr1 @ msgs" "list_all2 (unreach_for sr1 ip) ps msgs"
    using Cons.IH [of sr1] Cons.prems s1(2) by (auto simp: env)
  with s1 Cons.prems(3) env(1) show ?case
    by (intro exI [of _ sr2] exI [of _ "msg # msgs"]) (auto simp: get_req_def)
qed simp

lemma expired_handled:
  assumes "sr_verify_routing_table sr = 0" "\<forall>ip. sr_findLPMentry (routing_table sr) ip \<noteq> None"
    and r: "req_store (cache sr) q = Some r" "rq_times_sent r \<ge> 5"
    and "clk sr (ticks sr) - rq_sent r > 1"
    and "\<forall>p \<in> set (rq_packets r). source_mapped sr p"
  shows "\<exists>sr' msgs. sr_arpcache_handle_arpreq (Suc n) sr q = Inr sr'
    \<and> sock_out sr' = sock_out sr @ msgs \<and> list_all2 (unreach_for sr (rq_ip r)) (rq_packets r) msgs
    \<and> requests (cache sr') = remove1 q (requests (cache sr)) \<and> req_store (cache sr') q = None"
proof -
  let ?sr1 = "sr\<lparr>ticks := Suc (ticks sr)\<rparr>"
  note env = same_env [of ?sr1 sr, simplified]
  have "routed sr" using assms(1,2) by (simp add: routed_def)
  then obtain sr2 msgs where "unreach_loop (sr_arpcache_handle_arpreq n) ?sr1 q (rq_ip r) (rq_packets r) = Inr sr2"
    "cache sr2 = cache sr" "sock_out sr2 = sock_out sr @ msgs"
    "list_all2 (unreach_for sr (rq_ip r)) (rq_packets r) msgs"
    using unreach_loop_hits [of ?sr1 "rq_packets r" q "sr_arpcache_handle_arpreq n" "rq_ip r"] assms(6) r(1)
    by (auto simp: env)
  then show ?thesis
    using r assms(5) by (auto simp: sr_time_def get_req_def sr_arpreq_destroy_def)
qed

text \<open>
  C13: a request that was sent five times without an answer, with every waiting frame long
  enough to quote and its source's gateway known, ends with one ICMP host unreachable message to the
  source of each waiting frame, in queue order, and is removed from the queue and freed.
\<close>

theorem expired_request_unreachable:
  assumes "sr_verify_routing_table sr = 0" "\<forall>ip. sr_findLPMentry (routing_table sr) ip \<noteq> None"
    and "req_store (cache sr) q = Some r" "rq_times_sent r \<ge> 5"
    and "clk sr (ticks sr) - rq_sent r > 1"
    and "\<forall>p \<in> set (rq_packets r). source_mapped sr p"
  shows "\<exists>sr' msgs. sr_arpcache_handle_arpreq (Suc n) sr q = Inr sr'
    \<and> sock_out sr' = sock_out sr @ msgs \<and> list_all2 (unreach_for sr (rq_ip r)) (rq_packets r) msgs
    \<and> requests (cache sr') = remove1 q (requests (cache sr)) \<and> req_store (cache sr') q = None"
  by (rule expired_handled [OF assms])

end
