(* ===== verification/Sr_Examples.thy ===== *)
theory Sr_Examples
  imports Sr_Arp_Life
begin

text \<open>
  A concrete router with two interfaces, frames for each kind of traffic, and the theorems about the
  router applied to them.
\<close>

section \<open>The router\<close>

definition demo_if1 :: sr_if where
  "demo_if1 = \<lparr>if_name = ''eth1'', if_addr = (2, 0, 0, 0, 0, 1), if_ip = 0x0101A8C0, if_speed = 0\<rparr>"

definition demo_if2 :: sr_if where
  "demo_if2 = \<lparr>if_name = ''eth2'', if_addr = (2, 0, 0, 0, 0, 2), if_ip = 0x0102A8C0, if_speed = 0\<rparr>"

text \<open>192.168.1.0/24 and 0.0.0.0/1 by eth1 and 192.168.1.2, 128.0.0.0/1 by eth2 and 192.168.2.2.\<close>

definition demo_rt0 :: sr_rt where
  "demo_rt0 = \<lparr>rt_dest = 0x0001A8C0, rt_gw = 0x0201A8C0, rt_mask = 0x00FFFFFF, rt_interface = ''eth1''\<rparr>"

definition demo_rt1 :: sr_rt where
  "demo_rt1 = \<lparr>rt_dest = 0, rt_gw = 0x0201A8C0, rt_mask = 0x80, rt_interface = ''eth1''\<rparr>"

definition demo_rt2 :: sr_rt where
  "demo_rt2 = \<lparr>rt_dest = 0x80, rt_gw = 0x0202A8C0, rt_mask = 0x80, rt_interface = ''eth2''\<rparr>"

definition demo_entry1 :: sr_arpentry where
  "demo_entry1 = \<lparr>ae_mac = (4, 0, 0, 0, 0, 1), ae_ip = 0x0201A8C0, ae_added = 0, ae_valid = True\<rparr>"

definition demo_entry2 :: sr_arpentry where
  "demo_entry2 = \<lparr>ae_mac = (4, 0, 0, 0, 0, 2), ae_ip = 0x0202A8C0, ae_added = 0, ae_valid = True\<rparr>"

definition demo_cache :: "sr_arpentry list \<Rightarrow> sr_arpcache" where
  "demo_cache es = \<lparr>entries = es @ replicate (SR_ARPCACHE_SZ - length es) zero_entry, requests = [],
     req_store = Map.empty, req_fresh = 0\<rparr>"

definition demo :: "sr_arpcache \<Rightarrow> sr_instance" where
  "demo c = \<lparr>sr_user = [], sr_host = [], sr_template = [], topo_id = 0,
     if_list = [demo_if1, demo_if2], routing_table = [demo_rt0, demo_rt1, demo_rt2], cache = c,
     logfile = None, tod = (\<lambda>_. (0, 0)), tods = 0, clk = (\<lambda>k. 10 + int k), ticks = 0, sock_write = (\<lambda>b. int (length b)), sock_out = []\<rparr>"

abbreviation demo_known :: sr_instance where
  "demo_known \<equiv> demo (demo_cache [demo_entry1, demo_entry2])"

abbreviation demo_empty :: sr_instance where
  "demo_empty \<equiv> demo (demo_cache [])"

section \<open>The frames\<close>

text \<open>An echo request from 20.0.0.5 to 192.168.1.1.\<close>

definition demo_echo :: bytes where
  "demo_echo = [2, 0, 0, 0, 0, 1, 4, 0, 0, 0, 0, 1, 8, 0, 69, 0, 0, 30, 0, 7, 0, 0, 64, 1, 165, 42,
     20, 0, 0, 5, 192, 168, 1, 1, 8, 0, 150, 154, 0, 1, 0, 2, 97, 98]"

text \<open>UDP from 20.0.0.5 to 200.1.2.3, with TTL 64 and with TTL 1.\<close>

definition demo_fwd :: bytes where
  "demo_fwd = [2, 0, 0, 0, 0, 1, 4, 0, 0, 0, 0, 1, 8, 0, 69, 0, 0, 24, 0, 7, 0, 0, 64, 17, 156, 197,
     20, 0, 0, 5, 200, 1, 2, 3, 1, 2, 3, 4]"

definition demo_ttl1 :: bytes where
  "demo_ttl1 = [2, 0, 0, 0, 0, 1, 4, 0, 0, 0, 0, 1, 8, 0, 69, 0, 0, 28, 0, 7, 0, 0, 1, 17, 219, 193,
     20, 0, 0, 5, 200, 1, 2, 3, 1, 2, 3, 4, 5, 6, 7, 8]"

text \<open>An echo request from 10.0.2.9.\<close>

definition demo_black :: bytes where
  "demo_black = [2, 0, 0, 0, 0, 1, 4, 0, 0, 0, 0, 1, 8, 0, 69, 0, 0, 28, 0, 7, 0, 0, 64, 1, 173, 40,
     10, 0, 2, 9, 192, 168, 1, 1, 8, 0, 247, 252, 0, 1, 0, 2]"

text \<open>An ARP request of 192.168.1.9 for 192.168.1.1, and a reply of 192.168.1.2 to 192.168.1.1.\<close>

definition demo_arp :: bytes where
  "demo_arp = [255, 255, 255, 255, 255, 255, 4, 0, 0, 0, 0, 9, 8, 6, 0, 1, 8, 0, 6, 4, 0, 1,
     4, 0, 0, 0, 0, 9, 192, 168, 1, 9, 0, 0, 0, 0, 0, 0, 192, 168, 1, 1]"

definition demo_reply :: bytes where
  "demo_reply = [2, 0, 0, 0, 0, 1, 4, 0, 0, 0, 0, 1, 8, 6, 0, 1, 8, 0, 6, 4, 0, 2,
     4, 0, 0, 0, 0, 1, 192, 168, 1, 2, 2, 0, 0, 0, 0, 1, 192, 168, 1, 1]"

lemma ip_validI:
  assumes "34 \<le> length packet" "ip_v (ld_struct 20 dec_ip packet 14) = 4"
    and "ip_sum (ld_struct 20 dec_ip packet 14) =
      cksum (bslice (st_bytes packet 14 (enc_ip ((ld_struct 20 dec_ip packet 14)\<lparr>ip_sum := 0\<rparr>))) 14 20)"
  shows "ip_valid packet"
  using assms ip_cksum_check [OF assms(1)] by (simp add: ip_valid_def)

lemma icmp_cksum_okI:
  assumes "38 \<le> length packet" "length packet \<le> 131104"
    and "icmp_sum (ld_struct 4 dec_icmp packet 34) = cksum (bslice (st_bytes packet 34
      (enc_icmp ((ld_struct 4 dec_icmp packet 34)\<lparr>icmp_sum := 0\<rparr>))) 34 (length packet - 34))"
  shows "icmp_cksum_ok packet"
  using assms icmp_cksum_check [OF assms(1,2)] by simp

lemma demo_lengths:
  "length demo_echo = 44" "length demo_fwd = 38" "length demo_ttl1 = 42" "length demo_black = 42"
  "length demo_arp = 42" "length demo_reply = 42"
  by (simp_all add: demo_echo_def demo_fwd_def demo_ttl1_def demo_black_def demo_arp_def demo_reply_def)

lemma demo_valid: "ip_valid demo_echo" "ip_valid demo_fwd" "ip_valid demo_ttl1"
  by (rule ip_validI; code_simp)+

lemma demo_echo_icmp: "icmp_cksum_ok demo_echo"
  by (rule icmp_cksum_okI) (simp add: demo_lengths, simp add: demo_lengths, code_simp)

lemma demo_types:
  "ether_type (ld_struct 14 dec_ether demo_echo 0) = htons ethertype_ip"
  "ether_type (ld_struct 14 dec_ether demo_fwd 0) = htons ethertype_ip"
  "ether_type (ld_struct 14 dec_ether demo_ttl1 0) = htons ethertype_ip"
  "ether_type (ld_struct 14 dec_ether demo_black 0) = htons ethertype_ip"
  "ether_type (ld_struct 14 dec_ether demo_arp 0) = htons ethertype_arp"
  "ether_type (ld_struct 14 dec_ether demo_reply 0) = htons ethertype_arp"
  by code_simp+

lemma demo_not_black:
  "\<not> ip_black_list (ld_struct 20 dec_ip demo_echo 14)" "\<not> ip_black_list (ld_struct 20 dec_ip demo_fwd 14)"
  "\<not> ip_black_list (ld_struct 20 dec_ip demo_ttl1 14)"
  by (subst ip_black_list_bytes; code_simp)+

lemma demo_get_interface:
  "sr_get_interface (demo c) (rt_interface demo_rt0) = Some demo_if1"
  "sr_get_interface (demo c) (rt_interface demo_rt1) = Some demo_if1"
  "sr_get_interface (demo c) (rt_interface demo_rt2) = Some demo_if2"
  by code_simp+

lemma demo_routes:
  "sr_findLPMentry (routing_table (demo c)) 0x05000014 = Some demo_rt1"
  "sr_findLPMentry (routing_table (demo c)) 0x030201C8 = Some demo_rt2"
  "sr_findLPMentry (routing_table (demo c)) 0x0101A8C0 = Some demo_rt0"
  by code_simp+

lemma demo_lookup:
  "sr_arpcache_lookup (cache demo_known) (rt_gw demo_rt1) = Some demo_entry1"
  "sr_arpcache_lookup (cache demo_known) (rt_gw demo_rt2) = Some demo_entry2"
  by code_simp+

lemma demo_verify: "sr_verify_routing_table (demo c) = 0"
  by code_simp

lemma and_push_bit_cases: "x AND push_bit k 1 = 0 \<or> x AND push_bit k 1 = push_bit k (1 :: u32)"
proof (cases "bit x k")
  case True
  then have "x AND push_bit k 1 = push_bit k 1"
    by (intro bit_word_eqI) (auto simp: bit_simps)
  then show ?thesis ..
next
  case False
  then have "x AND push_bit k 1 = 0"
    by (intro bit_word_eqI) (auto simp: bit_simps)
  then show ?thesis ..
qed

lemma demo_routed: "\<forall>ip. sr_findLPMentry (routing_table (demo c)) ip \<noteq> None"
proof
  fix ip
  have b: "bswap32 0x80 = 0x80000000" "bswap32 0 = 0"
    by code_simp+
  have "push_bit 31 1 = (0x80000000 :: u32)"
    by simp
  then have "ntohl ip AND 0x80000000 = 0 \<or> ntohl ip AND 0x80000000 = 0x80000000"
    using and_push_bit_cases [of "ntohl ip" 31] by metis
  then have "rt_match (ntohl ip) demo_rt1 \<or> rt_match (ntohl ip) demo_rt2"
    by (auto simp: rt_match_def demo_rt1_def demo_rt2_def b)
  then show "sr_findLPMentry (routing_table (demo c)) ip \<noteq> None"
    by (auto simp: findLPM_None_iff demo_def demo_rt1_def demo_rt2_def)
qed

lemma demo_srcs:
  "ip_src (ld_struct 20 dec_ip demo_echo 14) = 0x05000014" "ip_src (ld_struct 20 dec_ip demo_fwd 14) = 0x05000014"
  "ip_src (ld_struct 20 dec_ip demo_ttl1 14) = 0x05000014"
  "ip_dst (ld_struct 20 dec_ip demo_fwd 14) = 0x030201C8" "ip_dst (ld_struct 20 dec_ip demo_ttl1 14) = 0x030201C8"
  by code_simp+


section \<open>The theorems on the example\<close>

theorem sr_findLPMentry_longest_witness:
  "sr_findLPMentry [demo_rt0, demo_rt1, demo_rt2] 0x0501A8C0 = Some demo_rt0
   \<and> (\<exists>us vs. [demo_rt0, demo_rt1, demo_rt2] = us @ demo_rt0 # vs \<and> rt_match (ntohl 0x0501A8C0) demo_rt0)"
proof -
  have "sr_findLPMentry [demo_rt0, demo_rt1, demo_rt2] 0x0501A8C0 = Some demo_rt0"
    by code_simp
  then show ?thesis
    using sr_findLPMentry_longest [of "[demo_rt0, demo_rt1, demo_rt2]" "0x0501A8C0"] by metis
qed

theorem echo_request_answered_witness:
  "\<exists>sr' f. sr_handlepacket 1 demo_known demo_echo ''eth1'' = Inr sr'
    \<and> sock_out sr' = [packet_message f ''eth1''] \<and> drop 38 f = [0, 1, 0, 2, 97, 98]
    \<and> ip_cksum_ok f \<and> icmp_cksum_ok f"
proof -
  let ?h = "ld_struct 20 dec_ip demo_echo 14" and ?ic = "ld_struct 4 dec_icmp demo_echo 34"
  have f: "ip_p ?h = ip_protocol_icmp" "\<exists>i \<in> set (if_list demo_known). if_ip i = ip_dst ?h"
    "icmp_type ?ic = 8" "icmp_sum ?ic \<noteq> 0"
    by code_simp+
  have l: "38 \<le> length demo_echo" "length demo_echo \<le> 131104"
    by (simp_all add: demo_lengths)
  have e: "sock_out demo_known = []" "rt_interface demo_rt1 = ''eth1''"
    "drop 38 demo_echo = [0, 1, 0, 2, 97, 98]"
    by code_simp+
  have rt: "sr_findLPMentry (routing_table demo_known) (ip_src ?h) = Some demo_rt1"
    by (simp only: demo_srcs demo_routes)
  show ?thesis
    using echo_request_answered [OF demo_types(1) demo_valid(1) l refl f(1) demo_not_black(1) f(2) refl
        f(3,4) demo_echo_icmp rt demo_get_interface(2) demo_lookup(1), of 1 "''eth1''"]
    unfolding e by auto
qed

theorem ip_packet_forwarded_witness:
  "\<exists>sr' f. sr_handlepacket 1 demo_known demo_fwd ''eth1'' = Inr sr'
    \<and> sock_out sr' = [packet_message f ''eth2''] \<and> drop 34 f = [1, 2, 3, 4]
    \<and> (ld_struct 20 dec_ip f 14)\<lparr>ip_sum := 0\<rparr> =
        (ld_struct 20 dec_ip demo_fwd 14)\<lparr>ip_ttl := 63, ip_sum := 0\<rparr> \<and> ip_cksum_ok f"
proof -
  let ?h = "ld_struct 20 dec_ip demo_fwd 14"
  have f: "ip_ttl ?h \<noteq> 1" "\<not> (\<exists>i \<in> set (if_list demo_known). if_ip i = ip_dst ?h)" "ip_ttl ?h = 64"
    by code_simp+
  have e: "sock_out demo_known = []" "rt_interface demo_rt2 = ''eth2''" "drop 34 demo_fwd = [1, 2, 3, 4]"
    by code_simp+
  have rt: "sr_findLPMentry (routing_table demo_known) (ip_dst ?h) = Some demo_rt2"
    by (simp only: demo_srcs demo_routes)
  show ?thesis
    using ip_packet_forwarded [OF demo_types(2) demo_valid(2) refl demo_not_black(2) f(1,2) rt
        demo_get_interface(3) demo_lookup(2), of 1 "''eth1''"]
    unfolding e f(3) by auto
qed

theorem icmp_error_sent_witness:
  "\<exists>sr' f. sr_handlepacket 1 demo_known demo_ttl1 ''eth1'' = Inr sr'
    \<and> sock_out sr' = [packet_message f ''eth1''] \<and> length f = 98
    \<and> (ld_struct 36 dec_t3 f 34)\<lparr>t3_icmp_sum := 0\<rparr> = \<lparr>t3_icmp_type = 11, t3_icmp_code = 0,
        t3_icmp_sum = 0, t3_unused = 0, t3_next_mtu = htons 0xFF, t3_data = bslice demo_ttl1 14 28\<rparr>
    \<and> icmp_cksum_ok f"
proof -
  let ?h = "ld_struct 20 dec_ip demo_ttl1 14"
  have l: "42 \<le> length demo_ttl1" "length demo_ttl1 \<le> 131104"
    by (simp_all add: demo_lengths)
  have "\<not> (\<exists>i \<in> set (if_list demo_known). if_ip i = ip_dst ?h)" "ip_ttl ?h = 1"
    by code_simp+
  moreover have "sr_findLPMentry (routing_table demo_known) (ip_dst ?h) = Some demo_rt2"
    and rt: "sr_findLPMentry (routing_table demo_known) (ip_src ?h) = Some demo_rt1"
    by (simp_all only: demo_srcs demo_routes)
  ultimately have due: "icmp_error_due demo_known demo_ttl1 = Some (98, 11, 0)"
    by (simp add: icmp_error_due_def Let_def)
  have e: "sock_out demo_known = []" "rt_interface demo_rt1 = ''eth1''"
    by code_simp+
  show ?thesis
    using icmp_error_sent [OF demo_types(3) demo_valid(3) l refl demo_not_black(3) due rt
        demo_get_interface(2) demo_lookup(1), of 1 "''eth1''"]
    unfolding e by auto
qed

theorem arp_request_answered_witness:
  "\<exists>sr'. sr_handlepacket 1 demo_empty demo_arp ''eth1'' = Inr sr' \<and> length (sock_out sr') = 1"
proof -
  let ?a = "ld_struct 28 dec_arp demo_arp 14"
  have a: "ar_op ?a = htons arp_op_request" "if_ip demo_if1 = ar_tip ?a" "ar_tip ?a = 0x0101A8C0"
    "sock_out demo_empty = []"
    by code_simp+
  have rt: "sr_findLPMentry (routing_table demo_empty) (ar_tip ?a) = Some demo_rt0"
    by (simp only: a demo_routes)
  show ?thesis
    using arp_request_answered [OF _ demo_types(5) refl a(1) rt demo_get_interface(1) a(2), of 1 "''eth1''"]
    by (auto simp: demo_lengths a(4))
qed

section \<open>Reachable states of the example\<close>

text \<open>The router after \<^verbatim>\<open>sr_init\<close> and the ARP request of the example.\<close>

definition demo_step :: "sr_instance \<Rightarrow> bytes \<Rightarrow> sr_instance" where
  "demo_step sr packet = (case sr_handlepacket 1 sr packet ''eth1'' of Inr sr' \<Rightarrow> sr' | Inl _ \<Rightarrow> sr)"

abbreviation demo_answered :: sr_instance where
  "demo_answered \<equiv> demo_step (sr_init demo_empty) demo_arp"

lemma demo_fresh: "fresh_router demo_empty"
  by (simp add: fresh_router_def demo_def demo_cache_def)

lemma demo_answered_reach: "sr_reach 1 demo_empty demo_answered"
proof -
  have "isl (sr_handlepacket 1 (sr_init demo_empty) demo_arp ''eth1'') = False"
    by code_simp
  then have "sr_handlepacket 1 (sr_init demo_empty) demo_arp ''eth1'' = Inr demo_answered"
    by (auto simp: demo_step_def split: sum.splits)
  then show ?thesis
    by (rule sr_reach.packet [OF sr_reach.init])
qed

definition demo_logging :: sr_instance where
  "demo_logging = demo_empty\<lparr>logfile := sr_dump_open (\<lambda>_. True) ''log'' 0 (of_nat PACKET_DUMP_SIZE)\<rparr>"

abbreviation demo_logged :: sr_instance where
  "demo_logged \<equiv> demo_step (sr_init demo_logging) demo_arp"

lemma demo_logged_reach: "sr_reach 1 demo_logging demo_logged"
proof -
  have "isl (sr_handlepacket 1 (sr_init demo_logging) demo_arp ''eth1'') = False" by code_simp
  then have "sr_handlepacket 1 (sr_init demo_logging) demo_arp ''eth1'' = Inr demo_logged"
    by (auto simp: demo_step_def split: sum.splits)
  then show ?thesis by (rule sr_reach.packet [OF sr_reach.init])
qed

section \<open>A pending request\<close>

text \<open>The frame of the example waits for 192.168.2.2, which was asked for \<open>k\<close> times.\<close>

definition demo_wait :: sr_packet where
  "demo_wait = \<lparr>pk_buf = set_shost demo_ttl1 (2, 0, 0, 0, 0, 1), pk_iface = ''eth1''\<rparr>"

definition demo_req :: "u32 \<Rightarrow> sr_arpreq" where
  "demo_req k = \<lparr>rq_ip = 0x0201A8C0, rq_sent = 0, rq_times_sent = k, rq_packets = [demo_wait]\<rparr>"

definition demo_pending :: "sr_arpentry list \<Rightarrow> u32 \<Rightarrow> sr_instance" where
  "demo_pending es k = demo ((demo_cache es)\<lparr>requests := [0], req_store := [0 \<mapsto> demo_req k], req_fresh := 1\<rparr>)"

lemma demo_cache_size: "length es \<le> 100 \<Longrightarrow> length (entries (demo_cache es)) = SR_ARPCACHE_SZ"
  by (simp add: demo_cache_def SR_ARPCACHE_SZ_def)

lemma demo_wait_ok: "pkt_ok (if_list (demo c)) demo_wait"
proof -
  have "sendable (if_list (demo c)) (pk_buf demo_wait) (pk_iface demo_wait)"
    unfolding demo_wait_def
    using sendable_set_shost [of demo_ttl1 "if_list (demo c)" "''eth1''" demo_if1]
    by (simp add: demo_lengths demo_def demo_if1_def strncmp_eq_def)
  moreover have "frame_ok (pk_buf demo_wait)"
    using frame_ok_ip_valid [OF demo_valid(3) demo_types(3)] by (simp add: demo_wait_def)
  ultimately show ?thesis by (simp add: pkt_ok_def)
qed

lemma demo_pending_inv:
  "length es \<le> 100 \<Longrightarrow> arp_inv (if_list (demo_pending es k)) (cache (demo_pending es k))"
  using demo_wait_ok demo_cache_size
  by (auto simp: demo_pending_def arp_inv_def store_ok_def req_ok_def demo_req_def demo_def
      split: if_splits)

lemma demo_inv: "length es \<le> 100 \<Longrightarrow> arp_inv (if_list (demo c)) (demo_cache es)"
  using demo_cache_size by (auto simp: arp_inv_def store_ok_def demo_cache_def)

theorem arp_reply_releases_witness:
  "\<exists>sr'. sr_handlepacket 1 (demo_pending [] 1) demo_reply ''eth1'' = Inr sr'
    \<and> length (sock_out sr') = 1 \<and> requests (cache sr') = []"
proof -
  let ?sr = "demo_pending [] 1" and ?a = "ld_struct 28 dec_arp demo_reply 14"
  have a: "ar_op ?a = htons arp_op_reply" "if_ip demo_if1 = ar_tip ?a" "ar_tip ?a = 0x0101A8C0"
    "ar_sip ?a = 0x0201A8C0"
    by code_simp+
  have e: "sock_out ?sr = []" "rq_packets (demo_req 1) = [demo_wait]" "remove1 0 (requests (cache ?sr)) = []"
    by (simp_all add: demo_pending_def demo_def demo_req_def)
  have rt: "sr_findLPMentry (routing_table ?sr) (ar_tip ?a) = Some demo_rt0"
    unfolding demo_pending_def a by (rule demo_routes)
  have req: "req_store (cache ?sr) 0 = Some (demo_req 1)" "rq_ip (demo_req 1) = ar_sip ?a"
    by (simp_all add: demo_pending_def demo_def demo_req_def a)
  have room: "\<exists>e \<in> set (entries (cache ?sr)). \<not> ae_valid e"
    by (simp add: demo_pending_def demo_def demo_cache_def SR_ARPCACHE_SZ_def zero_entry_def)
  have new: "sr_arpcache_lookup (cache ?sr) (ar_sip ?a) = None"
    by (simp add: sr_arpcache_lookup_def demo_pending_def demo_def demo_cache_def lookup_scan_None_iff
        arp_hit_def zero_entry_def)
  have v: "sr_verify_routing_table ?sr = 0" "\<forall>ip. sr_findLPMentry (routing_table ?sr) ip \<noteq> None"
    "sr_get_interface ?sr (rt_interface demo_rt0) = Some demo_if1"
    unfolding demo_pending_def by (rule demo_verify, rule demo_routed, rule demo_get_interface)
  have inv: "arp_inv (if_list ?sr) (cache ?sr)"
    by (rule demo_pending_inv) simp
  show ?thesis
    using arp_reply_releases [OF inv v(1,2) _ demo_types(6) refl a(1) rt v(3) a(2) req room new,
        of 1 "''eth1''"]
    unfolding e by (auto simp: demo_lengths)
qed

theorem arp_miss_queues_witness:
  "\<exists>sr'. sr_handlepacket 1 demo_empty demo_fwd ''eth1'' = Inr sr' \<and> length (sock_out sr') = 1
    \<and> length (requests (cache sr')) = 1"
proof -
  let ?h = "ld_struct 20 dec_ip demo_fwd 14"
  have f: "ip_ttl ?h \<noteq> 1" "\<not> (\<exists>i \<in> set (if_list demo_empty). if_ip i = ip_dst ?h)"
    "sr_arpcache_lookup (cache demo_empty) (rt_gw demo_rt2) = None" "clk demo_empty (ticks demo_empty) > 1"
    "sock_out demo_empty = []" "requests (cache demo_empty) = []"
    by code_simp+
  have rt: "sr_findLPMentry (routing_table demo_empty) (ip_dst ?h) = Some demo_rt2"
    by (simp only: demo_srcs demo_routes)
  have inv: "arp_inv (if_list demo_empty) (cache demo_empty)"
    using demo_inv [of "[]"] by (simp add: demo_def)
  have none: "\<forall>a r. req_store (cache demo_empty) a = Some r \<longrightarrow> rq_ip r \<noteq> rt_gw demo_rt2"
    by (simp add: demo_def demo_cache_def)
  show ?thesis
    using arp_miss_queues [OF inv demo_types(2) demo_valid(2) refl demo_not_black(2) f(1,2) rt
        demo_get_interface(3) f(3) none f(4), of 0 "''eth1''"]
    by (auto simp: f)
qed


theorem expired_request_unreachable_witness:
  "\<exists>sr' msg. sr_arpcache_handle_arpreq 1 (demo_pending [demo_entry1] 5) 0 = Inr sr'
    \<and> sock_out sr' = [msg] \<and> unreach_for (demo_pending [demo_entry1] 5) 0x0201A8C0 demo_wait msg
    \<and> requests (cache sr') = []"
proof -
  let ?sr = "demo_pending [demo_entry1] 5"
  have r: "req_store (cache ?sr) 0 = Some (demo_req 5)" "rq_times_sent (demo_req 5) \<ge> 5"
    "clk ?sr (ticks ?sr) - rq_sent (demo_req 5) > 1"
    by (simp_all add: demo_pending_def demo_def demo_req_def)
  have "sr_arpcache_lookup (cache ?sr) (rt_gw demo_rt1) = Some demo_entry1"
    by code_simp
  moreover have "ip_src (ld_struct 20 dec_ip (pk_buf demo_wait) 14) = 0x05000014"
    by (simp add: demo_wait_def demo_srcs)
  ultimately have "source_mapped ?sr demo_wait"
    using demo_routes(1) unfolding source_mapped_def demo_pending_def
    by (simp add: demo_wait_def demo_lengths)
  then have m: "\<forall>p \<in> set (rq_packets (demo_req 5)). source_mapped ?sr p"
    by (simp add: demo_req_def)
  have e: "sock_out ?sr = []" "rq_packets (demo_req 5) = [demo_wait]" "remove1 0 (requests (cache ?sr)) = []"
    "rq_ip (demo_req 5) = 0x0201A8C0"
    by (simp_all add: demo_pending_def demo_def demo_req_def)
  have v: "sr_verify_routing_table ?sr = 0" "\<forall>ip. sr_findLPMentry (routing_table ?sr) ip \<noteq> None"
    unfolding demo_pending_def by (rule demo_verify, rule demo_routed)
  show ?thesis
    using expired_request_unreachable [OF v r m, of 0] unfolding e One_nat_def
    by (auto simp: list_all2_Cons1 simp del: sr_arpcache_handle_arpreq.simps)
qed

end
