(* ===== verification/Sr_Vns_Examples.thy ===== *)
theory Sr_Vns_Examples
  imports Sr_Vns_Props Sr_Examples
begin

text \<open>
  A concrete server connection and router state, and the theorems about the session applied to them.
\<close>

definition demo_env :: vns_env where
  "demo_env = \<lparr>auth_file = Some ''secret'', key_garbage = replicate 65 0, sha_garbage = demo_sha,
     if_garbage = demo_if1, can_write = (\<lambda>_. True)\<rparr>"

definition demo_vns :: vns_state where
  "demo_vns = \<lparr>vs_sr = demo_known, vs_files = [], vs_closed = False\<rparr>"

theorem vns_eof_never_returns_witness:
  "main_loop demo_env 5 list_reader demo_vns [] = None"
  by (rule vns_eof_never_returns) (simp add: list_reader_def)

end
