(* ===== verification/Sr_Print_Props.thy ===== *)
theory Sr_Print_Props
  imports Sr_Print
begin

text \<open>
  Printing is safe and faithful: \<^verbatim>\<open>print_hdrs\<close> reads nothing outside a frame, and the printed lines of a routing
  table, saved as a file, load to the same table.
\<close>

section \<open>Addresses\<close>

lemma dec_0: "dec 0 = ''0''"
  by code_simp

lemma dec_head: "0 < n \<Longrightarrow> hd (dec n) \<noteq> CHR ''0''"
proof (induction n rule: dec.induct)
  case (1 n)
  show ?case
  proof (cases "n < 10")
    case True
    have "(of_char (char_of (48 + n) :: char) :: nat) = 48 + n" using True by simp
    then show ?thesis using True 1(2) by (subst dec.simps) (auto simp del: of_char_of)
  next
    case False
    then have "hd (dec (n div 10)) \<noteq> CHR ''0''" using 1(1) by simp
    then show ?thesis using False dec_not_empty [of "n div 10"] by (subst dec.simps) simp
  qed
qed

lemma strtoul0_dec:
  assumes "r = [] \<or> hd r = CHR ''.''"
  shows "strtoul0 (dec n @ r) = (int n, r)"
proof -
  have stop: "scan_number 10 (int n) r = (int n, r)" "scan_number 8 0 r = (0, r)"
    using assms by (cases r; simp add: digit_value_def)+
  show ?thesis
  proof (cases "n = 0")
    case True
    then have "dec n @ r = CHR ''0'' # r" by (simp add: dec_0)
    moreover have "strtoul0 (CHR ''0'' # r) = scan_number 8 0 (CHR ''0'' # r)"
      using assms by (cases r) (auto simp: strtoul0_def)
    ultimately show ?thesis using True stop(2) by (simp add: digit_value_def)
  next
    case False
    obtain c cs where d: "dec n = c # cs" using dec_not_empty by (cases "dec n") auto
    then have "c \<noteq> CHR ''0''" using dec_head [of n] False by simp
    then have "strtoul0 (dec n @ r) = scan_number 10 0 (dec n @ r)"
      unfolding d by (simp add: strtoul0_def del: scan_number.simps)
    then show ?thesis using scan_number_dec [of n r] stop(1) by simp
  qed
qed

lemma dec_isdigit: "c_isdigit (hd (dec n @ r))"
  using dec_digits [of n] dec_not_empty [of n] by (cases "dec n") auto

lemma aton_parts_dot:
  "n < 256 \<Longrightarrow> aton_parts (Suc k) ps (dec n @ CHR ''.'' # r) = aton_parts k (ps @ [int n]) r"
  using dec_isdigit [of n "CHR ''.'' # r"]
  by (subst aton_parts.simps) (simp add: strtoul0_dec)

lemma aton_parts_last:
  "n < 256 \<Longrightarrow> length ps = 3 \<Longrightarrow> aton_parts k ps (dec n) = Some (ps, int n)"
  using dec_isdigit [of n "[]"] strtoul0_dec [of "[]" n] dec_not_empty [of n]
  by (subst aton_parts.simps) (simp add: aton_max_def)

lemma aton_bytes:
  "htonl (of_int (uint b0 * 2 ^ 24 + (uint b1 * 2 ^ 16 + (uint b2 * 2 ^ 8 + uint b3)))) = ld32 [b0, b1, b2, b3 :: u8] 0"
proof -
  have "(of_int (uint b0 * 2 ^ 24 + (uint b1 * 2 ^ 16 + (uint b2 * 2 ^ 8 + uint b3))) :: u32) =
      push_bit 24 (ucast b0) + (push_bit 16 (ucast b1) + (push_bit 8 (ucast b2) + ucast b3))"
    by (simp add: push_bit_eq_mult unsigned_of_int [symmetric] word_of_int_uint)
  also have "\<dots> = push_bit 24 (ucast b0) OR (push_bit 16 (ucast b1) OR (push_bit 8 (ucast b2) OR ucast b3))"
    by (subst disjunctive_add; (subst disjunctive_add)?; (subst disjunctive_add)?; auto simp: bit_simps dest: bit_imp_le_length)
  finally show ?thesis
    by (simp only:) (rule bit_word_eqI, auto simp: bit_bswap32 ld32_def bit_simps dest: bit_imp_le_length)
qed

lemma inet_aton_ntoa: "inet_aton (inet_ntoa a) = Some a"
proof -
  let ?b = "le32 a"
  have "aton_parts 3 [] (inet_ntoa a) = Some ([int (unat (?b ! 0)), int (unat (?b ! 1)), int (unat (?b ! 2))], int (unat (?b ! 3)))"
    by (simp add: inet_ntoa_def Let_def numeral_3_eq_3 aton_parts_dot aton_parts_last unat_u8_less del: le32_def)
  moreover have "[?b ! 0, ?b ! 1, ?b ! 2, ?b ! 3] = ?b" by (simp add: le32_def)
  ultimately show ?thesis
    using aton_bytes [of "?b ! 0" "?b ! 1" "?b ! 2" "?b ! 3"] ld32_of_le32 [of "?b" 0 a]
    by (simp add: inet_aton_def aton_value_def enumerate_eq_zip)
qed

section \<open>Headers\<close>

lemma ld_hdr_ok: "off + sz \<le> length buf \<Longrightarrow> ld_hdr sz d buf off = Inr (ld_struct sz d buf off)"
  by (simp add: ld_hdr_def guard_def)

lemma print_hdrs_in_bounds: "len \<le> length buf \<Longrightarrow> \<exists>s. print_hdrs buf len = Inr s"
  by (auto simp: print_hdrs_def ethertype_def ip_protocol_def print_hdr_eth_def print_hdr_ip_def print_hdr_icmp_def
      print_hdr_arp_def ld_hdr_ok sizeof_ethernet_hdr_def sizeof_ip_hdr_def sizeof_icmp_hdr_def sizeof_arp_hdr_def)

section \<open>Routing tables\<close>

text \<open>A word as \<^verbatim>\<open>%s\<close> reads it.\<close>

definition plain_word :: "string \<Rightarrow> bool" where
  "plain_word w \<longleftrightarrow> w \<noteq> [] \<and> length w < 32 \<and> list_all (\<lambda>c. \<not> c_isspace c \<and> c \<noteq> CHR 0x00) w"

lemma scan_words_skip: "c_isspace c \<Longrightarrow> scan_words k (c # r) = scan_words k r"
  by (cases k) simp_all

lemma scan_words_word:
  assumes "plain_word w" "c_isspace c"
  shows "scan_words (Suc k) (w @ c # r) = w # scan_words k r"
proof -
  have w: "\<forall>x \<in> set w. \<not> c_isspace x" "w \<noteq> []" using assms(1) by (auto simp: plain_word_def list_all_iff)
  have "dropWhile c_isspace (w @ c # r) = w @ c # r" using w by (cases w) auto
  moreover have "takeWhile (\<lambda>x. \<not> c_isspace x) (w @ c # r) = w" "dropWhile (\<lambda>x. \<not> c_isspace x) (w @ c # r) = c # r"
    using w assms(2) by (simp_all add: takeWhile_append dropWhile_append)
  ultimately show ?thesis using w(2) scan_words_skip [OF assms(2)] by (simp add: Let_def)
qed

lemma dec_short: "length (dec (unat (b :: u8))) \<le> 3"
  using dec_length [of "unat b" 2] unat_u8_less [of b] by simp

lemma plain_word_ntoa: "plain_word (inet_ntoa a)"
proof -
  have d: "list_all (\<lambda>c. \<not> c_isspace c \<and> c \<noteq> CHR 0x00) (dec n)" for n
    using dec_digits [of n] digit_facts by (auto simp: list_all_iff)
  have "length (dec (unat (le32 a ! i))) \<le> 3" for i by (rule dec_short)
  from this [of 0] this [of 1] this [of 2] this [of 3] have "length (inet_ntoa a) < 32"
    by (simp add: inet_ntoa_def Let_def)
  moreover have "inet_ntoa a \<noteq> []" by (simp add: inet_ntoa_def Let_def)
  moreover have "list_all (\<lambda>c. \<not> c_isspace c \<and> c \<noteq> CHR 0x00) (inet_ntoa a)"
    using d by (simp add: inet_ntoa_def Let_def) (simp add: c_isspace_def)
  ultimately show ?thesis by (simp add: plain_word_def)
qed

lemma fgets_whole: "LF \<notin> set l \<Longrightarrow> length l < n \<Longrightarrow> fgets n (l @ LF # r) = (l @ [LF], r)"
proof (induction l arbitrary: n)
  case Nil
  then show ?case by (cases n) auto
next
  case (Cons c l)
  then show ?case by (cases n) auto
qed

definition route_words :: "sr_rt \<Rightarrow> rt_words" where
  "route_words r = \<lparr>w_dest = inet_ntoa (rt_dest r), w_gw = inet_ntoa (rt_gw r), w_mask = inet_ntoa (rt_mask r),
     w_iface = rt_interface r\<rparr>"

lemma plain_word_no_lf: "plain_word w \<Longrightarrow> LF \<notin> set w"
  by (auto simp: plain_word_def list_all_iff c_isspace_def)

lemma scan_printed_entry:
  assumes "plain_word (rt_interface r)"
  shows "fgets (BUFSIZ - 1) (sr_print_routing_entry r @ rest) = (sr_print_routing_entry r, rest)"
    and "scan_line (sr_print_routing_entry r) w = Inr (route_words r)"
proof -
  let ?d = "inet_ntoa (rt_dest r)" and ?g = "inet_ntoa (rt_gw r)" and ?m = "inet_ntoa (rt_mask r)" and ?i = "rt_interface r"
  note p = plain_word_ntoa [of "rt_dest r"] plain_word_ntoa [of "rt_gw r"] plain_word_ntoa [of "rt_mask r"] assms
  have e: "sr_print_routing_entry r = (?d @ [TAB, TAB] @ ?g @ [TAB] @ ?m @ [TAB] @ ?i) @ [LF]"
    by (simp add: sr_print_routing_entry_def)
  have "LF \<notin> set (?d @ [TAB, TAB] @ ?g @ [TAB] @ ?m @ [TAB] @ ?i)" using plain_word_no_lf p by simp
  moreover have "length (?d @ [TAB, TAB] @ ?g @ [TAB] @ ?m @ [TAB] @ ?i) < BUFSIZ - 1"
    using p by (simp add: plain_word_def BUFSIZ_def)
  ultimately show "fgets (BUFSIZ - 1) (sr_print_routing_entry r @ rest) = (sr_print_routing_entry r, rest)"
    unfolding e append_assoc [of _ "[LF]" rest] append_Cons append_Nil by (rule fgets_whole)
  have sp: "c_isspace TAB" "c_isspace LF" by (simp_all add: c_isspace_def)
  have tw: "takeWhile (\<lambda>c. c \<noteq> CHR 0x00) (sr_print_routing_entry r) = sr_print_routing_entry r"
    using p by (subst takeWhile_eq_all_conv) (auto simp: e plain_word_def list_all_iff)
  have "scan_words 4 (sr_print_routing_entry r) = [?d, ?g, ?m, ?i]"
    using scan_words_word [OF p(1) sp(1)] scan_words_word [OF p(2) sp(1)] scan_words_word [OF p(3) sp(1)]
      scan_words_word [OF p(4) sp(2)] scan_words_skip [OF sp(1)]
    by (simp add: sr_print_routing_entry_def numeral_eq_Suc del: scan_words.simps) simp
  then have "scan_words 4 (takeWhile (\<lambda>c. c \<noteq> CHR 0x00) (sr_print_routing_entry r)) = [?d, ?g, ?m, ?i]" by (simp only: tw)
  then show "scan_line (sr_print_routing_entry r) w = Inr (route_words r)"
    using p by (simp add: scan_line_def Let_def guard_def route_words_def plain_word_def)
qed

lemma load_printed:
  assumes "list_all (\<lambda>r. plain_word (rt_interface r)) rs"
  shows "load_rt_lines sr cleared w (concat (map sr_print_routing_entry rs)) =
    Inr (0, if rs = [] then sr else sr\<lparr>routing_table := (if cleared then routing_table sr else []) @ rs\<rparr>)"
  using assms
proof (induction rs arbitrary: sr cleared w)
  case Nil
  then show ?case by (subst load_rt_lines.simps) simp
next
  case (Cons r rs)
  note s = scan_printed_entry [of r]
  have r: "plain_word (rt_interface r)" using Cons.prems by simp
  have ne: "sr_print_routing_entry r \<noteq> []" by (simp add: sr_print_routing_entry_def)
  have "strncpy sr_IFACE_NAMELEN (rt_interface r) = rt_interface r"
    using r by (intro strncpy_id) (auto simp: plain_word_def list_all_iff sr_IFACE_NAMELEN_def)
  then have add: "sr_add_rt_entry t (rt_dest r) (rt_gw r) (rt_mask r) (rt_interface r) = t\<lparr>routing_table := routing_table t @ [r]\<rparr>" for t
    by (simp add: sr_add_rt_entry_def Let_def)
  show ?case
    using s [OF r] ne Cons.IH Cons.prems
    by (subst load_rt_lines.simps) (simp add: route_words_def inet_aton_ntoa add Let_def)
qed

section \<open>The properties\<close>

definition below_heading :: "string \<Rightarrow> string" where
  "below_heading s = tl (dropWhile (\<lambda>c. c \<noteq> LF) s)"

lemma below_heading_table:
  "routing_table sr \<noteq> [] \<Longrightarrow> below_heading (sr_print_routing_table sr) = concat (map sr_print_routing_entry (routing_table sr))"
  by (simp add: below_heading_def sr_print_routing_table_def)

text \<open>
  What \<^verbatim>\<open>sr_print_routing_table\<close> prints below its heading, used as a routing table file, loads to exactly the
  printed table, in the same order, and replaces the one the router had: addresses are printed and read back
  unchanged. The interface names must be words that fit their arrays.
\<close>

lemma routing_table_print_load:
  assumes "routing_table sr \<noteq> []" "list_all (\<lambda>r. plain_word (rt_interface r)) (routing_table sr)"
    and "fs filename = Some (below_heading (sr_print_routing_table sr))"
  shows "sr_load_rt fs garbage sr1 filename = Inr (0, sr1\<lparr>routing_table := routing_table sr\<rparr>)"
  using assms(1,3) load_printed [OF assms(2), of sr1 False garbage] by (simp add: sr_load_rt_def below_heading_table)

end
