(* ===== verification/Sr_Main_Props.thy ===== *)
theory Sr_Main_Props
  imports Sr_Main Sr_Vns_Examples Sr_Print_Props
begin

text \<open>
  A whole run of the router, from the command line to the exit: the routing table file is loaded, the session is opened,
  the hardware information is taken over and the frames are served.
\<close>

section \<open>Frames keep the invariant\<close>

lemma log_packet_evolves: "evolves sr (sr_log_packet sr f (length f))"
  using logged_drop [OF logged_log_packet [of f sr]] by (simp add: evolves_def)

lemma handle_frames_keeps:
  "sr_ok sr \<Longrightarrow> handle_frames n sr fs = Inr sr' \<Longrightarrow> sr_ok sr' \<and> evolves sr sr'"
proof (induction n sr fs arbitrary: sr' rule: handle_frames.induct)
  case (2 n sr f i fs)
  obtain skip sr1 where sr1: "sr_arp_req_not_for_us sr f i = Inr skip"
      "(if skip then Inr sr else sr_handlepacket n (sr_log_packet sr f (length f)) f i) = Inr sr1"
      "handle_frames n sr1 fs = Inr sr'"
    using 2(3) by (auto simp: res_simps)
  have "sr_ok sr1 \<and> evolves sr sr1"
  proof (cases skip)
    case True
    then show ?thesis using sr1(2) 2(2) by simp
  next
    case False
    have "sr_ok (sr_log_packet sr f (length f))" using 2(2) by simp
    from handlepacket_keeps [OF this, of n f i] show ?thesis
      using False sr1(2) evolves_trans [OF log_packet_evolves [of sr f]] by simp
  qed
  then show ?case using 2(1) [OF _ sr1(3)] by (auto intro: evolves_trans)
qed simp

section \<open>The server's side of a session\<close>

definition server_script ::
  "bytes \<Rightarrow> bytes \<Rightarrow> (string \<times> mac \<times> u32) list \<Rightarrow> (bytes \<times> string) list \<Rightarrow> bytes \<Rightarrow> bytes" where
  "server_script salt status ifs fs reason =
     vns_message VNS_AUTH_REQUEST salt @ vns_message VNS_AUTH_STATUS status
     @ vns_message VNSHWINFO (concat (concat (map interface_entries ifs)))
     @ concat (map (\<lambda>(f, i). packet_message f i) fs) @ vns_message VNSCLOSE reason"

definition script_ok :: "bytes \<Rightarrow> bytes \<Rightarrow> (string \<times> mac \<times> u32) list \<Rightarrow> (bytes \<times> string) list \<Rightarrow> bytes \<Rightarrow> bool" where
  "script_ok salt status ifs fs reason \<longleftrightarrow>
     length salt \<le> 9992 \<and> status \<noteq> [] \<and> hd status \<noteq> 0 \<and> length status \<le> 9992 \<and> length reason \<le> 9992
     \<and> ifs \<noteq> [] \<and> length ifs \<le> 90 \<and> list_all (\<lambda>(name, _). name_ok name) ifs \<and> list_all frame_ok fs"

text \<open>The machine: the server can be reached, there is a key, and the log file can be opened.\<close>

definition machine_ok :: "main_env \<Rightarrow> sr_options \<Rightarrow> bool" where
  "machine_ok env opt \<longleftrightarrow>
     m_resolves env (o_server opt) \<and> m_socket env \<and> m_connects env (o_server opt) (ucast (o_port opt))
     \<and> (case auth_file (m_vns env) of None \<Rightarrow> False | Some key \<Rightarrow> key \<noteq> [])
     \<and> length (Message_Block (sha_garbage (m_vns env))) = 64
     \<and> (case o_logfile opt of None \<Rightarrow> True | Some f \<Rightarrow> can_write (m_vns env) f)"

text \<open>The routing table file, and that its routes use the interfaces of the hardware.\<close>

definition rt_file_ok :: "main_env \<Rightarrow> sr_options \<Rightarrow> sr_rt list \<Rightarrow> (string \<times> mac \<times> u32) list \<Rightarrow> bool" where
  "rt_file_ok env opt rts ifs \<longleftrightarrow>
     m_fs env (o_rtable opt) = Some (concat (map sr_print_routing_entry rts)) \<and> rts \<noteq> []
     \<and> list_all (\<lambda>r. plain_word (rt_interface r) \<and> rt_interface r \<in> fst ` set ifs) rts"

definition user_name :: "main_env \<Rightarrow> sr_options \<Rightarrow> string" where
  "user_name env opt = strncpy 32 (case o_user opt of Some u \<Rightarrow> u | None \<Rightarrow>
     (case m_passwd env of None \<Rightarrow> ''something_silly'' | Some u \<Rightarrow> u))"

section \<open>The parts of the run\<close>

lemma load_table:
  assumes "rt_file_ok env opt rts ifs" "fs (o_rtable opt) = m_fs env (o_rtable opt)"
  shows "sr_load_rt_wrap fs words sr (o_rtable opt) = Inr (Inr (sr\<lparr>routing_table := rts\<rparr>))"
proof -
  have "list_all (\<lambda>r. plain_word (rt_interface r)) rts" using assms(1) by (auto simp: rt_file_ok_def list_all_iff)
  from load_printed [OF this, of sr False words] show ?thesis
    using assms by (simp add: sr_load_rt_wrap_def sr_load_rt_def rt_file_ok_def)
qed

lemma setup_ok:
  assumes "rt_file_ok env opt rts ifs" "machine_ok env opt" "o_template opt = None"
  shows "\<exists>sr. sr_setup env opt garbage = Inr (Inr sr) \<and> sr_user sr = user_name env opt \<and> sr_host sr = strncpy 32 (o_host opt)
    \<and> topo_id sr = ucast (o_topo opt) \<and> sr_template sr = [] \<and> if_list sr = [] \<and> sock_write sr = sock_write garbage
    \<and> sock_out sr = sock_out garbage \<and> cache sr = cache garbage"
  using assms load_table [OF assms(1), of "m_fs env"]
  by (auto simp: sr_setup_def fbind_def sr_init_instance_def sr_set_user_def user_name_def machine_ok_def sr_dump_open_def
      Let_def split: option.splits)

lemma routes_verified:
  assumes "rt_file_ok env opt rts ifs" "ifs \<noteq> []" "if_list sr = map (new_if g) ifs" "routing_table sr = rts"
  shows "sr_verify_routing_table sr = 0"
proof -
  have "sr_get_interface sr (rt_interface r) \<noteq> None" if "r \<in> set rts" for r
  proof -
    have "rt_interface r \<in> fst ` set ifs" using assms(1) that by (simp add: rt_file_ok_def list_all_iff)
    then obtain a where a: "rt_interface r = fst a" "a \<in> set ifs" by (rule imageE)
    have "if_name (new_if g a) = fst a" by (cases a) (simp add: new_if_def)
    then show ?thesis
      using a assms(3) unfolding sr_get_interface_def find_if_None_iff by (auto intro!: bexI [of _ a])
  qed
  then show ?thesis using assms sr_verify_routing_table_0_iff [of sr] by (simp add: rt_file_ok_def)
qed

lemma main_loop_served:
  assumes rd: "reader_ok rd contents intr" and ok: "script_ok salt status ifs fs reason"
    and c: "contents s = vns_message VNSHWINFO (concat (concat (map interface_entries ifs)))
       @ concat (map (\<lambda>(f, i). packet_message f i) fs) @ vns_message VNSCLOSE reason @ rest"
    and sr1: "sr1 = (vs_sr st)\<lparr>if_list := if_list (vs_sr st) @ map (new_if (if_garbage env)) ifs\<rparr>"
    and v: "sr_verify_routing_table sr1 = 0"
  shows "\<exists>s'. contents s' = rest \<and> main_loop env n rd st s =
    Some (rbind (handle_frames n sr1 fs) (\<lambda>sr'. Inr (0, st\<lparr>vs_sr := sr'\<rparr>, s')))"
proof -
  obtain s1 where s1: "contents s1 = concat (map (\<lambda>(f, i). packet_message f i) fs) @ vns_message VNSCLOSE reason @ rest"
      "sr_read_from_server env n rd st s = Some (Inr (1, st\<lparr>vs_sr := sr1\<rparr>, s1))"
    using hwinfo_registers [OF rd _ _ c sr1, of n] ok v by (auto simp: script_ok_def)
  obtain s' where "contents s' = rest" "main_loop env n rd (st\<lparr>vs_sr := sr1\<rparr>) s1 =
      Some (rbind (handle_frames n sr1 fs) (\<lambda>sr'. Inr (0, st\<lparr>vs_sr := sr'\<rparr>, s')))"
    using session_served [OF rd, of reason s1 fs rest env n "st\<lparr>vs_sr := sr1\<rparr>"] s1(1) ok by (auto simp: script_ok_def)
  then show ?thesis using s1(2) by (subst main_loop.simps) auto
qed

section \<open>The run\<close>


definition demo_ifs :: "(string \<times> mac \<times> u32) list" where
  "demo_ifs = [(''eth1'', (2, 0, 0, 0, 0, 1), 0x0101A8C0), (''eth2'', (2, 0, 0, 0, 0, 2), 0x0102A8C0)]"

definition demo_table :: "sr_rt list" where
  "demo_table = [\<lparr>rt_dest = 0x0002A8C0, rt_gw = 0, rt_mask = 0x00FFFFFF, rt_interface = ''eth2''\<rparr>]"

definition demo_machine :: main_env where
  "demo_machine = \<lparr>m_vns = demo_env, m_fs = (\<lambda>_. Some (concat (map sr_print_routing_entry demo_table))),
     m_words = \<lparr>w_dest = [], w_gw = [], w_mask = [], w_iface = []\<rparr>, m_passwd = None, m_resolves = (\<lambda>_. True),
     m_socket = True, m_connects = (\<lambda>_ _. True)\<rparr>"


end
