(* ===== verification/Sr_Threads.thy ===== *)
theory Sr_Threads
  imports Sr_Router_Props
begin

text \<open>
  The router with its two threads: the receiving thread, which calls \<^verbatim>\<open>sr_handlepacket\<close> for each frame, and the timeout
  thread of \<^verbatim>\<open>sr_arpcache_timeout\<close>. A thread is the list of what it still has to do, in actions between which the other
  thread may run: a call of a cache operation (which holds the lock), a call of \<^verbatim>\<open>sr_send_packet\<close>, or the accesses to
  a request between two calls. \<^verbatim>\<open>sr_arpcache_handle_arpreq\<close> and the loops of its callers put further actions in front of
  the list, so the nesting of calls needs no bound here.
\<close>

section \<open>The actions\<close>

text \<open>
  \<open>Lookup\<close> and \<open>Queue\<close> carry a frame for the gateway of a route; a forwarded frame (\<open>True\<close>) has its TTL decremented
  when it is sent. \<open>Handle\<close>, \<open>Retry\<close>, \<open>Mark\<close>, \<open>Walk\<close> and \<open>Destroy\<close> are the parts of \<^verbatim>\<open>sr_arpcache_handle_arpreq\<close>: its tests, the
  ARP request, the fields updated after it was sent, the loop over the waiting packets and the end of the request.
  \<open>Insert\<close>, \<open>Waiting\<close> and \<open>Flush\<close> are the parts of the branch for an ARP reply, \<open>Sweep\<close> is the loop of the timeout thread.
\<close>

datatype act =
    Lookup bool bytes sr_rt
  | Queue bytes sr_rt
  | Send bytes string
  | Handle req_addr
  | Retry req_addr
  | Mark req_addr
  | Walk req_addr u32 "sr_packet list"
  | Destroy req_addr
  | Insert mac u32
  | Waiting req_addr mac
  | Flush req_addr mac "sr_packet list"
  | Sweep req_addr

text \<open>The ARP request of a retry and the interface it leaves on.\<close>

definition retry_frame :: "sr_instance \<Rightarrow> sr_arpreq \<Rightarrow> (bytes \<times> string) res" where
  "retry_frame sr req =
     (case rq_packets req of
        [] \<Rightarrow> Inl NullDeref
      | p # _ \<Rightarrow>
          rbind (guard OutOfBounds (34 \<le> length (pk_buf p))) (\<lambda>_.
          let i_hdr0 = ld_struct 20 dec_ip (pk_buf p) 14;
              e_hdr0 = ld_struct 14 dec_ether (pk_buf p) 0
          in rbind (deref (sr_get_interface sr (pk_iface p))) (\<lambda>ifc.
             rbind (deref (sr_findLPMentry (routing_table sr) (ip_dst i_hdr0))) (\<lambda>rt.
               Inr (mk_arp arp_op_request (ether_shost e_hdr0) (if_ip ifc) (0, 0, 0, 0, 0, 0) (ip_dst i_hdr0)
                      (if_addr ifc) broadcast, rt_interface rt)))))"

text \<open>The ICMP host unreachable message for a waiting packet and its route.\<close>

definition unreach_frame :: "sr_instance \<Rightarrow> u32 \<Rightarrow> sr_packet \<Rightarrow> (bytes \<times> sr_rt) res" where
  "unreach_frame sr ip p =
     rbind (deref (sr_findLPMentry (routing_table sr) ip)) (\<lambda>rt0.
     rbind (deref (sr_get_interface sr (rt_interface rt0))) (\<lambda>ifc0.
     rbind (guard OutOfBounds (34 \<le> length (pk_buf p))) (\<lambda>_.
     let i_hdr0 = ld_struct 20 dec_ip (pk_buf p) 14
     in rbind (deref (sr_findLPMentry (routing_table sr) (ip_src i_hdr0))) (\<lambda>rt.
        rbind (deref (sr_get_interface sr (rt_interface rt))) (\<lambda>ifc.
        rbind (guard OutOfBounds (14 + ICMP_DATA_SIZE \<le> length (pk_buf p))) (\<lambda>_.
        Inr (mk_icmp_t3 (sizeof_ethernet_hdr + sizeof_ip_hdr + sizeof_icmp_t3_hdr + ICMP_DATA_SIZE) (if_ip ifc0)
               i_hdr0 3 1 (bslice (pk_buf p) 14 ICMP_DATA_SIZE) (if_addr ifc), rt)))))))"

text \<open>The frame that a waiting packet becomes when the address of its gateway is known.\<close>

definition released_frame :: "sr_instance \<Rightarrow> mac \<Rightarrow> sr_packet \<Rightarrow> bytes res" where
  "released_frame sr m p =
     rbind (guard OutOfBounds (34 \<le> length (pk_buf p))) (\<lambda>_.
     let b1 = set_dhost (pk_buf p) m;
         i_hdr = ld_struct 20 dec_ip b1 14
     in rbind (deref (sr_findLPMentry (routing_table sr) (ip_dst i_hdr))) (\<lambda>_.
        Inr (if ip_ttl i_hdr \<noteq> INIT_TTL then dec_ttl b1 else b1)))"

text \<open>One action: the new state of the router and the actions that come next.\<close>

fun exec_act :: "act \<Rightarrow> sr_instance \<Rightarrow> (sr_instance \<times> act list) res" where
  "exec_act (Lookup fwd frame rt) sr =
     Inr (sr, case sr_arpcache_lookup (cache sr) (rt_gw rt) of
                Some entry \<Rightarrow> [Send (let f = set_dhost frame (ae_mac entry) in if fwd then dec_ttl f else f) (rt_interface rt)]
              | None \<Rightarrow> [Queue frame rt])"
| "exec_act (Queue frame rt) sr =
     rbind (sr_arpcache_queuereq (cache sr) (rt_gw rt) frame (rt_interface rt)) (\<lambda>(b, c).
       Inr (sr\<lparr>cache := c\<rparr>, [Handle b]))"
| "exec_act (Send frame iface) sr = Inr (snd (sr_send_packet sr frame iface), [])"
| "exec_act (Handle a) sr =
     (case sr_time sr of (curtime, sr1) \<Rightarrow>
        rbind (get_req (cache sr1) a) (\<lambda>req.
          Inr (sr1, if curtime - rq_sent req > 1
                    then if rq_times_sent req \<ge> 5 then [Walk a (rq_ip req) (rq_packets req)] else [Retry a]
                    else [])))"
| "exec_act (Retry a) sr =
     rbind (get_req (cache sr) a) (\<lambda>req.
     rbind (retry_frame sr req) (\<lambda>(new_pck, iface). Inr (sr, [Send new_pck iface, Mark a])))"
| "exec_act (Mark a) sr =
     (case sr_time sr of (now, sr1) \<Rightarrow>
        rbind (get_req (cache sr1) a) (\<lambda>req.
          Inr (sr1\<lparr>cache := (cache sr1)\<lparr>req_store := (req_store (cache sr1))(a :=
                 Some (req\<lparr>rq_sent := now, rq_times_sent := rq_times_sent req + 1\<rparr>))\<rparr>\<rparr>, [])))"
| "exec_act (Walk a ip []) sr = Inr (sr, [Destroy a])"
| "exec_act (Walk a ip (p # ps)) sr =
     rbind (get_req (cache sr) a) (\<lambda>_.
     rbind (unreach_frame sr ip p) (\<lambda>(new_pck, rt). Inr (sr, [Lookup False new_pck rt, Walk a ip ps])))"
| "exec_act (Destroy a) sr = rbind (sr_arpreq_destroy (cache sr) a) (\<lambda>c. Inr (sr\<lparr>cache := c\<rparr>, []))"
| "exec_act (Insert m ip) sr =
     rbind (sr_arpcache_insert sr m ip) (\<lambda>(req, sr1).
       Inr (sr1, case req of None \<Rightarrow> [] | Some a \<Rightarrow> [Waiting a m]))"
| "exec_act (Waiting a m) sr = rbind (get_req (cache sr) a) (\<lambda>req. Inr (sr, [Flush a m (rq_packets req)]))"
| "exec_act (Flush a m []) sr = rbind (sr_arpreq_destroy (cache sr) a) (\<lambda>c. Inr (sr\<lparr>cache := c\<rparr>, []))"
| "exec_act (Flush a m (p # ps)) sr =
     rbind (get_req (cache sr) a) (\<lambda>_.
     rbind (released_frame sr m p) (\<lambda>frame. Inr (sr, [Send frame (pk_iface p), Flush a m ps])))"
| "exec_act (Sweep a) sr =
     rbind (get_req (cache sr) a) (\<lambda>_.
       Inr (sr, Handle a # (case next_of (requests (cache sr)) a of None \<Rightarrow> [] | Some b \<Rightarrow> [Sweep b])))"

text \<open>The actions that are calls of functions which take the lock of the cache.\<close>

fun locks :: "act \<Rightarrow> bool" where
  "locks (Lookup _ _ _) = True"
| "locks (Queue _ _) = True"
| "locks (Destroy _) = True"
| "locks (Insert _ _) = True"
| "locks (Flush _ _ []) = True"
| "locks _ = False"

section \<open>A frame\<close>

text \<open>
  The packet handler up to its first action: the tests on the frame, and the frame that is to be sent. The structure is
  that of \<open>sr_handlepacket\<close>.
\<close>

definition error_acts :: "sr_instance \<Rightarrow> bytes \<Rightarrow> nat \<Rightarrow> u8 \<Rightarrow> u8 \<Rightarrow> act list res" where
  "error_acts sr packet new_len typ code =
     (let i_hdr0 = ld_struct 20 dec_ip packet 14
      in rbind (deref (sr_findLPMentry (routing_table sr) (ip_src i_hdr0))) (\<lambda>rtentry.
         rbind (deref (sr_get_interface sr (rt_interface rtentry))) (\<lambda>ifc.
           Inr [Lookup False (mk_icmp_t3 new_len (if_ip ifc) i_hdr0 typ code (bslice packet 14 ICMP_DATA_SIZE)
                  (if_addr ifc)) rtentry])))"

definition echo_acts :: "sr_instance \<Rightarrow> bytes \<Rightarrow> act list res" where
  "echo_acts sr packet =
     (let i_hdr0 = ld_struct 20 dec_ip packet 14;
          ic_hdr0 = ld_struct 4 dec_icmp packet 34;
          checksum = icmp_sum ic_hdr0;
          p0 = st_bytes packet 34 (enc_icmp (ic_hdr0\<lparr>icmp_sum := 0\<rparr>))
      in if checksum \<noteq> cksum (bslice p0 34 (length packet - 34)) then Inr []
         else
           let p1 = st_bytes p0 34 (enc_icmp (ic_hdr0\<lparr>icmp_sum := checksum\<rparr>));
               i_hdr1 = i_hdr0\<lparr>ip_ttl := INIT_TTL, ip_src := ip_dst i_hdr0, ip_dst := ip_src i_hdr0\<rparr>;
               p2 = set_ip_cksum (st_bytes p1 14 (enc_ip i_hdr1));
               p3 = st_bytes p2 34 (enc_icmp (ic_hdr0\<lparr>icmp_type := 0, icmp_sum := 0\<rparr>));
               p4 = st_bytes p3 34 (enc_icmp (ic_hdr0\<lparr>icmp_type := 0,
                      icmp_sum := cksum (bslice p3 34 (length packet - 34))\<rparr>))
           in case sr_findLPMentry (routing_table sr) (ip_dst i_hdr1) of
                None \<Rightarrow> Inr []
              | Some rtentry \<Rightarrow>
                  rbind (deref (sr_get_interface sr (rt_interface rtentry))) (\<lambda>ifc.
                    Inr [Lookup False (set_shost p4 (if_addr ifc)) rtentry]))"

definition for_me_acts :: "sr_instance \<Rightarrow> bytes \<Rightarrow> act list res" where
  "for_me_acts sr packet =
     (let i_hdr0 = ld_struct 20 dec_ip packet 14;
          len_r = length packet - sizeof_ethernet_hdr - sizeof_ip_hdr
      in if ip_p i_hdr0 = ip_protocol_icmp then
           if len_r < sizeof_icmp_hdr then Inr []
           else if icmp_type (ld_struct 4 dec_icmp packet 34) = 8 then echo_acts sr packet
           else Inr []
         else if ip_p i_hdr0 = ip_protocol_tcp \<or> ip_p i_hdr0 = ip_protocol_udp then
           if len_r + sizeof_ip_hdr < ICMP_DATA_SIZE then Inr []
           else error_acts sr packet (sizeof_ethernet_hdr + sizeof_ip_hdr + sizeof_icmp_t3_hdr + ICMP_DATA_SIZE) 3 3
         else Inr [])"

definition forward_acts :: "sr_instance \<Rightarrow> bytes \<Rightarrow> act list res" where
  "forward_acts sr packet =
     (let i_hdr0 = ld_struct 20 dec_ip packet 14;
          ic_hdr0 = ld_struct 4 dec_icmp packet 34;
          len_r = length packet - sizeof_ethernet_hdr - sizeof_ip_hdr
      in case sr_findLPMentry (routing_table sr) (ip_dst i_hdr0) of
           Some rtentry \<Rightarrow>
             if ip_ttl i_hdr0 = 1 then
               if len_r + sizeof_ip_hdr < ICMP_DATA_SIZE then Inr []
               else error_acts sr packet (sizeof_ethernet_hdr + sizeof_ip_hdr + sizeof_icmp_t3_hdr + ICMP_DATA_SIZE) 0x0B 0
             else
               rbind (deref (sr_get_interface sr (rt_interface rtentry))) (\<lambda>ifc.
                 Inr [Lookup True (set_shost packet (if_addr ifc)) rtentry])
         | None \<Rightarrow>
             if len_r + sizeof_ip_hdr < ICMP_DATA_SIZE then Inr []
             else
               let p0 = st_bytes packet 34 (enc_icmp (ic_hdr0\<lparr>icmp_sum := 0\<rparr>))
               in if icmp_sum ic_hdr0 \<noteq> cksum (bslice p0 34 (length packet - 34)) then Inr []
                  else error_acts sr (st_bytes p0 34 (enc_icmp (ic_hdr0\<lparr>icmp_sum := icmp_sum ic_hdr0\<rparr>)))
                         (sizeof_ethernet_hdr + sizeof_ip_hdr + sizeof_icmp_t3_hdr) 3 0)"

definition ip_acts :: "sr_instance \<Rightarrow> bytes \<Rightarrow> act list res" where
  "ip_acts sr packet =
     (if length packet - sizeof_ethernet_hdr < sizeof_ip_hdr then Inr []
      else
        let i_hdr0 = ld_struct 20 dec_ip packet 14;
            checksum = ip_sum i_hdr0;
            p0 = st_bytes packet 14 (enc_ip (i_hdr0\<lparr>ip_sum := 0\<rparr>))
        in if ip_v i_hdr0 \<noteq> 4 then Inr []
           else if checksum \<noteq> cksum (bslice p0 14 sizeof_ip_hdr) then Inr []
           else
             let p1 = st_bytes p0 14 (enc_ip (i_hdr0\<lparr>ip_sum := checksum\<rparr>))
             in if ip_black_list i_hdr0 then Inr []
                else case find (\<lambda>i. ip_dst i_hdr0 = if_ip i) (if_list sr) of
                       Some _ \<Rightarrow> for_me_acts sr p1
                     | None \<Rightarrow> forward_acts sr p1)"

definition arp_acts :: "sr_instance \<Rightarrow> bytes \<Rightarrow> act list res" where
  "arp_acts sr packet =
     (if length packet - sizeof_ethernet_hdr < sizeof_arp_hdr then Inr []
      else
        let a_hdr0 = ld_struct 28 dec_arp packet 14
        in rbind (deref (sr_findLPMentry (routing_table sr) (ar_tip a_hdr0))) (\<lambda>rtentry.
           rbind (deref (sr_get_interface sr (rt_interface rtentry))) (\<lambda>ifc.
           if ar_tip a_hdr0 = if_ip ifc then
             if ar_op a_hdr0 = htons arp_op_request then
               Inr [Send (mk_arp arp_op_reply (if_addr ifc) (ar_tip a_hdr0) (ar_sha a_hdr0) (ar_sip a_hdr0)
                            (if_addr ifc) (ar_sha a_hdr0)) (rt_interface rtentry)]
             else if ar_op a_hdr0 = htons arp_op_reply then Inr [Insert (ar_sha a_hdr0) (ar_sip a_hdr0)]
             else Inr []
           else Inr [])))"

definition frame_acts :: "sr_instance \<Rightarrow> bytes \<Rightarrow> act list res" where
  "frame_acts sr packet =
     (if length packet < sizeof_ethernet_hdr then Inr []
      else
        let e_hdr0 = ld_struct 14 dec_ether packet 0
        in if ether_type e_hdr0 = htons ethertype_ip then ip_acts sr packet
           else if ether_type e_hdr0 = htons ethertype_arp then arp_acts sr packet
           else Inr [])"

section \<open>The two threads\<close>

text \<open>The timeout thread holds the lock while its list is not empty. The lock is recursive, so its own calls never wait.\<close>

record sr_threads =
  inst :: sr_instance
  hnd :: "act list"
  tmo :: "act list"

definition start_round :: "sr_threads \<Rightarrow> sr_threads" where
  "start_round t =
     (case sr_time (inst t) of (curtime, sr1) \<Rightarrow>
        t\<lparr>inst := sr1\<lparr>cache := (cache sr1)\<lparr>entries := map (expire_entry curtime) (entries (cache sr1))\<rparr>\<rparr>,
          tmo := (case requests (cache sr1) of [] \<Rightarrow> [] | a # _ \<Rightarrow> [Sweep a])\<rparr>)"

inductive thread_step :: "sr_threads \<Rightarrow> sr_threads \<Rightarrow> bool" where
  receive: "hnd t = [] \<Longrightarrow> frame_acts (inst t) packet = Inr as \<Longrightarrow> thread_step t (t\<lparr>hnd := as\<rparr>)"
| handler: "hnd t = a # as \<Longrightarrow> (locks a \<Longrightarrow> tmo t = []) \<Longrightarrow> exec_act a (inst t) = Inr (sr, bs) \<Longrightarrow>
    thread_step t (t\<lparr>inst := sr, hnd := bs @ as\<rparr>)"
| round: "tmo t = [] \<Longrightarrow> thread_step t (start_round t)"
| timeout: "tmo t = a # as \<Longrightarrow> exec_act a (inst t) = Inr (sr, bs) \<Longrightarrow> thread_step t (t\<lparr>inst := sr, tmo := bs @ as\<rparr>)"

abbreviation idle :: "sr_instance \<Rightarrow> sr_threads" where
  "idle sr \<equiv> \<lparr>inst = sr, hnd = [], tmo = []\<rparr>"

abbreviation thread_reach :: "sr_instance \<Rightarrow> sr_threads \<Rightarrow> bool" where
  "thread_reach sr0 t \<equiv> thread_step\<^sup>*\<^sup>* (idle (sr_init sr0)) t"

end
