(* ===== verification/Sr_Threads_Sim.thy ===== *)
theory Sr_Threads_Sim
  imports Sr_Threads
begin

text \<open>
  The actions of a thread that runs alone are the calls of the packet handler and of the timeout round as functions
  (\<open>Sr_Router\<close>, \<open>Sr_Arpcache\<close>): a call that returns is a run of its actions to the end, and a fault of the call is a fault
  of one of its actions. So every state reached by whole calls is reached by the two threads.
\<close>

section \<open>One thread alone\<close>

inductive act_step :: "sr_instance \<times> act list \<Rightarrow> sr_instance \<times> act list \<Rightarrow> bool" where
  "exec_act a sr = Inr (sr1, bs) \<Longrightarrow> act_step (sr, a # as) (sr1, bs @ as)"

text \<open>\<open>does sr as r\<close>: running the actions \<open>as\<close> from \<open>sr\<close> has the result \<open>r\<close>, if that is not the bound of the functions.\<close>

definition does :: "sr_instance \<Rightarrow> act list \<Rightarrow> sr_instance res \<Rightarrow> bool" where
  "does sr as r \<longleftrightarrow>
     (case r of
        Inr sr1 \<Rightarrow> \<forall>rest. act_step\<^sup>*\<^sup>* (sr, as @ rest) (sr1, rest)
      | Inl e \<Rightarrow> e = OutOfFuel \<or> (\<forall>rest. \<exists>sr1 a bs. act_step\<^sup>*\<^sup>* (sr, as @ rest) (sr1, a # bs) \<and> exec_act a sr1 = Inl e))"

lemma does_Nil [simp]: "does sr [] (Inr sr)"
  by (simp add: does_def)

lemma does_fuel [simp]: "does sr as (Inl OutOfFuel)"
  by (simp add: does_def)

lemma does_fault: "exec_act a sr = Inl e \<Longrightarrow> does sr (a # as) (Inl e)"
  unfolding does_def by (simp, blast intro: rtranclp.rtrancl_refl)

lemma does_act:
  assumes "exec_act a sr = Inr (sr1, bs)" "does sr1 (bs @ as) r"
  shows "does sr (a # as) r"
proof -
  have s: "act_step (sr, a # as @ rest) (sr1, bs @ as @ rest)" for rest
    using act_step.intros [OF assms(1)] by blast
  note c = converse_rtranclp_into_rtranclp [where r = act_step, OF s]
  show ?thesis
  proof (cases r)
    case (Inr sr2)
    then show ?thesis using assms(2) c by (simp add: does_def)
  next
    case (Inl e)
    then show ?thesis using assms(2) c unfolding does_def by (simp, blast)
  qed
qed

lemma does_append:
  assumes "does sr as r" "\<And>sr1. r = Inr sr1 \<Longrightarrow> does sr1 bs (f sr1)"
  shows "does sr (as @ bs) (rbind r f)"
proof (cases r)
  case (Inl e)
  then show ?thesis using assms(1) unfolding does_def by (simp, blast)
next
  case (Inr sr1)
  have 1: "act_step\<^sup>*\<^sup>* (sr, as @ bs @ rest) (sr1, bs @ rest)" for rest
    using assms(1) Inr by (simp add: does_def)
  have 2: "does sr1 bs (f sr1)" using assms(2) Inr by blast
  show ?thesis
  proof (cases "f sr1")
    case (Inr sr2)
    then show ?thesis
      using 1 2 \<open>r = Inr sr1\<close> unfolding does_def by (auto intro: rtranclp_trans)
  next
    case (Inl e)
    then show ?thesis
      using 1 2 \<open>r = Inr sr1\<close> unfolding does_def by (simp, blast intro: rtranclp_trans)
  qed
qed

lemma does_Cons:
  "does sr [a] r \<Longrightarrow> (\<And>sr1. r = Inr sr1 \<Longrightarrow> does sr1 bs (f sr1)) \<Longrightarrow> does sr (a # bs) (rbind r f)"
  using does_append [of sr "[a]" r bs f] by simp

text \<open>An action that first computes something, and goes on with it or faults.\<close>

lemma does_rbind:
  assumes "exec_act a sr = rbind x g" "\<And>y. x = Inr y \<Longrightarrow> g y = Inr (st y, bs y) \<and> does (st y) (bs y @ as) (f y)"
  shows "does sr (a # as) (rbind x f)"
proof (cases x)
  case (Inl e)
  then show ?thesis using assms(1) by (simp add: does_fault)
next
  case (Inr y)
  with assms show ?thesis by (auto intro: does_act)
qed

section \<open>Handling a request\<close>

lemma does_send: "does sr [Send f i] (Inr (snd (sr_send_packet sr f i)))"
  by (rule does_act, simp, simp)

lemma does_destroy: "does sr [Destroy a] (rbind (sr_arpreq_destroy (cache sr) a) (\<lambda>c. Inr (sr\<lparr>cache := c\<rparr>)))"
  by (rule does_rbind [where bs = "\<lambda>_. []"]) auto

lemma does_queue:
  assumes "\<And>sr b. does sr [Handle b] (h sr b)"
  shows "does sr [Queue f rt] (rbind (sr_arpcache_queuereq (cache sr) (rt_gw rt) f (rt_interface rt))
    (\<lambda>(b, c). h (sr\<lparr>cache := c\<rparr>) b))"
  by (rule does_rbind [where bs = "\<lambda>y. [Handle (fst y)]" and st = "\<lambda>y. sr\<lparr>cache := snd y\<rparr>"])
    (auto simp: assms split: prod.split)

lemma does_lookup:
  assumes "\<And>sr b. does sr [Handle b] (h sr b)"
  shows "does sr [Lookup fwd f rt] (case sr_arpcache_lookup (cache sr) (rt_gw rt) of
      Some e \<Rightarrow> Inr (snd (sr_send_packet sr (let f1 = set_dhost f (ae_mac e) in if fwd then dec_ttl f1 else f1) (rt_interface rt)))
    | None \<Rightarrow> rbind (sr_arpcache_queuereq (cache sr) (rt_gw rt) f (rt_interface rt)) (\<lambda>(b, c). h (sr\<lparr>cache := c\<rparr>) b))"
proof (cases "sr_arpcache_lookup (cache sr) (rt_gw rt)")
  case None
  then show ?thesis using does_queue [OF assms] by (intro does_act) auto
next
  case (Some entry)
  then show ?thesis by (intro does_act) (auto simp: Let_def intro!: does_send)
qed

lemma does_send_or_queue:
  assumes "\<And>sr b. does sr [Handle b] (h sr b)"
  shows "does sr [Lookup False f rt] (send_or_queue h sr f rt)"
  using does_lookup [OF assms, of sr False f rt] by (simp add: send_or_queue_def Let_def cong: option.case_cong)

lemma host_unreachable_frame:
  "host_unreachable h sr ip p = rbind (unreach_frame sr ip p) (\<lambda>(f, rt). send_or_queue h sr f rt)"
  by (simp add: host_unreachable_def unreach_frame_def Let_def rbind_def split: sum.split)

lemma send_arp_request_frame:
  "send_arp_request sr a req = rbind (retry_frame sr req) (\<lambda>(f, i).
     case sr_time (snd (sr_send_packet sr f i)) of (now, sr2) \<Rightarrow>
       Inr (sr2\<lparr>cache := (cache sr2)\<lparr>req_store := (req_store (cache sr2))(a :=
         Some (req\<lparr>rq_sent := now, rq_times_sent := rq_times_sent req + 1\<rparr>))\<rparr>\<rparr>))"
  by (simp add: send_arp_request_def retry_frame_def Let_def rbind_def guard_def deref_def split: sum.split list.split option.split)

lemma does_retry:
  assumes "req_store (cache sr) a = Some req"
  shows "does sr [Retry a] (send_arp_request sr a req)"
  unfolding send_arp_request_frame
proof (rule does_rbind [where bs = "\<lambda>y. [Send (fst y) (snd y), Mark a]" and st = "\<lambda>_. sr"])
  show "exec_act (Retry a) sr = rbind (retry_frame sr req) (\<lambda>(f, i). Inr (sr, [Send f i, Mark a]))"
    using assms by (simp add: get_req_def)
next
  fix y assume "retry_frame sr req = Inr y"
  obtain f i where y: "y = (f, i)" by force
  let ?sr = "snd (sr_send_packet sr f i)"
  have "exec_act (Mark a) ?sr = Inr (case sr_time ?sr of (now, sr2) \<Rightarrow>
      (sr2\<lparr>cache := (cache sr2)\<lparr>req_store := (req_store (cache sr2))(a :=
         Some (req\<lparr>rq_sent := now, rq_times_sent := rq_times_sent req + 1\<rparr>))\<rparr>\<rparr>, []))"
    using assms by (simp add: sr_time_def get_req_def)
  then have "does ?sr [Mark a] (case sr_time ?sr of (now, sr2) \<Rightarrow>
      Inr (sr2\<lparr>cache := (cache sr2)\<lparr>req_store := (req_store (cache sr2))(a :=
         Some (req\<lparr>rq_sent := now, rq_times_sent := rq_times_sent req + 1\<rparr>))\<rparr>\<rparr>))"
    by (intro does_act) (auto simp: sr_time_def)
  then show "(case y of (f, i) \<Rightarrow> Inr (sr, [Send f i, Mark a])) = Inr (sr, [Send (fst y) (snd y), Mark a]) \<and>
      does sr ([Send (fst y) (snd y), Mark a] @ []) (case y of (f, i) \<Rightarrow> case sr_time (snd (sr_send_packet sr f i)) of
        (now, sr2) \<Rightarrow> Inr (sr2\<lparr>cache := (cache sr2)\<lparr>req_store := (req_store (cache sr2))(a :=
         Some (req\<lparr>rq_sent := now, rq_times_sent := rq_times_sent req + 1\<rparr>))\<rparr>\<rparr>))"
    using y by (auto intro!: does_act [where a = "Send f i"])
qed

lemma does_walk:
  assumes "\<And>sr b. does sr [Handle b] (h sr b)" "req_store (cache sr) a \<noteq> None"
  shows "does sr [Walk a ip ps] (rbind (unreach_loop h sr a ip ps) (\<lambda>sr2.
    rbind (sr_arpreq_destroy (cache sr2) a) (\<lambda>c. Inr (sr2\<lparr>cache := c\<rparr>))))"
  using assms(2)
proof (induction ps arbitrary: sr)
  case Nil
  then show ?case using does_destroy by (intro does_act) auto
next
  case (Cons p ps)
  let ?destroy = "\<lambda>sr2. rbind (sr_arpreq_destroy (cache sr2) a) (\<lambda>c. Inr (sr2\<lparr>cache := c\<rparr>))"
  have next_iter: "does sr1 [Walk a ip ps] (rbind (get_req (cache sr1) a) (\<lambda>_. rbind (unreach_loop h sr1 a ip ps) ?destroy))" for sr1
  proof (cases "req_store (cache sr1) a")
    case None
    have "does sr1 [Destroy a] (Inl UseAfterFree)"
      using None by (intro does_fault) (simp add: sr_arpreq_destroy_def get_req_def)
    with None show ?thesis by (cases ps) (auto simp: get_req_def intro: does_fault does_act)
  qed (use Cons.IH in \<open>simp add: get_req_def\<close>)
  have "does sr (Walk a ip (p # ps) # []) (rbind (unreach_frame sr ip p) (\<lambda>(f, rt).
      rbind (send_or_queue h sr f rt) (\<lambda>sr1. rbind (get_req (cache sr1) a) (\<lambda>_. rbind (unreach_loop h sr1 a ip ps) ?destroy))))"
    using Cons.prems next_iter
    by (intro does_rbind [where bs = "\<lambda>y. [Lookup False (fst y) (snd y), Walk a ip ps]" and st = "\<lambda>_. sr"])
      (auto simp: get_req_def intro!: does_Cons does_send_or_queue assms(1))
  then show ?case by (simp add: host_unreachable_frame rbind_assoc case_prod_unfold)
qed

lemma does_handle: "does sr [Handle a] (sr_arpcache_handle_arpreq n sr a)"
proof (induction n arbitrary: sr a)
  case (Suc n)
  define sr1 where "sr1 = sr\<lparr>ticks := Suc (ticks sr)\<rparr>"
  have t: "sr_time sr = (clk sr (ticks sr), sr1)" by (simp add: sr_time_def sr1_def)
  show ?case
  proof (cases "req_store (cache sr1) a")
    case None
    then show ?thesis by (auto simp: t get_req_def intro: does_fault)
  next
    case (Some req)
    then have e: "exec_act (Handle a) sr = Inr (sr1, if clk sr (ticks sr) - rq_sent req > 1
        then if rq_times_sent req \<ge> 5 then [Walk a (rq_ip req) (rq_packets req)] else [Retry a] else [])"
      by (simp add: t get_req_def)
    show ?thesis
      using Some does_walk [OF Suc.IH, of sr1 a] does_retry [OF Some] by (intro does_act [OF e]) (auto simp: t get_req_def)
  qed
qed simp

section \<open>The timeout thread\<close>

lemma does_sweep:
  "does sr (case nxt of None \<Rightarrow> [] | Some a \<Rightarrow> [Sweep a]) (sweep_loop n m sr nxt)"
proof (induction n m sr nxt rule: sweep_loop.induct)
  case (3 n m sr a)
  let ?nxt = "next_of (requests (cache sr)) a"
  have "does sr [Sweep a] (rbind (get_req (cache sr) a) (\<lambda>_. rbind (sr_arpcache_handle_arpreq n sr a) (\<lambda>sr1. sweep_loop n m sr1 ?nxt)))"
  proof (rule does_rbind [where st = "\<lambda>_. sr" and bs = "\<lambda>_. Handle a # (case ?nxt of None \<Rightarrow> [] | Some b \<Rightarrow> [Sweep b])"])
    have "does sr (Handle a # (case ?nxt of None \<Rightarrow> [] | Some b \<Rightarrow> [Sweep b]))
        (rbind (sr_arpcache_handle_arpreq n sr a) (\<lambda>sr1. sweep_loop n m sr1 ?nxt))"
      using 3 [OF refl] by (intro does_Cons does_handle)
    then show "Inr (sr, Handle a # (case ?nxt of None \<Rightarrow> [] | Some b \<Rightarrow> [Sweep b]))
          = Inr (sr, Handle a # (case ?nxt of None \<Rightarrow> [] | Some b \<Rightarrow> [Sweep b]))
        \<and> does sr ((Handle a # (case ?nxt of None \<Rightarrow> [] | Some b \<Rightarrow> [Sweep b])) @ [])
          (rbind (sr_arpcache_handle_arpreq n sr a) (\<lambda>sr1. sweep_loop n m sr1 ?nxt))" by simp
  qed simp
  then show ?case by (simp add: Let_def)
qed simp_all

section \<open>The packet handler\<close>

definition starts :: "sr_instance \<Rightarrow> act list res \<Rightarrow> sr_instance res \<Rightarrow> bool" where
  "starts sr x r \<longleftrightarrow> (case x of Inr as \<Rightarrow> does sr as r | Inl e \<Rightarrow> r = Inl e)"

lemma starts_Inr [simp]: "starts sr (Inr as) r = does sr as r"
  by (simp add: starts_def)

lemma starts_rbind: "(\<And>y. x = Inr y \<Longrightarrow> starts sr (f y) (g y)) \<Longrightarrow> starts sr (rbind x f) (rbind x g)"
  by (cases x) (auto simp: starts_def)

lemmas does_soq = does_send_or_queue [OF does_handle]

lemma starts_error: "starts sr (error_acts sr packet len ty code) (send_icmp_error n sr packet len ty code)"
  by (auto simp: error_acts_def send_icmp_error_def Let_def intro!: starts_rbind does_soq)

lemma starts_echo: "starts sr (echo_acts sr packet) (handle_echo_request n sr packet)"
  by (auto simp: echo_acts_def handle_echo_request_def Let_def split: option.split intro!: starts_rbind does_soq)

lemma starts_for_me: "starts sr (for_me_acts sr packet) (handle_for_me n sr packet)"
  by (auto simp: for_me_acts_def handle_for_me_def port_unreachable_def Let_def intro: starts_error starts_echo)

lemma starts_forward_packet:
  "starts sr (rbind (deref (sr_get_interface sr (rt_interface rt))) (\<lambda>ifc. Inr [Lookup True (set_shost packet (if_addr ifc)) rt]))
     (forward_packet n sr packet rt)"
  using does_lookup [OF does_handle [of _ _ n], of sr True _ rt]
  by (auto simp: forward_packet_def Let_def intro!: starts_rbind cong: option.case_cong)

lemma starts_forward: "starts sr (forward_acts sr packet) (handle_forward n sr packet)"
  by (auto simp: forward_acts_def handle_forward_def time_exceeded_def net_unreachable_def Let_def
      split: option.split intro: starts_forward_packet starts_error)

lemma starts_ip: "starts sr (ip_acts sr packet) (handle_ip n sr packet)"
  by (auto simp: ip_acts_def handle_ip_def Let_def split: option.split intro: starts_for_me starts_forward)

lemma send_waiting_frame:
  "send_waiting sr m (p # ps) =
     rbind (released_frame sr m p) (\<lambda>f. send_waiting (snd (sr_send_packet sr f (pk_iface p))) m ps)"
  by (simp add: released_frame_def Let_def rbind_assoc)

lemma does_flush:
  assumes "req_store (cache sr) a \<noteq> None"
  shows "does sr [Flush a m ps] (rbind (send_waiting sr m ps) (\<lambda>sr2.
    rbind (sr_arpreq_destroy (cache sr2) a) (\<lambda>c. Inr (sr2\<lparr>cache := c\<rparr>))))"
  using assms
proof (induction ps arbitrary: sr)
  case Nil
  then show ?case by (simp, intro does_rbind [where bs = "\<lambda>_. []"]) auto
next
  case (Cons p ps)
  show ?case unfolding send_waiting_frame rbind_assoc
    using Cons
    by (intro does_rbind [where bs = "\<lambda>f. [Send f (pk_iface p), Flush a m ps]" and st = "\<lambda>_. sr"])
      (auto simp: get_req_def intro!: does_act [where a = "Send _ _"])
qed

lemma does_reply: "does sr [Insert (ar_sha h) (ar_sip h)] (handle_arp_reply sr h)"
proof -
  have w: "does sr1 [Waiting a m] (rbind (get_req (cache sr1) a) (\<lambda>req. rbind (send_waiting sr1 m (rq_packets req)) (\<lambda>sr2.
      rbind (sr_arpreq_destroy (cache sr2) a) (\<lambda>c. Inr (sr2\<lparr>cache := c\<rparr>)))))" for sr1 a m
    by (intro does_rbind [where bs = "\<lambda>req. [Flush a m (rq_packets req)]" and st = "\<lambda>_. sr1"])
      (auto simp: get_req_def split: option.splits intro!: does_flush)
  show ?thesis unfolding handle_arp_reply_def
    by (intro does_rbind [where st = snd and bs = "\<lambda>y. case fst y of None \<Rightarrow> [] | Some a \<Rightarrow> [Waiting a (ar_sha h)]"])
      (auto split: option.split intro: w)
qed

lemma starts_arp: "starts sr (arp_acts sr packet) (handle_arp sr packet)"
  by (auto simp: arp_acts_def handle_arp_def arp_reply_to_def Let_def intro!: starts_rbind intro: does_send does_reply)

lemma starts_frame: "starts sr (frame_acts sr packet) (sr_handlepacket n sr packet iface)"
  by (auto simp: frame_acts_def sr_handlepacket_def Let_def intro: starts_ip starts_arp)

section \<open>Whole calls as schedules\<close>

lemma handler_alone:
  "act_step\<^sup>*\<^sup>* x y \<Longrightarrow> thread_step\<^sup>*\<^sup>* \<lparr>inst = fst x, hnd = snd x, tmo = []\<rparr> \<lparr>inst = fst y, hnd = snd y, tmo = []\<rparr>"
proof (induction rule: rtranclp_induct)
  case (step y z)
  from step(2) have "thread_step \<lparr>inst = fst y, hnd = snd y, tmo = []\<rparr> \<lparr>inst = fst z, hnd = snd z, tmo = []\<rparr>"
  proof cases
    case (1 a sr sr1 bs as)
    then show ?thesis using thread_step.handler [of "\<lparr>inst = fst y, hnd = snd y, tmo = []\<rparr>" a as sr1 bs] by simp
  qed
  with step(3) show ?case by (rule rtranclp.rtrancl_into_rtrancl)
qed simp

lemma timeout_alone:
  "act_step\<^sup>*\<^sup>* x y \<Longrightarrow> thread_step\<^sup>*\<^sup>* \<lparr>inst = fst x, hnd = as, tmo = snd x\<rparr> \<lparr>inst = fst y, hnd = as, tmo = snd y\<rparr>"
proof (induction rule: rtranclp_induct)
  case (step y z)
  from step(2) have "thread_step \<lparr>inst = fst y, hnd = as, tmo = snd y\<rparr> \<lparr>inst = fst z, hnd = as, tmo = snd z\<rparr>"
  proof cases
    case (1 a sr sr1 bs as1)
    then show ?thesis using thread_step.timeout [of "\<lparr>inst = fst y, hnd = as, tmo = snd y\<rparr>" a as1 sr1 bs] by simp
  qed
  with step(3) show ?case by (rule rtranclp.rtrancl_into_rtrancl)
qed simp

lemma call_packet:
  assumes "sr_handlepacket n sr packet iface = Inr sr'"
  shows "thread_step\<^sup>*\<^sup>* (idle sr) (idle sr')"
proof -
  obtain as where as: "frame_acts sr packet = Inr as" "does sr as (Inr sr')"
    using starts_frame [of sr packet n iface] assms by (auto simp: starts_def split: sum.splits)
  then have "act_step\<^sup>*\<^sup>* (sr, as) (sr', [])" unfolding does_def by (simp, metis append_Nil2)
  from handler_alone [OF this] show ?thesis
    using thread_step.receive [of "idle sr" packet as] as(1) by (simp add: converse_rtranclp_into_rtranclp)
qed

lemma call_timeout:
  assumes "sr_arpcache_timeout n sr = Inr sr'"
  shows "thread_step\<^sup>*\<^sup>* \<lparr>inst = sr, hnd = as, tmo = []\<rparr> \<lparr>inst = sr', hnd = as, tmo = []\<rparr>"
proof -
  let ?t = "start_round \<lparr>inst = sr, hnd = as, tmo = []\<rparr>"
  have nxt: "(case case xs of [] \<Rightarrow> None | a # _ \<Rightarrow> Some a of None \<Rightarrow> [] | Some a \<Rightarrow> [Sweep a])
      = (case xs of [] \<Rightarrow> [] | a # _ \<Rightarrow> [Sweep a])" for xs
    by (simp split: list.split)
  have "does (inst ?t) (tmo ?t) (Inr sr')"
    using assms does_sweep [of "inst ?t" "case requests (cache sr) of [] \<Rightarrow> None | a # _ \<Rightarrow> Some a" n "length (requests (cache sr))"]
    by (simp add: sr_arpcache_timeout_def sr_arpcache_sweepreqs_def start_round_def sr_time_def nxt)
  then have "act_step\<^sup>*\<^sup>* (inst ?t, tmo ?t) (sr', [])" unfolding does_def by (simp, metis append_Nil2)
  from timeout_alone [OF this, of as] show ?thesis
    using thread_step.round [of "\<lparr>inst = sr, hnd = as, tmo = []\<rparr>"]
    by (simp add: start_round_def sr_time_def converse_rtranclp_into_rtranclp)
qed

lemma calls_reach: "sr_reach n sr0 sr \<Longrightarrow> thread_reach sr0 (idle sr)"
proof (induction rule: sr_reach.induct)
  case (packet sr pkt iface sr')
  then show ?case using call_packet by (blast intro: rtranclp_trans)
next
  case (tick sr sr')
  then show ?case using call_timeout [of n sr sr' "[]"] by (blast intro: rtranclp_trans)
qed simp

end
