(* ===== verification/Sr_Threads_Inv.thy ===== *)
theory Sr_Threads_Inv
  imports Sr_Threads_Sim
begin

text \<open>
  What the two threads keep, whatever their order: the invariant of the request queue, in which the request of an ARP
  reply that is being processed is off the queue but allocated, and what is put on the wire.
\<close>

section \<open>The invariant\<close>

definition req_ip :: "sr_arpcache \<Rightarrow> req_addr \<Rightarrow> u32 option" where
  "req_ip c a = map_option rq_ip (req_store c a)"

definition queue_inv :: "sr_if list \<Rightarrow> sr_arpcache \<Rightarrow> req_addr set \<Rightarrow> bool" where
  "queue_inv is c O' \<longleftrightarrow> length (entries c) = SR_ARPCACHE_SZ \<and> distinct (requests c)
     \<and> set (requests c) \<inter> O' = {} \<and> set (requests c) \<union> O' = dom (req_store c)
     \<and> (\<forall>a r. req_store c a = Some r \<longrightarrow> a < req_fresh c \<and> req_ok is r)
     \<and> inj_on (req_ip c) (set (requests c))"

fun act_ok :: "sr_if list \<Rightarrow> act \<Rightarrow> bool" where
  "act_ok is (Lookup _ f rt) = (frame_ok f \<and> sendable is f (rt_interface rt))"
| "act_ok is (Queue f rt) = (frame_ok f \<and> sendable is f (rt_interface rt))"
| "act_ok is (Send f i) = (frame_ok f \<or> ether_type (ld_struct 14 dec_ether f 0) = htons ethertype_arp)"
| "act_ok is (Flush _ _ ps) = (\<forall>p \<in> set ps. pkt_ok is p)"
| "act_ok is _ = True"

text \<open>The request that an action works on by its address, and the request that an ARP reply has taken off the queue.\<close>

fun subject :: "act \<Rightarrow> req_addr option" where
  "subject (Handle a) = Some a"
| "subject (Retry a) = Some a"
| "subject (Mark a) = Some a"
| "subject (Walk a _ _) = Some a"
| "subject (Destroy a) = Some a"
| "subject (Sweep a) = Some a"
| "subject _ = None"

fun taken :: "act \<Rightarrow> req_addr option" where
  "taken (Waiting a _) = Some a"
| "taken (Flush a _ _) = Some a"
| "taken _ = None"

definition owned :: "act list \<Rightarrow> req_addr set" where
  "owned as = {a. Some a \<in> taken ` set as}"

lemma owned_simps [simp]:
  "owned [] = {}" "owned (a # as) = set_option (taken a) \<union> owned as" "owned (as @ bs) = owned as \<union> owned bs"
  by (auto simp: owned_def image_iff)

text \<open>The actions of an ARP reply; all others are plain.\<close>

fun plain :: "act \<Rightarrow> bool" where
  "plain (Insert _ _) = False"
| "plain (Waiting _ _) = False"
| "plain (Flush _ _ _) = False"
| "plain _ = True"

fun replying :: "act list \<Rightarrow> bool" where
  "replying [Insert _ _] = True"
| "replying [Waiting _ _] = True"
| "replying [Flush _ _ _] = True"
| "replying [Send _ _, Flush _ _ _] = True"
| "replying _ = False"

definition threads_ok :: "sr_threads \<Rightarrow> bool" where
  "threads_ok t \<longleftrightarrow> queue_inv (if_list (inst t)) (cache (inst t)) (owned (hnd t))
     \<and> (\<forall>a \<in> set (hnd t) \<union> set (tmo t). act_ok (if_list (inst t)) a)
     \<and> (\<forall>a \<in> set (tmo t). plain a \<and> (\<forall>q. subject a = Some q \<longrightarrow> q \<notin> owned (hnd t)))
     \<and> ((\<forall>a \<in> set (hnd t). plain a) \<or> replying (hnd t))"

lemma queue_inv_none: "queue_inv is c {} = arp_inv is c"
  unfolding queue_inv_def arp_inv_def store_ok_def by (auto simp: inj_on_def req_ip_def) (metis domI option.simps(9))

section \<open>Results without other faults\<close>

text \<open>\<open>well F sr P x\<close>: the result \<open>x\<close> satisfies \<open>P\<close>, or is one of the faults \<open>F\<close> if every address has a route.\<close>

definition well :: "fault set \<Rightarrow> sr_instance \<Rightarrow> ('a \<Rightarrow> bool) \<Rightarrow> 'a res \<Rightarrow> bool" where
  "well F sr P x \<longleftrightarrow> (case x of Inr y \<Rightarrow> P y | Inl e \<Rightarrow> routed sr \<longrightarrow> e \<in> F)"

lemma well_simps [simp]: "well F sr P (Inr y) = P y" "well F sr P (Inl e) = (routed sr \<longrightarrow> e \<in> F)"
  by (simp_all add: well_def)

lemma well_rbind:
  "well F sr P x \<Longrightarrow> F \<subseteq> G \<Longrightarrow> (\<And>y. P y \<Longrightarrow> well G sr R (f y)) \<Longrightarrow> well G sr R (rbind x f)"
  by (cases x) auto

lemma well_route:
  "(\<And>rt. sr_findLPMentry (routing_table sr) ip = Some rt \<Longrightarrow> well F sr P (f rt)) \<Longrightarrow>
   well F sr P (rbind (deref (sr_findLPMentry (routing_table sr) ip)) f)"
  by (cases "sr_findLPMentry (routing_table sr) ip") (auto elim: routedE [where ip = ip])

lemma well_route_iface:
  "sr_findLPMentry (routing_table sr) ip = Some rt \<Longrightarrow>
   (\<And>i. find_if (if_list sr) (rt_interface rt) = Some i \<Longrightarrow> well F sr P (f i)) \<Longrightarrow>
   well F sr P (rbind (deref (sr_get_interface sr (rt_interface rt))) f)"
  by (cases "sr_get_interface sr (rt_interface rt)")
    (auto simp: sr_get_interface_def elim: routedE [where ip = ip])

lemma well_guard: "(\<not> b \<Longrightarrow> e \<in> F) \<Longrightarrow> (b \<Longrightarrow> well F sr P (f ())) \<Longrightarrow> well F sr P (rbind (guard e b) f)"
  by (cases b) auto

lemma well_get_req: "UseAfterFree \<in> F \<Longrightarrow> (\<And>r. req_store c a = Some r \<Longrightarrow> well F sr P (f r)) \<Longrightarrow> well F sr P (rbind (get_req c a) f)"
  by (cases "req_store c a") (auto simp: get_req_def)

section \<open>Plain actions\<close>

text \<open>
  The result of an action keeps the queue, sends only well-formed frames and leaves well-formed plain actions that do
  not use the requests in \<open>Q\<close>.
\<close>

definition kept :: "req_addr set \<Rightarrow> sr_instance \<Rightarrow> sr_instance \<times> act list \<Rightarrow> bool" where
  "kept Q sr y \<longleftrightarrow> queue_inv (if_list sr) (cache (fst y)) Q \<and> evolves sr (fst y)
     \<and> (\<forall>b \<in> set (snd y). act_ok (if_list sr) b \<and> plain b \<and> (\<forall>q. subject b = Some q \<longrightarrow> q \<notin> Q))"

lemma kept_pair [simp]:
  "kept Q sr (sr1, bs) \<longleftrightarrow> queue_inv (if_list sr) (cache sr1) Q \<and> evolves sr sr1
     \<and> (\<forall>b \<in> set bs. act_ok (if_list sr) b \<and> plain b \<and> (\<forall>q. subject b = Some q \<longrightarrow> q \<notin> Q))"
  by (simp add: kept_def)

abbreviation acts_well :: "req_addr set \<Rightarrow> sr_instance \<Rightarrow> (sr_instance \<times> act list) res \<Rightarrow> bool" where
  "acts_well Q sr x \<equiv> well {UseAfterFree, OutOfBounds} sr (kept Q sr) x"

lemma queue_inv_owned: "queue_inv is c Q \<Longrightarrow> q \<in> Q \<Longrightarrow> \<exists>r. req_store c q = Some r"
  unfolding queue_inv_def by blast

lemma queue_inv_reqD: "queue_inv is c Q \<Longrightarrow> req_store c a = Some r \<Longrightarrow> a < req_fresh c \<and> req_ok is r"
  by (simp add: queue_inv_def)

lemma queue_inv_update:
  assumes "queue_inv is c Q" "req_store c q = Some r" "rq_ip r' = rq_ip r" "req_ok is r'"
  shows "queue_inv is (c\<lparr>req_store := (req_store c)(q \<mapsto> r')\<rparr>) Q"
proof -
  have "req_ip (c\<lparr>req_store := (req_store c)(q \<mapsto> r')\<rparr>) = req_ip c"
    using assms(2,3) by (auto simp: req_ip_def)
  then show ?thesis using assms unfolding queue_inv_def by (auto simp: insert_absorb)
qed

lemma queue_inv_queuereq:
  assumes inv: "queue_inv is c Q" and f: "frame_ok f" "sendable is f iface"
  obtains b c' where "sr_arpcache_queuereq c ip f iface = Inr (b, c')" "queue_inv is c' Q" "b \<notin> Q"
proof -
  let ?p = "\<lparr>pk_buf = f, pk_iface = strncpy sr_IFACE_NAMELEN iface\<rparr>"
  have ne: "f \<noteq> []" using f by (auto simp: frame_ok_def)
  have p: "pkt_ok is ?p" using f by (simp add: pkt_ok_def)
  have dom: "set (requests c) \<subseteq> dom (req_store c)" using inv by (auto simp: queue_inv_def)
  from find_req_cases [OF dom, of ip] show ?thesis
  proof (elim disjE exE conjE)
    fix a r assume a: "find_req c (requests c) ip = Inr (Some a)" "a \<in> set (requests c)" "req_store c a = Some r" "rq_ip r = ip"
    show ?thesis
    proof (rule that)
      show "sr_arpcache_queuereq c ip f iface = Inr (a, c\<lparr>req_store := (req_store c)(a \<mapsto>
          r\<lparr>rq_packets := ?p # rq_packets r\<rparr>)\<rparr>)"
        using a ne by (simp add: sr_arpcache_queuereq_def add_packet_def get_req_def)
      show "queue_inv is (c\<lparr>req_store := (req_store c)(a \<mapsto> r\<lparr>rq_packets := ?p # rq_packets r\<rparr>)\<rparr>) Q"
        using a p queue_inv_reqD [OF inv a(3)] by (intro queue_inv_update [OF inv a(3)]) (auto simp: req_ok_def)
      show "a \<notin> Q" using inv a(2) by (auto simp: queue_inv_def)
    qed
  next
    assume n: "find_req c (requests c) ip = Inr None"
      and fresh: "\<forall>a \<in> set (requests c). \<forall>r. req_store c a = Some r \<longrightarrow> rq_ip r \<noteq> ip"
    define a where "a = req_fresh c"
    define r where "r = \<lparr>rq_ip = ip, rq_sent = 0, rq_times_sent = 0, rq_packets = [?p]\<rparr>"
    have nf: "a \<notin> dom (req_store c)" using inv by (auto simp: queue_inv_def a_def)
    then have q: "a \<notin> set (requests c)" "a \<notin> Q" using inv by (auto simp: queue_inv_def)
    let ?c = "c\<lparr>requests := a # requests c, req_store := (req_store c)(a \<mapsto> r), req_fresh := Suc a\<rparr>"
    have "Some ip \<notin> req_ip c ` set (requests c)" using fresh by (auto simp: req_ip_def dest!: sym [of "Some ip"])
    moreover have "req_ip ?c ` set (requests c) = req_ip c ` set (requests c)" "inj_on (req_ip ?c) (set (requests c)) = inj_on (req_ip c) (set (requests c))"
      using q(1) by (auto simp: req_ip_def intro!: inj_on_cong image_cong)
    ultimately have inj: "inj_on (req_ip ?c) (insert a (set (requests c)))"
      using inv q(1) by (simp add: queue_inv_def) (simp add: req_ip_def r_def)
    show ?thesis
    proof (rule that)
      show "sr_arpcache_queuereq c ip f iface = Inr (a, c\<lparr>requests := a # requests c,
          req_store := (req_store c)(a \<mapsto> r), req_fresh := Suc a\<rparr>)"
        using n ne by (simp add: sr_arpcache_queuereq_def new_req_def add_packet_def get_req_def
            a_def r_def Let_def)
      show "queue_inv is ?c Q"
        using inv q p inj unfolding queue_inv_def by (auto simp: req_ok_def r_def a_def less_Suc_eq)
    qed (rule q)
  qed
qed

lemma well_lookup:
  assumes "queue_inv (if_list sr) (cache sr) Q" "act_ok (if_list sr) (Lookup fwd f rt)"
  shows "acts_well Q sr (exec_act (Lookup fwd f rt) sr)"
  using assms by (auto simp: Let_def frame_ok_dec_ttl split: option.split)

lemma well_queue:
  assumes "queue_inv (if_list sr) (cache sr) Q" "act_ok (if_list sr) (Queue f rt)"
  shows "acts_well Q sr (exec_act (Queue f rt) sr)"
proof -
  obtain b c' where "sr_arpcache_queuereq (cache sr) (rt_gw rt) f (rt_interface rt) = Inr (b, c')"
      "queue_inv (if_list sr) c' Q" "b \<notin> Q"
    using queue_inv_queuereq [OF assms(1)] assms(2) by (metis act_ok.simps(2))
  then show ?thesis by simp
qed

lemma retry_frame_ok:
  assumes "req_ok (if_list sr) req"
  shows "well {} sr (\<lambda>(f, i). ether_type (ld_struct 14 dec_ether f 0) = htons ethertype_arp) (retry_frame sr req)"
proof -
  obtain p ps where p: "rq_packets req = p # ps" "pkt_ok (if_list sr) p"
    using assms by (cases "rq_packets req") (auto simp: req_ok_def)
  then obtain ifc where "sr_get_interface sr (pk_iface p) = Some ifc" "34 \<le> length (pk_buf p)"
    by (auto simp: pkt_ok_def sendable_def sr_get_interface_def frame_ok_def)
  with p(1) show ?thesis by (simp add: retry_frame_def Let_def well_route)
qed

lemma well_retry:
  assumes "queue_inv (if_list sr) (cache sr) Q" "q \<notin> Q"
  shows "acts_well Q sr (exec_act (Retry q) sr)"
  unfolding exec_act.simps
proof (rule well_get_req)
  fix r assume "req_store (cache sr) q = Some r"
  then have "req_ok (if_list sr) r" using queue_inv_reqD [OF assms(1)] by blast
  from retry_frame_ok [OF this]
  show "acts_well Q sr (rbind (retry_frame sr r) (\<lambda>(f, i). Inr (sr, [Send f i, Mark q])))"
    by (rule well_rbind) (use assms in auto)
qed simp

lemma queue_inv_destroy:
  assumes "queue_inv is c Q" "req_store c q = Some r"
  shows "queue_inv is (c\<lparr>requests := remove1 q (requests c), req_store := (req_store c)(q := None)\<rparr>) (Q - {q})"
  using assms unfolding queue_inv_def by (auto simp: set_remove1_eq inj_on_def req_ip_def)

lemma unreach_frame_ok:
  "well {OutOfBounds} sr (\<lambda>(f, rt). frame_ok f \<and> sendable (if_list sr) f (rt_interface rt)) (unreach_frame sr ip p)"
  unfolding unreach_frame_def Let_def
  by (intro well_route well_route_iface well_guard)
    (auto simp: sizeof_defs ICMP_DATA_SIZE_def mk_icmp_t3_headers intro!: sendableI)

lemma well_walk:
  assumes "queue_inv (if_list sr) (cache sr) Q" "q \<notin> Q"
  shows "acts_well Q sr (exec_act (Walk q ip ps) sr)"
proof (cases ps)
  case (Cons p ps')
  from unreach_frame_ok [of sr ip p]
  have "acts_well Q sr (rbind (unreach_frame sr ip p) (\<lambda>(f, rt). Inr (sr, [Lookup False f rt, Walk q ip ps'])))"
    by (rule well_rbind) (use assms in auto)
  then show ?thesis unfolding Cons exec_act.simps by (intro well_get_req) auto
qed (use assms in simp)

lemma next_of_mem: "next_of xs a = Some b \<Longrightarrow> b \<in> set xs"
  by (induction xs a rule: next_of.induct) (auto split: if_splits list.splits)

lemma well_plain:
  assumes inv: "queue_inv (if_list sr) (cache sr) Q" and a: "act_ok (if_list sr) a" "plain a"
    and s: "\<And>q. subject a = Some q \<Longrightarrow> q \<notin> Q"
  shows "acts_well Q sr (exec_act a sr)"
proof (cases a)
  case (Lookup fwd f rt)
  then show ?thesis using well_lookup inv a(1) by blast
next
  case (Queue f rt)
  then show ?thesis using well_queue inv a(1) by blast
next
  case (Send f i)
  then show ?thesis using inv a(1) by (auto intro: evolves_send)
next
  case (Handle q)
  then show ?thesis using inv s by (auto simp: sr_time_def intro!: well_get_req)
next
  case (Retry q)
  then show ?thesis using well_retry inv s by simp
next
  case (Mark q)
  then show ?thesis
    using inv queue_inv_reqD [OF inv] by (auto simp: sr_time_def req_ok_def intro!: well_get_req queue_inv_update [OF inv])
next
  case (Walk q ip ps)
  then show ?thesis using well_walk inv s by simp
next
  case (Destroy q)
  then show ?thesis
    using inv s queue_inv_destroy [OF inv, of q] by (auto simp: sr_arpreq_destroy_def rbind_assoc intro!: well_get_req)
next
  case (Sweep q)
  have "b \<notin> Q" if "next_of (requests (cache sr)) q = Some b" for b
    using next_of_mem [OF that] inv by (auto simp: queue_inv_def)
  then show ?thesis
    using Sweep inv s by (auto split: option.split intro!: well_get_req)
qed (use a in simp_all)

section \<open>The actions of an ARP reply\<close>

text \<open>
  They keep the invariant and cannot fault when every address has a route: the request taken off the queue is known to
  nobody else. \<open>took sr y\<close> describes what one of them leaves.
\<close>

definition took :: "sr_instance \<Rightarrow> sr_instance \<times> act list \<Rightarrow> bool" where
  "took sr y \<longleftrightarrow> queue_inv (if_list sr) (cache (fst y)) (owned (snd y)) \<and> evolves sr (fst y)
     \<and> (\<forall>b \<in> set (snd y). act_ok (if_list sr) b) \<and> (snd y = [] \<or> replying (snd y))"

lemma took_pair [simp]:
  "took sr (sr1, bs) \<longleftrightarrow> queue_inv (if_list sr) (cache sr1) (owned bs) \<and> evolves sr sr1
     \<and> (\<forall>b \<in> set bs. act_ok (if_list sr) b) \<and> (bs = [] \<or> replying bs)"
  by (simp add: took_def)

lemma well_insert:
  assumes "queue_inv (if_list sr) (cache sr) {}"
  shows "well {} sr (took sr) (exec_act (Insert m ip) sr)"
proof (cases rule: insert_cases [OF assms [unfolded queue_inv_none], of m ip])
  case 1
  then show ?thesis by (simp add: queue_inv_none)
next
  case (2 a r)
  then have "queue_inv (if_list sr) (cache (inserted sr m ip (Some a))) {a}"
    using assms unfolding queue_inv_def arp_inv_pending_def store_ok_def by (auto simp: inj_on_def req_ip_def)
  with 2 show ?thesis by simp
qed

lemma frame_ok_34: "frame_ok f \<Longrightarrow> 34 \<le> length f"
  by (simp add: frame_ok_def)

lemma well_released:
  assumes "pkt_ok (if_list sr) p"
  shows "well {} sr frame_ok (released_frame sr m p)"
  using assms unfolding released_frame_def Let_def
  by (intro well_guard well_route) (auto simp: pkt_ok_def frame_ok_dec_ttl dest: frame_ok_34)

lemma well_reply:
  assumes "queue_inv (if_list sr) (cache sr) (owned (a # as))" "act_ok (if_list sr) a" "replying (a # as)" "\<not> plain a"
  shows "well {} sr (took sr) (exec_act a sr)"
proof (cases a)
  case (Insert m ip)
  with assms(1,3) have "queue_inv (if_list sr) (cache sr) {}" by (cases as) auto
  then show ?thesis using Insert well_insert by simp
next
  case (Waiting q m)
  with assms(3) have i: "queue_inv (if_list sr) (cache sr) {q}" using assms(1) by (cases as) auto
  then obtain r where "req_store (cache sr) q = Some r" using queue_inv_owned by blast
  with i queue_inv_reqD [OF i this] show ?thesis by (simp add: Waiting get_req_def req_ok_def)
next
  case (Flush q m ps)
  with assms(3) have i: "queue_inv (if_list sr) (cache sr) {q}" using assms(1) by (cases as) auto
  then obtain r where r: "req_store (cache sr) q = Some r" using queue_inv_owned by blast
  show ?thesis
  proof (cases ps)
    case Nil
    with r queue_inv_destroy [OF i r] show ?thesis by (simp add: Flush sr_arpreq_destroy_def get_req_def)
  next
    case (Cons p ps')
    have "well {} sr (took sr) (rbind (released_frame sr m p) (\<lambda>frame. Inr (sr, [Send frame (pk_iface p), Flush q m ps'])))"
      by (rule well_rbind [OF well_released]) (use i assms(2) Flush Cons in auto)
    with r show ?thesis by (simp add: Flush Cons get_req_def)
  qed
qed (use assms in simp_all)

section \<open>A frame\<close>

definition first_acts :: "sr_instance \<Rightarrow> act list \<Rightarrow> bool" where
  "first_acts sr as \<longleftrightarrow> (\<forall>a \<in> set as. act_ok (if_list sr) a \<and> subject a = None)
     \<and> ((\<forall>a \<in> set as. plain a) \<or> replying as \<and> owned as = {})"

lemma first_simps [simp]: "first_acts sr []" "first_acts sr [Insert m ip]"
  "first_acts sr [Lookup fwd f rt] \<longleftrightarrow> frame_ok f \<and> sendable (if_list sr) f (rt_interface rt)"
  "first_acts sr [Send f i] \<longleftrightarrow> frame_ok f \<or> ether_type (ld_struct 14 dec_ether f 0) = htons ethertype_arp"
  by (simp_all add: first_acts_def)

lemma well_error_acts:
  "42 \<le> length packet \<Longrightarrow> 70 \<le> new_len \<Longrightarrow> new_len \<le> 65535 \<Longrightarrow> well {} sr (first_acts sr) (error_acts sr packet new_len ty code)"
  unfolding error_acts_def Let_def
  by (intro well_route well_route_iface) (auto simp: ICMP_DATA_SIZE_def mk_icmp_t3_headers intro!: sendableI)

lemma well_echo_acts:
  "frame_ok packet \<Longrightarrow> 38 \<le> length packet \<Longrightarrow> well {} sr (first_acts sr) (echo_acts sr packet)"
  unfolding echo_acts_def Let_def
  by (auto simp: frame_ok_st_payload frame_ok_rewrite_ip split: option.split
      intro!: well_route_iface sendable_set_shost)

lemma well_for_me_acts: "frame_ok packet \<Longrightarrow> well {} sr (first_acts sr) (for_me_acts sr packet)"
  by (auto simp: for_me_acts_def Let_def sizeof_defs ICMP_DATA_SIZE_def intro!: well_echo_acts well_error_acts)

lemma well_forward_acts: "frame_ok packet \<Longrightarrow> well {} sr (first_acts sr) (forward_acts sr packet)"
  by (auto simp: forward_acts_def Let_def sizeof_defs ICMP_DATA_SIZE_def split: option.split
      intro!: well_error_acts well_route_iface sendable_set_shost frame_ok_length)

lemma well_arp_acts: "well {} sr (first_acts sr) (arp_acts sr packet)"
  by (auto simp: arp_acts_def Let_def intro!: well_route well_route_iface)

lemma ip_acts_eq:
  "ip_acts sr packet =
     (if ip_valid packet \<and> \<not> ip_black_list (ld_struct 20 dec_ip packet 14) then
        case find (\<lambda>i. ip_dst (ld_struct 20 dec_ip packet 14) = if_ip i) (if_list sr) of
          Some _ \<Rightarrow> for_me_acts sr packet | None \<Rightarrow> forward_acts sr packet
      else Inr [])"
proof (cases "34 \<le> length packet")
  case True
  then have "\<not> length packet - sizeof_ethernet_hdr < sizeof_ip_hdr" by (simp add: sizeof_defs)
  then show ?thesis
    using True ip_cksum_check [OF True]
    by (auto simp: ip_acts_def Let_def ip_valid_def sizeof_ip_hdr_def st_bytes_same iphdr.st_ld_id
        split: option.split)
qed (auto simp: ip_acts_def ip_valid_def sizeof_defs)

lemma well_frame_acts: "well {} sr (first_acts sr) (frame_acts sr packet)"
  by (auto simp: frame_acts_def Let_def ip_acts_eq split: option.split
      intro!: well_for_me_acts well_forward_acts well_arp_acts frame_ok_ip_valid)

section \<open>Every step of the threads\<close>

lemma plain_taken: "plain a \<Longrightarrow> taken a = None"
  by (cases a) simp_all

lemma plain_owned: "\<forall>a \<in> set as. plain a \<Longrightarrow> owned as = {}"
  by (auto simp: owned_def plain_taken)

lemma replying_plain: "replying (a # as) \<Longrightarrow> plain a \<Longrightarrow> replying as \<and> (\<exists>f i. a = Send f i)"
  by (cases "a # as" rule: replying.cases) auto

lemma replying_reply: "replying (a # as) \<Longrightarrow> \<not> plain a \<Longrightarrow> as = []"
  by (cases "a # as" rule: replying.cases) auto

lemma card_owned: "replying as \<Longrightarrow> card (owned as) \<le> 1"
  by (cases as rule: replying.cases) auto

lemma owned_acts: "q \<in> owned as \<Longrightarrow> \<exists>m. Waiting q m \<in> set as \<or> (\<exists>ps. Flush q m ps \<in> set as)"
proof -
  assume "q \<in> owned as"
  then obtain a where a: "a \<in> set as" "taken a = Some q" by (auto simp: owned_def)
  show ?thesis by (cases a) (use a in \<open>auto simp del: split_paired_Ex\<close>)
qed

lemma timeout_step_ok:
  assumes "threads_ok t" "tmo t = a # as" "exec_act a (inst t) = Inr (sr, bs)"
  shows "threads_ok (t\<lparr>inst := sr, tmo := bs @ as\<rparr>) \<and> evolves (inst t) sr"
proof -
  have "acts_well (owned (hnd t)) (inst t) (exec_act a (inst t))"
    using assms(1,2) by (intro well_plain) (auto simp: threads_ok_def)
  with assms(3) have k: "kept (owned (hnd t)) (inst t) (sr, bs)" by simp
  then have "if_list sr = if_list (inst t)" using evolves_env by auto
  with k assms(1,2) show ?thesis by (auto simp: threads_ok_def)
qed

lemma handler_step_ok:
  assumes "threads_ok t" "hnd t = a # as" "locks a \<Longrightarrow> tmo t = []" "exec_act a (inst t) = Inr (sr, bs)"
  shows "threads_ok (t\<lparr>inst := sr, hnd := bs @ as\<rparr>) \<and> evolves (inst t) sr"
proof -
  have inv: "queue_inv (if_list (inst t)) (cache (inst t)) (owned (a # as))" "act_ok (if_list (inst t)) a"
    using assms(1,2) by (auto simp: threads_ok_def)
  show ?thesis
  proof (cases "plain a")
    case True
    note a = this
    have sub: "subject a = Some q \<Longrightarrow> q \<notin> owned (a # as)" for q
      using assms(1,2) a plain_owned [of "a # as"] replying_plain [of a as] by (auto simp: threads_ok_def)
    have "acts_well (owned (a # as)) (inst t) (exec_act a (inst t))"
      using well_plain [OF inv a sub] .
    with assms(4) have k: "kept (owned (a # as)) (inst t) (sr, bs)" by simp
    have "owned (bs @ as) = owned (a # as)"
      using a k plain_owned [of bs] by (simp add: plain_taken)
    moreover have "(\<forall>b \<in> set (bs @ as). plain b) \<or> replying (bs @ as)"
      using assms(1,2,4) k a replying_plain [of a as] by (cases a) (auto simp: threads_ok_def)
    ultimately show ?thesis
      using k assms(1,2) evolves_env [of "inst t" sr] by (auto simp: threads_ok_def)
  next
    case False
    then have r: "replying (a # as)" using assms(1,2) by (auto simp: threads_ok_def)
    have e: "as = []" using replying_reply [OF r False] .
    have "well {} (inst t) (took (inst t)) (exec_act a (inst t))"
      using well_reply [OF inv r False] .
    with assms(4) have k: "took (inst t) (sr, bs)" by simp
    have "owned bs \<subseteq> owned [a] \<or> tmo t = []"
      using False assms(3,4) by (cases "(a, inst t)" rule: exec_act.cases) (auto simp: res_simps split: option.splits)
    then have "q \<notin> owned bs" if "b \<in> set (tmo t)" "subject b = Some q" for b q
      using assms(1,2) e that by (auto simp: threads_ok_def)
    then show ?thesis
      using k e assms(1,2) evolves_env [of "inst t" sr] by (auto simp: threads_ok_def)
  qed
qed

lemma round_ok:
  assumes "threads_ok t" "tmo t = []"
  shows "threads_ok (start_round t) \<and> evolves (inst t) (inst (start_round t))"
proof -
  have "a \<notin> owned (hnd t)" if "a \<in> set (requests (cache (inst t)))" for a
    using assms(1) that by (auto simp: threads_ok_def queue_inv_def)
  moreover have "queue_inv is (c\<lparr>entries := map f (entries c)\<rparr>) Q = queue_inv is c Q" for "is" c f Q
    by (simp add: queue_inv_def req_ip_def inj_on_def)
  ultimately show ?thesis
    using assms by (cases "requests (cache (inst t))") (auto simp: threads_ok_def start_round_def sr_time_def)
qed

lemma receive_ok:
  assumes "threads_ok t" "hnd t = []" "frame_acts (inst t) packet = Inr as"
  shows "threads_ok (t\<lparr>hnd := as\<rparr>)"
proof -
  have f: "first_acts (inst t) as" using well_frame_acts [of "inst t" packet] assms(3) by simp
  then have "owned as = {}" by (auto simp: first_acts_def plain_owned)
  with f assms(1,2) show ?thesis by (auto simp: threads_ok_def first_acts_def)
qed

lemma thread_step_ok:
  "thread_step t t' \<Longrightarrow> threads_ok t \<Longrightarrow> threads_ok t' \<and> evolves (inst t) (inst t')"
  by (induction rule: thread_step.induct) (auto dest: handler_step_ok timeout_step_ok round_ok receive_ok)

lemma thread_reach_ok:
  assumes "thread_reach sr0 t" "fresh_router sr0"
  shows "threads_ok t \<and> evolves sr0 (inst t)"
  using assms(1)
proof (induction rule: rtranclp_induct)
  case base
  then show ?case using sr_init_ok [OF assms(2)] by (simp add: threads_ok_def queue_inv_none)
next
  case (step t t')
  then show ?case using thread_step_ok by (blast intro: evolves_trans)
qed

section \<open>Faults\<close>

lemma no_subject_faultless:
  assumes "queue_inv (if_list sr) (cache sr) Q" "act_ok (if_list sr) a" "plain a" "subject a = None"
  shows "exec_act a sr \<noteq> Inl e"
proof (cases a)
  case (Queue f rt)
  with assms(2) have "frame_ok f" "sendable (if_list sr) f (rt_interface rt)" by simp_all
  from queue_inv_queuereq [OF assms(1) this] obtain b c' where
    "sr_arpcache_queuereq (cache sr) (rt_gw rt) f (rt_interface rt) = Inr (b, c')" by metis
  with Queue show ?thesis by simp
qed (use assms in simp_all)

lemma thread_act_faults:
  assumes "threads_ok t" "routed (inst t)" "hnd t = a # as \<or> tmo t = a # as" "exec_act a (inst t) = Inl e"
  shows "subject a \<noteq> None \<and> (e = UseAfterFree \<or> e = OutOfBounds)"
proof -
  let ?Q = "owned (hnd t)"
  have inv: "queue_inv (if_list (inst t)) (cache (inst t)) ?Q" and a: "act_ok (if_list (inst t)) a"
    using assms(1,3) by (auto simp: threads_ok_def)
  have p: "plain a"
  proof (rule ccontr)
    assume n: "\<not> plain a"
    then have h: "hnd t = a # as" "replying (a # as)" using assms(1,3) by (auto simp: threads_ok_def)
    with well_reply [of "inst t" a as] inv a n assms(2,4) show False by simp
  qed
  moreover have "q \<notin> ?Q" if "subject a = Some q" for q
    using assms(1,3) p that plain_owned [of "a # as"] replying_plain [of a as] by (auto simp: threads_ok_def)
  ultimately have "acts_well ?Q (inst t) (exec_act a (inst t))" by (intro well_plain inv a)
  with assms(2,4) no_subject_faultless [OF inv a p] show ?thesis by auto
qed

end
