(* ===== verification/Sr_Threads_Props.thy ===== *)
theory Sr_Threads_Props
  imports Sr_Threads_Inv Sr_Examples
begin

text \<open>
  The safety of the router with both of its threads, in every order of their actions, and examples.
\<close>

section \<open>Whole calls\<close>



section \<open>What is sent\<close>

text \<open>
  C1: in every state that the two threads reach, in whatever order they run, every message handed to the server holds a
  frame that leaves on an existing interface with that interface's MAC address as its source, and that is
  either an ARP frame or an IP frame with a valid header checksum.
\<close>

theorem threads_output_sound:
  assumes "thread_reach sr0 t" "fresh_router sr0" "msg \<in> set (sock_out (inst t))"
  shows "\<exists>f i ifc. msg = packet_message f i \<and> sr_get_interface (inst t) i = Some ifc \<and> 14 \<le> length f
    \<and> ether_shost (ld_struct 14 dec_ether f 0) = if_addr ifc
    \<and> (ether_type (ld_struct 14 dec_ether f 0) = htons ethertype_arp
       \<or> ether_type (ld_struct 14 dec_ether f 0) = htons ethertype_ip \<and> 34 \<le> length f \<and> ip_cksum_ok f)"
  using evolves_output_sound [OF _ assms(2,3)] thread_reach_ok [OF assms(1,2)] by simp

theorem threads_output_sound_witness:
  "\<exists>msg f i. msg \<in> set (sock_out demo_answered) \<and> msg = packet_message f i \<and> 14 \<le> length f"
proof -
  have "sock_out demo_answered \<noteq> []" by code_simp
  then have "hd (sock_out demo_answered) \<in> set (sock_out demo_answered)" by simp
  then show ?thesis
    using threads_output_sound [OF calls_reach [OF demo_answered_reach] demo_fresh] by (metis sr_threads.select_convs(1))
qed



section \<open>The request queue\<close>

text \<open>
  C2: in every state that the two threads reach, the allocated requests are those on the ARP queue, once each and no two
  of them for the same address, and at most one more: the one that the handler has taken off the queue for an ARP
  reply and not yet freed. Each has at least one waiting packet, all of them well-formed IP frames for existing
  interfaces.
\<close>

theorem threads_arp_queue:
  assumes "thread_reach sr0 t" "fresh_router sr0"
  shows "length (entries (cache (inst t))) = 100 \<and> distinct (requests (cache (inst t)))
    \<and> (\<exists>Q. set (requests (cache (inst t))) \<union> Q = dom (req_store (cache (inst t))) \<and> set (requests (cache (inst t))) \<inter> Q = {}
        \<and> (\<forall>q \<in> Q. \<exists>m. Waiting q m \<in> set (hnd t) \<or> (\<exists>ps. Flush q m ps \<in> set (hnd t))) \<and> card Q \<le> 1)
    \<and> (\<forall>a r. req_store (cache (inst t)) a = Some r \<longrightarrow> rq_packets r \<noteq> []
        \<and> (\<forall>p \<in> set (rq_packets r). 34 \<le> length (pk_buf p) \<and> ip_cksum_ok (pk_buf p)
             \<and> sr_get_interface (inst t) (pk_iface p) \<noteq> None))
    \<and> (\<forall>a \<in> set (requests (cache (inst t))). \<forall>b \<in> set (requests (cache (inst t))). \<forall>r s.
        req_store (cache (inst t)) a = Some r \<and> req_store (cache (inst t)) b = Some s \<and> rq_ip r = rq_ip s \<longrightarrow> a = b)"
    (is "?len \<and> ?dist \<and> (\<exists>Q. ?own Q) \<and> ?pkts \<and> ?ips")
proof -
  have ok: "threads_ok t" using thread_reach_ok [OF assms] by simp
  then have inv: "queue_inv (if_list (inst t)) (cache (inst t)) (owned (hnd t))" by (simp add: threads_ok_def)
  then have b: ?len ?dist "set (requests (cache (inst t))) \<union> owned (hnd t) = dom (req_store (cache (inst t)))"
      "set (requests (cache (inst t))) \<inter> owned (hnd t) = {}" "inj_on (req_ip (cache (inst t))) (set (requests (cache (inst t))))"
    unfolding queue_inv_def SR_ARPCACHE_SZ_def by blast+
  have ?pkts
    using queue_inv_reqD [OF inv] by (fastforce simp: req_ok_def pkt_ok_def frame_ok_def sendable_def sr_get_interface_def)
  moreover have ?ips using b(5) by (auto simp: inj_on_def req_ip_def)
  moreover have "card (owned (hnd t)) \<le> 1"
    using ok card_owned [of "hnd t"] by (auto simp: threads_ok_def plain_owned)
  moreover have "\<forall>q \<in> owned (hnd t). \<exists>m. Waiting q m \<in> set (hnd t) \<or> (\<exists>ps. Flush q m ps \<in> set (hnd t))"
    by (intro ballI owned_acts)
  ultimately show ?thesis using b by (intro conjI exI [of _ "owned (hnd t)"]) assumption+
qed

theorem threads_arp_queue_witness:
  "length (entries (cache demo_answered)) = 100 \<and> distinct (requests (cache demo_answered))"
  using threads_arp_queue [OF calls_reach [OF demo_answered_reach] demo_fresh] by (simp del: split_paired_Ex)

section \<open>Faults\<close>

text \<open>
  C3: when the routing table names only existing interfaces and has a route for every address, no action of either thread
  dereferences a null pointer or fails an assertion in any state that they reach. The faults that are left are
  accesses to a request that was freed (or to a waiting packet that is too short) while it is handled by its address;
  looking up, queueing, sending and all of the processing of an ARP reply cannot fault.
\<close>

theorem threads_faults:
  assumes "thread_reach sr0 t" "fresh_router sr0" "sr_verify_routing_table sr0 = 0"
    and "\<forall>ip. sr_findLPMentry (routing_table sr0) ip \<noteq> None"
  shows "(\<forall>packet e. frame_acts (inst t) packet \<noteq> Inl e)
    \<and> (\<forall>a as e. (hnd t = a # as \<or> tmo t = a # as) \<and> exec_act a (inst t) = Inl e \<longrightarrow>
        subject a \<noteq> None \<and> (e = UseAfterFree \<or> e = OutOfBounds))"
proof -
  from thread_reach_ok [OF assms(1,2)] have ok: "threads_ok t" "evolves sr0 (inst t)" by auto
  have r: "routed (inst t)" using routed_evolves [OF ok(2)] assms(3,4) by (simp add: routed_def)
  have "frame_acts (inst t) packet \<noteq> Inl e" for packet e
    using well_frame_acts [of "inst t" packet] r by auto
  moreover have "subject a \<noteq> None \<and> (e = UseAfterFree \<or> e = OutOfBounds)"
    if "hnd t = a # as \<or> tmo t = a # as" "exec_act a (inst t) = Inl e" for a as e
    using thread_act_faults [OF ok(1) r that] .
  ultimately show ?thesis by blast
qed

theorem threads_faults_witness: "frame_acts demo_answered demo_fwd \<noteq> Inl NullDeref"
  using threads_faults [OF calls_reach [OF demo_answered_reach] demo_fresh demo_verify demo_routed] by simp

end
