(* ===== verification/Sr_Race.thy ===== *)
theory Sr_Race
  imports Sr_Threads_Props
begin

text \<open>
  The two threads of the router inside a call of the packet handler. The handler holds the lock of the cache for each
  operation on it, but not between \<^verbatim>\<open>sr_arpcache_queuereq\<close> and \<^verbatim>\<open>sr_arpcache_handle_arpreq\<close>, which gets the request by its
  address. A round of the timeout thread in between may free it.
\<close>

text \<open>The router with the entries that a round at this time invalidates.\<close>

definition aged :: "sr_instance \<Rightarrow> sr_instance" where
  "aged sr = sr\<lparr>cache := (cache sr)\<lparr>entries := map (expire_entry (clk sr (ticks sr))) (entries (cache sr))\<rparr>\<rparr>"

lemma sweep_single:
  assumes "requests (cache sr) = [q]" "req_store (cache sr) q \<noteq> None"
  shows "sr_arpcache_sweepreqs n sr = sr_arpcache_handle_arpreq n sr q"
  using assms by (cases "sr_arpcache_handle_arpreq n sr q") (auto simp: sr_arpcache_sweepreqs_def get_req_def)

lemma queue_known:
  assumes "requests (cache sr) = [q]" "req_store (cache sr) q = Some r" "frame \<noteq> []"
  shows "sr_arpcache_queuereq (cache sr) (rq_ip r) frame iface = Inr (q, (cache sr)\<lparr>req_store := (req_store (cache sr))(q \<mapsto>
    r\<lparr>rq_packets := \<lparr>pk_buf = frame, pk_iface = strncpy sr_IFACE_NAMELEN iface\<rparr> # rq_packets r\<rparr>)\<rparr>)"
  using assms by (simp add: sr_arpcache_queuereq_def get_req_def add_packet_def)

text \<open>The calls of the schedule, one after the other.\<close>

lemma race_calls:
  assumes "sr_verify_routing_table sr = 0" "\<forall>ip. sr_findLPMentry (routing_table sr) ip \<noteq> None"
    and "requests (cache sr) = [q]" "req_store (cache sr) q = Some r" "5 \<le> rq_times_sent r"
    and "1 < clk sr (Suc (ticks sr)) - rq_sent r" "\<forall>p \<in> set (rq_packets r). source_mapped (aged sr) p"
    and "frame \<noteq> []" "source_mapped (aged sr) \<lparr>pk_buf = frame, pk_iface = strncpy sr_IFACE_NAMELEN iface\<rparr>"
  shows "\<exists>c sr2. sr_arpcache_queuereq (cache sr) (rq_ip r) frame iface = Inr (q, c)
    \<and> sr_arpcache_timeout (Suc n) (sr\<lparr>cache := c\<rparr>) = Inr sr2 \<and> req_store (cache sr2) q = None"
proof -
  define r1 where "r1 = r\<lparr>rq_packets := \<lparr>pk_buf = frame, pk_iface = strncpy sr_IFACE_NAMELEN iface\<rparr> # rq_packets r\<rparr>"
  define c where "c = (cache sr)\<lparr>req_store := (req_store (cache sr))(q \<mapsto> r1)\<rparr>"
  define srt where "srt = sr\<lparr>ticks := Suc (ticks sr), cache := c\<lparr>entries := entries (cache (aged sr))\<rparr>\<rparr>"
  have q: "sr_arpcache_queuereq (cache sr) (rq_ip r) frame iface = Inr (q, c)"
    using queue_known [OF assms(3,4,8)] by (simp add: c_def r1_def)
  have env: "sr_verify_routing_table srt = 0" "\<forall>ip. sr_findLPMentry (routing_table srt) ip \<noteq> None"
    using assms(1,2) by (auto simp: srt_def sr_verify_routing_table_def split: if_splits)
  have r1: "req_store (cache srt) q = Some r1" "rq_times_sent r1 \<ge> 5" "clk srt (ticks srt) - rq_sent r1 > 1"
    using assms(5,6) by (simp_all add: srt_def c_def r1_def)
  have "source_mapped srt = source_mapped (aged sr)"
    by (intro ext) (simp add: source_mapped_def srt_def aged_def c_def sr_arpcache_lookup_def)
  then have m: "\<forall>p \<in> set (rq_packets r1). source_mapped srt p" using assms(7,9) by (simp add: r1_def)
  obtain sr2 where sr2: "sr_arpcache_handle_arpreq (Suc n) srt q = Inr sr2" "req_store (cache sr2) q = None"
    using expired_handled [OF env r1 m] by blast
  have "sr_arpcache_timeout (Suc n) (sr\<lparr>cache := c\<rparr>) = sr_arpcache_sweepreqs (Suc n) srt"
    by (simp add: sr_arpcache_timeout_def sr_time_def srt_def aged_def c_def)
  also have "\<dots> = Inr sr2"
    using sweep_single [of srt q] r1(1) sr2(1) assms(3) by (simp add: srt_def c_def del: sr_arpcache_handle_arpreq.simps)
  finally show ?thesis using q sr2(2) by blast
qed

text \<open>
  C14: a frame that misses in the cache and is queued on a request which has been sent five times can make the handler
  use freed memory: when a round of the timeout thread runs after the frame was queued and before the handler
  looks at the request, the round reports the hosts as unreachable and frees the request, and the handler goes on with its
  address.
\<close>

theorem timeout_race:
  assumes "sr_verify_routing_table sr = 0" "\<forall>ip. sr_findLPMentry (routing_table sr) ip \<noteq> None"
    and "frame_acts sr packet = Inr [Lookup fwd frame rt]" "sr_arpcache_lookup (cache sr) (rt_gw rt) = None"
    and "requests (cache sr) = [q]" "req_store (cache sr) q = Some r" "rq_ip r = rt_gw rt" "5 \<le> rq_times_sent r"
    and "1 < clk sr (Suc (ticks sr)) - rq_sent r" "\<forall>p \<in> set (rq_packets r). source_mapped (aged sr) p"
    and "source_mapped (aged sr) \<lparr>pk_buf = frame, pk_iface = strncpy sr_IFACE_NAMELEN (rt_interface rt)\<rparr>"
  shows "\<exists>sr2. thread_step\<^sup>*\<^sup>* (idle sr) \<lparr>inst = sr2, hnd = [Handle q], tmo = []\<rparr>
    \<and> exec_act (Handle q) sr2 = Inl UseAfterFree"
proof -
  have "frame \<noteq> []" using assms(11) by (auto simp: source_mapped_def)
  then obtain c sr2 where q: "sr_arpcache_queuereq (cache sr) (rt_gw rt) frame (rt_interface rt) = Inr (q, c)"
      and t: "sr_arpcache_timeout 1 (sr\<lparr>cache := c\<rparr>) = Inr sr2" and n: "req_store (cache sr2) q = None"
    using race_calls [OF assms(1,2,5,6,8-10) _ assms(11), of 0] assms(7) by auto
  have 1: "thread_step (idle sr) \<lparr>inst = sr, hnd = [Lookup fwd frame rt], tmo = []\<rparr>"
    using thread_step.receive [of "idle sr" packet] assms(3) by simp
  have 2: "thread_step \<lparr>inst = sr, hnd = [Lookup fwd frame rt], tmo = []\<rparr> \<lparr>inst = sr, hnd = [Queue frame rt], tmo = []\<rparr>"
    using thread_step.handler [of "\<lparr>inst = sr, hnd = [Lookup fwd frame rt], tmo = []\<rparr>"] assms(4) by simp
  have 3: "thread_step \<lparr>inst = sr, hnd = [Queue frame rt], tmo = []\<rparr> \<lparr>inst = sr\<lparr>cache := c\<rparr>, hnd = [Handle q], tmo = []\<rparr>"
    using thread_step.handler [of "\<lparr>inst = sr, hnd = [Queue frame rt], tmo = []\<rparr>"] q by simp
  from 1 2 3 call_timeout [OF t, of "[Handle q]"]
  have "thread_step\<^sup>*\<^sup>* (idle sr) \<lparr>inst = sr2, hnd = [Handle q], tmo = []\<rparr>"
    by (meson converse_rtranclp_into_rtranclp)
  moreover have "exec_act (Handle q) sr2 = Inl UseAfterFree" using n by (simp add: sr_time_def get_req_def)
  ultimately show ?thesis by blast
qed

text \<open>UDP from 20.0.0.5 to 200.1.2.3, for which 192.168.2.2 was asked five times.\<close>

definition demo_udp :: bytes where
  "demo_udp = [2, 0, 0, 0, 0, 1, 4, 0, 0, 0, 0, 1, 8, 0, 69, 0, 0, 28, 0, 7, 0, 0, 64, 17, 156, 193,
     20, 0, 0, 5, 200, 1, 2, 3, 1, 2, 3, 4, 5, 6, 7, 8]"

definition demo_race :: sr_instance where
  "demo_race = demo ((demo_cache [demo_entry1])\<lparr>requests := [0], req_fresh := 1, req_store := [0 \<mapsto>
     \<lparr>rq_ip = 0x0202A8C0, rq_sent = 0, rq_times_sent = 5,
      rq_packets = [\<lparr>pk_buf = set_shost demo_udp (2, 0, 0, 0, 0, 2), pk_iface = ''eth2''\<rparr>]\<rparr>]\<rparr>)"

theorem timeout_race_witness:
  "\<exists>sr2. thread_step\<^sup>*\<^sup>* (idle demo_race) \<lparr>inst = sr2, hnd = [Handle 0], tmo = []\<rparr>
    \<and> exec_act (Handle 0) sr2 = Inl UseAfterFree"
proof -
  let ?f = "set_shost demo_udp (2, 0, 0, 0, 0, 2)"
  have r: "requests (cache demo_race) = [0]" "req_store (cache demo_race) 0 = Some \<lparr>rq_ip = 0x0202A8C0, rq_sent = 0,
      rq_times_sent = 5, rq_packets = [\<lparr>pk_buf = ?f, pk_iface = ''eth2''\<rparr>]\<rparr>" "1 < clk demo_race (Suc (ticks demo_race)) - 0"
    by (simp_all add: demo_race_def demo_def)
  have l: "length demo_udp = 42" by (simp add: demo_udp_def)
  have s: "ip_src (ld_struct 20 dec_ip demo_udp 14) = 0x05000014" by code_simp
  have k: "sr_arpcache_lookup (cache (aged demo_race)) (rt_gw demo_rt1) \<noteq> None" by code_simp
  have m: "source_mapped (aged demo_race) \<lparr>pk_buf = ?f, pk_iface = i\<rparr>" for i
    using k demo_routes(1) unfolding source_mapped_def by (simp add: aged_def demo_race_def l s)
  have a: "frame_acts demo_race demo_udp = Inr [Lookup True ?f demo_rt2]" by code_simp
  have e: "sr_arpcache_lookup (cache demo_race) (rt_gw demo_rt2) = None" "rt_gw demo_rt2 = 0x0202A8C0" by code_simp+
  have v: "sr_verify_routing_table demo_race = 0" "\<forall>ip. sr_findLPMentry (routing_table demo_race) ip \<noteq> None"
    unfolding demo_race_def by (rule demo_verify, rule demo_routed)
  show ?thesis using timeout_race [OF v a e(1) r(1,2)] r(3) e(2) m by simp
qed

end
