(* ===== verification/Stcp_Header.thy ===== *)
theory Stcp_Header
  imports Packed Sr_Utils
begin

text \<open>
  The STCP segment header (\<^verbatim>\<open>transport.h\<close>) and its checksum (\<^verbatim>\<open>tcp_sum.c\<close>). Sequence numbers stay in
  host byte order, as the transport layer leaves them.
\<close>

section \<open>The header\<close>

record tcphdr =
  th_sport :: u16
  th_dport :: u16
  th_seq :: u32
  th_ack :: u32
  th_x2 :: "4 word"
  th_off :: "4 word"
  th_flags :: u8
  th_win :: u16
  th_sum :: u16
  th_urp :: u16

definition sizeof_tcphdr :: nat where "sizeof_tcphdr = 20"

definition TH_FIN :: u8 where "TH_FIN = 0x01"
definition TH_SYN :: u8 where "TH_SYN = 0x02"
definition TH_ACK :: u8 where "TH_ACK = 0x10"

definition enc_tcp :: "tcphdr \<Rightarrow> bytes" where
  "enc_tcp h = le16 (th_sport h) @ le16 (th_dport h) @ le32 (th_seq h) @ le32 (th_ack h)
     @ [ucast (th_x2 h) OR push_bit 4 (ucast (th_off h)), th_flags h] @ le16 (th_win h)
     @ le16 (th_sum h) @ le16 (th_urp h)"

definition dec_tcp :: "bytes \<Rightarrow> tcphdr" where
  "dec_tcp b = \<lparr>th_sport = ld16 b 0, th_dport = ld16 b 2, th_seq = ld32 b 4, th_ack = ld32 b 8,
     th_x2 = ucast (b ! 12), th_off = ucast (drop_bit 4 (b ! 12)), th_flags = b ! 13,
     th_win = ld16 b 14, th_sum = ld16 b 16, th_urp = ld16 b 18\<rparr>"

text \<open>A header from \<^verbatim>\<open>calloc\<close>.\<close>

definition zero_tcphdr :: tcphdr where
  "zero_tcphdr = \<lparr>th_sport = 0, th_dport = 0, th_seq = 0, th_ack = 0, th_x2 = 0, th_off = 0,
     th_flags = 0, th_win = 0, th_sum = 0, th_urp = 0\<rparr>"

section \<open>The checksum\<close>

definition IPPROTO_TCP :: u8 where "IPPROTO_TCP = 6"

definition pseudo_header :: "u32 \<Rightarrow> u32 \<Rightarrow> u16 \<Rightarrow> bytes" where
  "pseudo_header src_addr dst_addr len =
     le32 src_addr @ le32 dst_addr @ [0, IPPROTO_TCP] @ le16 (htons len)"

text \<open>The loop over the 16-bit words in host order, with the odd last byte as a low byte.\<close>

fun sum_words :: "u32 \<Rightarrow> bytes \<Rightarrow> u32" where
  "sum_words s (a # b # data) = sum_words (s + (ucast a OR push_bit 8 (ucast b))) data"
| "sum_words s [a] = s + ucast a"
| "sum_words s [] = s"

definition mysock_tcp_checksum :: "u32 \<Rightarrow> u32 \<Rightarrow> bytes \<Rightarrow> u16 res" where
  "mysock_tcp_checksum src_addr dst_addr packet =
     rbind (guard AssertFailed (sizeof_tcphdr \<le> length packet)) (\<lambda>_.
     rbind (guard AssertFailed (src_addr > 0)) (\<lambda>_.
     rbind (guard AssertFailed (dst_addr > 0)) (\<lambda>_.
     let s0 = sum_words 0 (pseudo_header src_addr dst_addr (of_nat (length packet)));
         s1 = sum_words (sum_words s0 (take 16 packet)) (drop 18 packet);
         s2 = signed_drop_bit 16 s1 + (s1 AND 0xffff);
         s3 = s2 + signed_drop_bit 16 s2
     in Inr (ucast (NOT s3)))))"

section \<open>The header overlay is faithful\<close>

lemma length_enc_tcp [simp]: "length (enc_tcp h) = 20"
  by (simp add: enc_tcp_def)

lemma dec_enc_tcp: "dec_tcp (enc_tcp h) = h"
proof -
  have "ld16 (enc_tcp h) 0 = th_sport h" "ld16 (enc_tcp h) 2 = th_dport h"
    "ld16 (enc_tcp h) 14 = th_win h" "ld16 (enc_tcp h) 16 = th_sum h" "ld16 (enc_tcp h) 18 = th_urp h"
    by (rule ld16_of_le16, simp_all add: enc_tcp_def le16_def le32_def)+
  moreover have "ld32 (enc_tcp h) 4 = th_seq h" "ld32 (enc_tcp h) 8 = th_ack h"
    by (rule ld32_of_le32, auto simp: enc_tcp_def le16_def le32_def less_Suc_eq numeral_eq_Suc)+
  ultimately show ?thesis
    by (simp add: dec_tcp_def) (simp add: enc_tcp_def le16_def le32_def ucast_nibbles del: drop_bit_or)
qed

lemma enc_dec_tcp: "length b = 20 \<Longrightarrow> enc_tcp (dec_tcp b) = b"
  using list_eq_nths [of b]
  by (simp add: dec_tcp_def enc_tcp_def le16_def le32_def ucast_ld16 ucast_ld32 nibbles_ucast)

interpretation tcphdr: packed_struct 20 enc_tcp dec_tcp "\<lambda>_. True"
  by unfold_locales (simp_all add: dec_enc_tcp enc_dec_tcp)

section \<open>The checksum is the one of RFC 1071\<close>

fun le_words :: "bytes \<Rightarrow> nat list" where
  "le_words (a # b # data) = (unat a + 256 * unat b) # le_words data"
| "le_words [a] = [unat a]"
| "le_words [] = []"

lemma unat_le16: "unat (ucast (a :: u8) OR push_bit 8 (ucast (b :: u8)) :: u32) = unat a + 256 * unat b"
  using unat_be16 [of b a] by (simp add: or.commute mult.commute)

lemma sum_le_words_le: "sum_list (le_words data) \<le> 65535 * ((length data + 1) div 2)"
proof (induction data rule: le_words.induct)
  case (1 a b data)
  then show ?case using unat_u8_less [of a] unat_u8_less [of b] by simp
next
  case (2 a)
  then show ?case using unat_u8_less [of a] by simp
qed simp

lemma unat_sum_words:
  "unat s + sum_list (le_words data) < 2 ^ 32 \<Longrightarrow> unat (sum_words s data) = unat s + sum_list (le_words data)"
proof (induction s data rule: sum_words.induct)
  case (1 s a b data)
  have "unat (s + (ucast a OR push_bit 8 (ucast b))) = unat s + (unat a + 256 * unat b)"
    using 1(2) by (simp add: unat_word_ariths unat_le16)
  with 1 show ?case by (simp add: unat_le16)
next
  case (2 s a)
  then show ?case using unat_le16 [of a 0] by (simp add: unat_word_ariths)
qed simp

lemma unat_signed_drop_bit:
  assumes "unat (w :: u32) < 2 ^ 31"
  shows "unat (signed_drop_bit 16 w) = unat w div 65536"
proof -
  have "take_bit 31 w = w"
    using assms by (metis take_bit_nat_eq_self_iff unsigned_take_bit_eq word_unat_eq_iff)
  then have "\<not> bit w 31"
    by (metis bit_take_bit_iff less_irrefl)
  then have "signed_drop_bit 16 w = drop_bit 16 w"
    by (intro bit_word_eqI) (auto simp: bit_simps dest: bit_imp_le_length)
  then show ?thesis
    by (simp only: unat_drop_bit_eq) (simp add: drop_bit_eq_div)
qed

lemma unat_and_ffff: "unat ((w :: u32) AND 0xffff) = unat w mod 65536"
proof -
  have m: "(0xffff :: u32) = mask 16"
    by (simp add: mask_eq_exp_minus_1)
  show ?thesis
    unfolding m take_bit_eq_mask [symmetric]
    by (simp only: unsigned_take_bit_eq) (simp add: take_bit_eq_mod)
qed

lemma two_folds:
  assumes "0 < unat (s :: u32)" "unat s < 2 ^ 31"
  defines "s2 \<equiv> signed_drop_bit 16 s + (s AND 0xffff)"
  shows "unat (s2 + signed_drop_bit 16 s2) mod 65536 = ones_fold (unat s)"
proof -
  define t where "t = unat s div 65536 + unat s mod 65536"
  have t: "t \<le> 98302" "0 < t"
    using assms(1,2) by (auto simp: t_def)
  have s2: "unat s2 = t"
    using t unfolding s2_def t_def
    by (simp add: unat_word_ariths unat_signed_drop_bit [OF assms(2)] unat_and_ffff)
  have "unat (s2 + signed_drop_bit 16 s2) = t + t div 65536"
    using t s2 by (simp add: unat_word_ariths unat_signed_drop_bit)
  moreover have "ones_fold (unat s) = ones_fold t"
    using ones_fold_step [of "unat s"] by (cases "65535 < unat s") (simp_all add: t_def)
  moreover have "(t + t div 65536) mod 65536 = ones_fold t"
  proof (cases "t < 65536")
    case True
    with t show ?thesis by (simp add: ones_fold_def)
  next
    case False
    with t have "t div 65536 = 1" "(t - 1) mod 65535 = t - 1 - 65535"
      using le_mod_geq [of 65535 "t - 1"] by auto
    with t False show ?thesis by (simp add: ones_fold_def mod_if [of "Suc t"])
  qed
  ultimately show ?thesis by simp
qed

lemma unat_ucast_not: "unat (ucast (NOT (w :: u32)) :: u16) = 65535 - unat w mod 65536"
proof -
  have "(ucast (NOT w) :: u16) = NOT (ucast w)"
    by (rule bit_word_eqI) (auto simp: bit_simps)
  moreover have "unat (ucast w :: u16) = unat w mod 65536"
    by (simp add: unsigned_ucast_eq take_bit_eq_mod)
  ultimately show ?thesis by (simp add: unat_not_u16)
qed

lemma le_words_append: "even (length xs) \<Longrightarrow> le_words (xs @ ys) = le_words xs @ le_words ys"
  by (induction xs rule: le_words.induct) auto

lemma le_words_le16 [simp]: "le_words (le16 c) = [unat c]"
proof -
  have g: "unat (ucast (a :: u8) OR push_bit 8 (ucast (b :: u8)) :: u16) = unat a + 256 * unat b" for a b
  proof -
    have t: "take_bit k (unat x) = unat x" if "8 \<le> k" for k and x :: u8
    proof (rule take_bit_nat_eq_self)
      have "unat x < 2 ^ 8" using unat_u8_less [of x] by simp
      also have "\<dots> \<le> 2 ^ k" using that by (intro power_increasing) auto
      finally show "unat x < 2 ^ k" .
    qed
    have "unat (ucast a OR push_bit 8 (ucast b) :: u16) = unat (ucast a OR push_bit 8 (ucast b) :: u32)"
      by (simp add: unsigned_or_eq unsigned_push_bit_eq unsigned_ucast_eq take_bit_push_bit t)
    then show ?thesis by (simp add: unat_le16)
  qed
  show ?thesis using g [of "ucast c" "ucast (drop_bit 8 c)"] by (simp add: le16_def)
qed

lemma st_split: "18 \<le> length packet \<Longrightarrow> st16 packet 16 c = take 16 packet @ le16 c @ drop 18 packet"
  by (rule nth_equalityI) (auto simp: nth_st_bytes nth_append)

definition tcp_sum_total :: "u32 \<Rightarrow> u32 \<Rightarrow> bytes \<Rightarrow> nat" where
  "tcp_sum_total src dst packet =
     sum_list (le_words (pseudo_header src dst (of_nat (length packet)))) + sum_list (le_words packet)"

text \<open>
  C24: the STCP checksum of a segment of at most 1500 bytes between two nonzero addresses
  is defined, and a segment that carries it in its checksum field has an all-ones one's-complement
  sum over pseudo header and segment, as RFC 793 and RFC 1071 require.
\<close>

theorem tcp_checksum_rfc1071:
  assumes "20 \<le> length packet" "length packet \<le> 1500" "src \<noteq> 0" "dst \<noteq> 0"
  shows "\<exists>c. mysock_tcp_checksum src dst packet = Inr c
    \<and> ones_fold (tcp_sum_total src dst (st16 packet 16 c)) = 65535"
proof -
  let ?ph = "pseudo_header src dst (of_nat (length packet))"
  define x where "x = sum_list (le_words ?ph) + (sum_list (le_words (take 16 packet)) + sum_list (le_words (drop 18 packet)))"
  have lp: "length ?ph = 12" by (simp add: pseudo_header_def)
  have "(length (drop 18 packet) + 1) div 2 \<le> 741" using assms(2) by simp
  then have "sum_list (le_words ?ph) \<le> 65535 * 6" "sum_list (le_words (take 16 packet)) \<le> 65535 * 8"
    "sum_list (le_words (drop 18 packet)) \<le> 65535 * 741"
    using sum_le_words_le [of ?ph] sum_le_words_le [of "take 16 packet"] sum_le_words_le [of "drop 18 packet"]
      lp assms(1) by (auto intro: le_trans)
  then have small: "x < 2 ^ 31" by (simp add: x_def)
  have pos: "0 < x"
    by (simp add: x_def pseudo_header_def IPPROTO_TCP_def le32_def)
  define s1 where "s1 = sum_words (sum_words (sum_words 0 ?ph) (take 16 packet)) (drop 18 packet)"
  have s1: "unat s1 = x"
    using small by (simp add: s1_def x_def unat_sum_words)
  define c :: u16 where "c = ucast (NOT (signed_drop_bit 16 s1 + (s1 AND 0xffff)
    + signed_drop_bit 16 (signed_drop_bit 16 s1 + (s1 AND 0xffff))))"
  have c: "mysock_tcp_checksum src dst packet = Inr c"
    using assms by (simp add: mysock_tcp_checksum_def sizeof_tcphdr_def Let_def c_def s1_def word_neq_0_conv)
  have uc: "unat c = 65535 - ones_fold x"
    using two_folds [of s1] pos small s1 by (simp add: c_def unat_ucast_not)
  obtain q where "x = ones_fold x + 65535 * q" using ones_fold_decomp by blast
  then have "x + unat c = 65535 * (q + 1)"
    using uc ones_fold_le [of x] by simp
  moreover have "tcp_sum_total src dst (st16 packet 16 c) = x + unat c"
    using assms(1) by (simp add: tcp_sum_total_def st_split le_words_append x_def)
  ultimately show ?thesis
    using c by (simp add: ones_fold_eq_65535)
qed

theorem tcp_checksum_rfc1071_witness:
  "\<exists>c. mysock_tcp_checksum 0x0100007F 0x0200007F (replicate 21 7) = Inr c
    \<and> ones_fold (tcp_sum_total 0x0100007F 0x0200007F (st16 (replicate 21 7) 16 c)) = 65535"
  using tcp_checksum_rfc1071 [of "replicate 21 7" "0x0100007F" "0x0200007F"] by simp

end
