(* ===== verification/Mysock.thy ===== *)
theory Mysock
  imports Stcp_Header
begin

text \<open>
  The mysocket layer below the transport: connection contexts (\<^verbatim>\<open>mysock_impl.h\<close>), their packet queues
  (\<^verbatim>\<open>mysock.c\<close>), the network helper with its simulated unreliability (\<^verbatim>\<open>network.c\<close>) and the interface
  of the transport layer (\<^verbatim>\<open>stcp_api.c\<close>). A thread that waits on a condition variable is the outcome
  \<open>Block\<close>: the call has had no effect and is retried when the state has changed.
\<close>

section \<open>Outcomes\<close>

datatype 'a run = Ret 'a | Block | Crash fault

fun run_bind :: "'a run \<Rightarrow> ('a \<Rightarrow> 'b run) \<Rightarrow> 'b run" where
  "run_bind (Ret x) f = f x"
| "run_bind Block f = Block"
| "run_bind (Crash e) f = Crash e"

fun lift_res :: "'a res \<Rightarrow> 'a run" where
  "lift_res (Inl e) = Crash e"
| "lift_res (Inr x) = Ret x"

definition assert_run :: "bool \<Rightarrow> unit run" where
  "assert_run b = (if b then Ret () else Crash AssertFailed)"

lemma assert_run_simps [simp]: "assert_run True = Ret ()" "assert_run False = Crash AssertFailed"
  by (simp_all add: assert_run_def)

lemma run_bind_eq_Ret_iff: "run_bind r f = Ret y \<longleftrightarrow> (\<exists>x. r = Ret x \<and> f x = Ret y)"
  by (cases r) auto

lemma run_bind_Ret [simp]: "run_bind r Ret = r"
  by (cases r) auto

lemma assert_run_eq_Ret_iff [simp]: "assert_run b = Ret u \<longleftrightarrow> b"
  by (simp add: assert_run_def)

section \<open>Contexts\<close>

definition MAX_IP_PAYLOAD_LEN :: nat where "MAX_IP_PAYLOAD_LEN = 1500"

text \<open>
  An IPv4 socket address. The port the operating system has bound the socket to and the address of
  the interface that reaches a peer are what \<^verbatim>\<open>getsockname\<close> and \<^verbatim>\<open>_network_get_interface_ip\<close> return;
  \<open>net_out\<close> are the packets handed to \<^verbatim>\<open>_network_send_packet\<close>.
\<close>

record sockaddr_in =
  sin_port :: u16
  sin_addr :: u32

record network_context =
  is_reliable :: bool
  local_addr :: sockaddr_in
  peer_addr :: sockaddr_in
  peer_addr_len :: nat
  peer_addr_valid :: bool
  random_seed :: u32
  copied :: bool
  copy_buffer :: bytes
  net_port :: u16
  interface_ip :: "u32 \<Rightarrow> u32"
  net_out :: "bytes list"

type_synonym packet_queue = "bytes list"

record mysock_context =
  is_active :: bool
  stcp_state :: nat
  network_state :: network_context
  bound :: bool
  listening :: bool
  my_sd :: int
  listen_sd :: int
  blocking :: bool
  stcp_errno :: int
  transport_thread_started :: bool
  close_requested :: bool
  eof :: bool
  network_recv_queue :: packet_queue
  app_send_queue :: packet_queue
  app_recv_queue :: packet_queue

section \<open>Packet queues\<close>

text \<open>A queue is the list of the buffers from head to tail; a buffer of length 0 marks end of file.\<close>

definition mysock_enqueue_buffer :: "packet_queue \<Rightarrow> bytes \<Rightarrow> packet_queue" where
  "mysock_enqueue_buffer pq packet = (if pq = [] then [packet] else pq @ [packet])"

text \<open>
  The result is the returned length, the bytes copied to \<^verbatim>\<open>dst\<close> and the new queue. The scratch buffer
  \<^verbatim>\<open>malloc(node->data_len - max_len)\<close> is used only when the subtraction does not wrap around.
\<close>

fun mysock_dequeue_buffer :: "packet_queue \<Rightarrow> nat \<Rightarrow> bool \<Rightarrow> (nat \<times> bytes \<times> packet_queue) run" where
  "mysock_dequeue_buffer [] max_len remove_partial = Block"
| "mysock_dequeue_buffer (node # rest) max_len remove_partial =
     (if length node > max_len \<and> remove_partial
      then Ret (max_len, take max_len node, drop max_len node # rest)
      else Ret (length node, take (min max_len (length node)) node, rest))"

definition mysock_free_queue :: "packet_queue \<Rightarrow> bool \<times> packet_queue" where
  "mysock_free_queue pq = (pq \<noteq> [], [])"

section \<open>The network helper\<close>

definition network_send_packet :: "network_context \<Rightarrow> bytes \<Rightarrow> network_context" where
  "network_send_packet ctx buf = ctx\<lparr>net_out := net_out ctx @ [buf]\<rparr>"

text \<open>\<open>rand_r\<close> gives a value and the new seed.\<close>

definition network_send :: "(u32 \<Rightarrow> u32 \<times> u32) \<Rightarrow> network_context \<Rightarrow> bytes \<Rightarrow> network_context run" where
  "network_send rand_r ctx buf =
     (if \<not> is_reliable ctx then
        case rand_r (random_seed ctx) of (r, seed) \<Rightarrow>
          let ctx1 = ctx\<lparr>random_seed := seed\<rparr>; k = r AND 0x1f
          in if k = 0 then Ret ctx1
             else if k = 1 then Ret (network_send_packet (network_send_packet ctx1 buf) buf)
             else if k = 2 then
               run_bind (assert_run (length buf \<le> MAX_IP_PAYLOAD_LEN)) (\<lambda>_.
                 Ret (ctx1\<lparr>copy_buffer := buf, copied := True\<rparr>))
             else if k = 3 then
               Ret (if copied ctx1 then network_send_packet ctx1 (copy_buffer ctx1)
                    else network_send_packet ctx1 buf)
             else Ret (network_send_packet ctx1 buf)
      else Ret (network_send_packet ctx buf))"

definition network_get_local_addr :: "network_context \<Rightarrow> u32 res" where
  "network_get_local_addr ctx =
     rbind (guard AssertFailed (peer_addr_valid ctx \<and> peer_addr_len ctx > 0)) (\<lambda>_.
       Inr (interface_ip ctx (sin_addr (peer_addr ctx))))"

definition network_recv :: "mysock_context \<Rightarrow> nat \<Rightarrow> (nat \<times> bytes \<times> mysock_context) run" where
  "network_recv ctx max_len =
     run_bind (mysock_dequeue_buffer (network_recv_queue ctx) max_len False) (\<lambda>(len, dst, q).
       Ret (len, dst, ctx\<lparr>network_recv_queue := q\<rparr>))"

section \<open>Segment checksums\<close>

definition mysock_set_checksum :: "network_context \<Rightarrow> bytes \<Rightarrow> bytes res" where
  "mysock_set_checksum net packet =
     rbind (guard AssertFailed (sizeof_tcphdr \<le> length packet)) (\<lambda>_.
     rbind (network_get_local_addr net) (\<lambda>src.
     rbind (mysock_tcp_checksum src (sin_addr (peer_addr net)) packet) (\<lambda>c.
     let h = ld_struct 20 dec_tcp packet 0
     in Inr (st_bytes packet 0 (enc_tcp (h\<lparr>th_sum := c\<rparr>))))))"

definition mysock_verify_checksum :: "network_context \<Rightarrow> bytes \<Rightarrow> bool res" where
  "mysock_verify_checksum net packet =
     rbind (guard AssertFailed (sizeof_tcphdr \<le> length packet)) (\<lambda>_.
     rbind (network_get_local_addr net) (\<lambda>dst.
     rbind (mysock_tcp_checksum (sin_addr (peer_addr net)) dst packet) (\<lambda>my_sum.
     Inr (my_sum = th_sum (ld_struct 20 dec_tcp packet 0)))))"

section \<open>The interface of the transport layer\<close>

definition stcp_network_send ::
  "(u32 \<Rightarrow> u32 \<times> u32) \<Rightarrow> mysock_context \<Rightarrow> bytes \<Rightarrow> mysock_context run" where
  "stcp_network_send rand_r ctx src =
     run_bind (assert_run (length src \<le> MAX_IP_PAYLOAD_LEN)) (\<lambda>_.
     run_bind (assert_run (sizeof_tcphdr \<le> length src)) (\<lambda>_.
     let net = network_state ctx; h = ld_struct 20 dec_tcp src 0
     in run_bind (assert_run (sin_port (peer_addr net) > 0)) (\<lambda>_.
        let packet = st_bytes src 0 (enc_tcp (h\<lparr>th_sport := net_port net,
              th_dport := sin_port (peer_addr net), th_sum := 0, th_urp := 0\<rparr>))
        in run_bind (lift_res (mysock_set_checksum net packet)) (\<lambda>packet'.
           run_bind (network_send rand_r net packet') (\<lambda>net'.
           Ret (ctx\<lparr>network_state := net'\<rparr>))))))"

text \<open>
  The checksum is verified over the returned length of the packet, from a buffer of \<open>max_len\<close> bytes;
  a longer packet reads past the buffer.
\<close>

definition stcp_network_recv :: "mysock_context \<Rightarrow> nat \<Rightarrow> (nat \<times> bytes \<times> mysock_context) run" where
  "stcp_network_recv ctx max_len =
     run_bind (network_recv ctx max_len) (\<lambda>(len, dst, ctx1).
       if len = 0 then Ret (len, dst, ctx1)
       else if len > max_len then Crash OutOfBounds
       else run_bind (lift_res (mysock_verify_checksum (network_state ctx1) dst)) (\<lambda>ok.
            run_bind (assert_run ok) (\<lambda>_. Ret (len, dst, ctx1))))"

definition stcp_app_recv :: "mysock_context \<Rightarrow> nat \<Rightarrow> (nat \<times> bytes \<times> mysock_context) run" where
  "stcp_app_recv ctx max_len =
     run_bind (mysock_dequeue_buffer (app_recv_queue ctx) max_len True) (\<lambda>(len, dst, q).
       Ret (len, dst, ctx\<lparr>app_recv_queue := q\<rparr>))"

definition stcp_app_send :: "mysock_context \<Rightarrow> bytes \<Rightarrow> mysock_context" where
  "stcp_app_send ctx src =
     (if length src > 0 then ctx\<lparr>app_send_queue := mysock_enqueue_buffer (app_send_queue ctx) src\<rparr>
      else ctx)"

definition stcp_fin_received :: "mysock_context \<Rightarrow> mysock_context" where
  "stcp_fin_received ctx = ctx\<lparr>app_send_queue := mysock_enqueue_buffer (app_send_queue ctx) []\<rparr>"

record stcp_event =
  ev_app_data :: bool
  ev_network_data :: bool
  ev_app_close :: bool

text \<open>\<^verbatim>\<open>stcp_wait_for_event(sd, ANY_EVENT, NULL)\<close>\<close>

definition stcp_wait_for_event :: "mysock_context \<Rightarrow> (stcp_event \<times> mysock_context) run" where
  "stcp_wait_for_event ctx =
     (let app = (app_recv_queue ctx \<noteq> []);
          net = (network_recv_queue ctx \<noteq> []);
          cls = (close_requested ctx \<and> app_recv_queue ctx = []);
          ctx1 = (if cls then ctx\<lparr>close_requested := False\<rparr> else ctx)
      in if app \<or> net \<or> cls
         then Ret (\<lparr>ev_app_data = app, ev_network_data = net, ev_app_close = cls\<rparr>, ctx1)
         else Block)"

section \<open>Reading and writing by the application\<close>

datatype errno = EBADF | EINVAL | EADDRNOTAVAIL | EISCONN | EFAULT | ENOTCONN | EMFILE | Errno int

text \<open>\<^verbatim>\<open>mywrite\<close> and \<^verbatim>\<open>myread\<close> once the descriptor has been looked up; \<open>Inl\<close> is the return value -1 with its
  \<^verbatim>\<open>errno\<close>.\<close>

definition mywrite_ctx :: "mysock_context \<Rightarrow> bytes \<Rightarrow> ((errno + nat) \<times> mysock_context) run" where
  "mywrite_ctx ctx buf =
     (if listening ctx then Ret (Inl EINVAL, ctx)
      else run_bind (assert_run (\<not> close_requested ctx)) (\<lambda>_.
        Ret (Inr (length buf), ctx\<lparr>app_recv_queue := mysock_enqueue_buffer (app_recv_queue ctx) buf\<rparr>)))"

definition myread_ctx :: "mysock_context \<Rightarrow> nat \<Rightarrow> ((errno + nat \<times> bytes) \<times> mysock_context) run" where
  "myread_ctx ctx buf_len =
     (if listening ctx then Ret (Inl EINVAL, ctx)
      else run_bind (assert_run (\<not> close_requested ctx)) (\<lambda>_.
        if eof ctx then Ret (Inr (0, []), ctx)
        else run_bind (mysock_dequeue_buffer (app_send_queue ctx) buf_len True) (\<lambda>(len, dst, q).
          let ctx1 = ctx\<lparr>app_send_queue := q\<rparr>
          in Ret (Inr (len, dst), if len = 0 then ctx1\<lparr>eof := True\<rparr> else ctx1))))"

section \<open>Queues carry byte streams\<close>

datatype stream_op = Put bytes | Get nat

locale byte_stream =
  fixes contents :: "'q \<Rightarrow> bytes"
    and put :: "'q \<Rightarrow> bytes \<Rightarrow> 'q"
    and get :: "'q \<Rightarrow> nat \<Rightarrow> (bytes \<times> 'q) option"
  assumes contents_put: "contents (put q p) = contents q @ p"
    and contents_get: "get q n = Some (d, q') \<Longrightarrow> contents q = d @ contents q'"
    and get_length: "get q n = Some (d, q') \<Longrightarrow> length d \<le> n"
    and get_progress: "contents q \<noteq> [] \<Longrightarrow> get q n \<noteq> None"
begin

fun exec :: "'q \<Rightarrow> stream_op list \<Rightarrow> bytes \<times> bytes \<times> 'q" where
  "exec q [] = ([], [], q)"
| "exec q (Put p # ops) = (case exec (put q p) ops of (i, outp, q') \<Rightarrow> (p @ i, outp, q'))"
| "exec q (Get n # ops) =
     (case get q n of
        None \<Rightarrow> exec q ops
      | Some (d, q1) \<Rightarrow> (case exec q1 ops of (i, outp, q') \<Rightarrow> (i, d @ outp, q')))"

lemma exec_fifo: "exec q ops = (i, outp, q') \<Longrightarrow> contents q @ i = outp @ contents q'"
proof (induction q ops arbitrary: i outp q' rule: exec.induct)
  case (2 q p ops)
  then show ?case by (auto simp: contents_put split: prod.splits)
next
  case (3 q n ops)
  then show ?case by (auto dest: contents_get split: option.splits prod.splits)
qed simp

end

definition queue_get :: "packet_queue \<Rightarrow> nat \<Rightarrow> (bytes \<times> packet_queue) option" where
  "queue_get q n = (case mysock_dequeue_buffer q n True of Ret (_, d, q') \<Rightarrow> Some (d, q') | _ \<Rightarrow> None)"

lemma mysock_enqueue_buffer_eq [simp]: "mysock_enqueue_buffer pq packet = pq @ [packet]"
  by (simp add: mysock_enqueue_buffer_def)

interpretation pq: byte_stream concat mysock_enqueue_buffer queue_get
proof unfold_locales
  fix q d n and q' :: packet_queue
  assume "queue_get q n = Some (d, q')"
  then obtain x xs where "q = x # xs" by (cases q) (auto simp: queue_get_def)
  with \<open>queue_get q n = Some (d, q')\<close> show "concat q = d @ concat q'" "length d \<le> n"
    by (auto simp: queue_get_def split: if_splits)
next
  fix q :: packet_queue and n
  assume "concat q \<noteq> []"
  then show "queue_get q n \<noteq> None" by (cases q) (auto simp: queue_get_def)
qed simp

end
