(* ===== verification/Network_Io_Tcp.thy ===== *)
theory Network_Io_Tcp
  imports Mysock Sock_Io
begin

text \<open>
  \<^verbatim>\<open>network_io_tcp.c\<close>: STCP packets over a TCP connection. Each packet is preceded by its length in two
  bytes; reads and writes of the operating system may transfer fewer bytes than asked for. The functions of
  the operating system are parameters, \<open>reader_ok\<close> and \<open>writer_ok\<close> state what POSIX documents for them.
\<close>


section \<open>Reading and writing a number of bytes\<close>

text \<open>\<open>wr s buf\<close> is \<^verbatim>\<open>write(sd, buf, length buf)\<close>: its return value and the new state of the socket.\<close>

type_synonym 's writer = "'s \<Rightarrow> bytes \<Rightarrow> int \<times> 's"

text \<open>
  \<^verbatim>\<open>_tcp_io\<close> with \<^verbatim>\<open>read\<close> and with \<^verbatim>\<open>write\<close>. An interrupted call is an error here, and so is end of file
  (the value 0). The bytes already read are in \<open>acc\<close>.
\<close>

function tcp_io_read :: "'s reader \<Rightarrow> 's \<Rightarrow> nat \<Rightarrow> bytes \<Rightarrow> (int \<times> bytes \<times> 's) res" where
  "tcp_io_read rd s count acc =
     (if length acc < count then
        case rd s (count - length acc) of
          (Got d, s1) \<Rightarrow>
            if d = [] then Inr (0, acc, s1)
            else if length d > count - length acc then Inl AssertFailed
            else tcp_io_read rd s1 count (acc @ d)
        | (_, s1) \<Rightarrow> Inr (-1, acc, s1)
      else Inr (int count, acc, s))"
  by pat_completeness auto
termination
  by (relation "measure (\<lambda>(rd, s, count, acc). count - length acc)") (auto simp: length_greater_0_conv [symmetric] simp del: length_greater_0_conv)

function tcp_io_write :: "'s writer \<Rightarrow> 's \<Rightarrow> bytes \<Rightarrow> nat \<Rightarrow> (int \<times> 's) res" where
  "tcp_io_write wr s buf count =
     (if buf \<noteq> [] then
        case wr s buf of (rc, s1) \<Rightarrow>
          if rc \<le> 0 then Inr (rc, s1)
          else if rc > int (length buf) then Inl AssertFailed
          else tcp_io_write wr s1 (drop (nat rc) buf) count
      else Inr (int count, s))"
  by pat_completeness auto
termination
  by (relation "measure (\<lambda>(wr, s, buf, count). length buf)") auto

declare tcp_io_read.simps [simp del] tcp_io_write.simps [simp del]

section \<open>Packets over a TCP connection\<close>

text \<open>
  The state that \<^verbatim>\<open>impl_data\<close> points to; the mutex and the back pointer to the mysocket are not modelled.
\<close>

record network_context_socket_tcp =
  recv_thread_started :: bool
  socket :: int
  new_socket :: int
  connected :: bool

text \<open>\<open>conn\<close> is the return value of \<^verbatim>\<open>connect\<close>.\<close>

definition tcp_connect ::
  "int \<Rightarrow> network_context \<Rightarrow> network_context_socket_tcp \<Rightarrow> (int \<times> network_context_socket_tcp) res" where
  "tcp_connect conn ctx tcp =
     (if connected tcp then Inr (0, tcp)
      else rbind (guard AssertFailed (peer_addr_valid ctx \<and> sin_port (peer_addr ctx) > 0)) (\<lambda>_.
        if conn < 0 then Inr (-1, tcp) else Inr (0, tcp\<lparr>connected := True\<rparr>)))"

definition tcp_send_packet ::
  "'s writer \<Rightarrow> int \<Rightarrow> network_context \<Rightarrow> network_context_socket_tcp \<Rightarrow> 's \<Rightarrow> bytes
    \<Rightarrow> (int \<times> network_context_socket_tcp \<times> 's) res" where
  "tcp_send_packet wr conn ctx tcp s src =
     rbind (guard AssertFailed (peer_addr_len ctx > 0 \<and> socket tcp \<ge> 0)) (\<lambda>_.
     rbind (tcp_connect conn ctx tcp) (\<lambda>(rc, tcp1).
       if rc < 0 then Inr (-1, tcp1, s)
       else
         let packet_len = le16 (htons (of_nat (length src)))
         in rbind (tcp_io_write wr s packet_len 2) (\<lambda>(rc, s1).
            if rc < 0 then Inr (-1, tcp1, s1)
            else rbind (tcp_io_write wr s1 src (length src)) (\<lambda>(rc, s2).
              if rc < 0 then Inr (-1, tcp1, s2) else Inr (int (length src), tcp1, s2)))))"

text \<open>
  Reading one packet into a buffer of \<open>max_len\<close> bytes from the socket chosen by the caller; a longer packet
  is cut off and its remainder discarded.
\<close>

definition tcp_recv_frame :: "'s reader \<Rightarrow> 's \<Rightarrow> nat \<Rightarrow> (int \<times> bytes \<times> 's) res" where
  "tcp_recv_frame rd s max_len =
     rbind (tcp_io_read rd s 2 []) (\<lambda>(rc, lenb, s1).
       if rc \<le> 0 then Inr (rc, [], s1)
       else
         let packet_len = unat (ntohs (ld16 lenb 0))
         in rbind (tcp_io_read rd s1 (min packet_len max_len) []) (\<lambda>(rc, dst, s2).
            if rc \<le> 0 then Inr (rc, dst, s2)
            else if packet_len > max_len then
              rbind (tcp_io_read rd s2 (packet_len - max_len) []) (\<lambda>(_, _, s3). Inr (int packet_len, dst, s3))
            else Inr (int packet_len, dst, s2)))"

text \<open>
  \<open>acc\<close> is what \<^verbatim>\<open>accept\<close> gives on a listening socket: the new descriptor and the address of the peer.
\<close>

definition tcp_recv_packet ::
  "'s reader \<Rightarrow> int \<Rightarrow> int \<times> sockaddr_in \<Rightarrow> mysock_context \<Rightarrow> network_context_socket_tcp \<Rightarrow> 's \<Rightarrow> nat
    \<Rightarrow> (int \<times> bytes \<times> mysock_context \<times> network_context_socket_tcp \<times> 's) res" where
  "tcp_recv_packet rd conn acc ctx tcp s max_len =
     rbind (guard AssertFailed (socket tcp \<ge> 0)) (\<lambda>_.
     rbind (if is_active ctx then tcp_connect conn (network_state ctx) tcp else Inr (0, tcp)) (\<lambda>(rc, tcp1).
       if rc < 0 then Inr (-1, [], ctx, tcp1, s)
       else if listening ctx then
         case acc of (tmp_sd, peer) \<Rightarrow>
           let ctx1 = ctx\<lparr>network_state := (network_state ctx)\<lparr>peer_addr_len := 16\<rparr>\<rparr>
           in if tmp_sd < 0 then Inr (tmp_sd, [], ctx1, tcp1, s)
              else rbind (guard AssertFailed (new_socket tcp1 = -1)) (\<lambda>_.
                rbind (tcp_recv_frame rd s max_len) (\<lambda>(rc, dst, s1).
                  Inr (rc, dst, ctx1\<lparr>network_state := (network_state ctx1)\<lparr>peer_addr := peer\<rparr>\<rparr>,
                    tcp1\<lparr>new_socket := tmp_sd\<rparr>, s1)))
       else rbind (tcp_recv_frame rd s max_len) (\<lambda>(rc, dst, s1). Inr (rc, dst, ctx, tcp1, s1))))"

section \<open>Framing\<close>

definition writer_ok :: "'s writer \<Rightarrow> ('s \<Rightarrow> bytes) \<Rightarrow> bool" where
  "writer_ok wr sent \<longleftrightarrow>
     (\<forall>s buf. buf \<noteq> [] \<longrightarrow>
        (case wr s buf of (rc, s') \<Rightarrow> 0 < rc \<and> rc \<le> int (length buf) \<and> sent s' = sent s @ take (nat rc) buf))"

definition frame_packet :: "bytes \<Rightarrow> bytes" where
  "frame_packet p = le16 (htons (of_nat (length p))) @ p"

lemma tcp_io_write_ok:
  assumes "writer_ok wr sent"
  shows "\<exists>s'. tcp_io_write wr s buf count = Inr (int count, s') \<and> sent s' = sent s @ buf"
proof (induction "length buf" arbitrary: buf s rule: less_induct)
  case less
  show ?case
  proof (cases "buf = []")
    case True
    then show ?thesis by (simp add: tcp_io_write.simps)
  next
    case False
    obtain rc s1 where w: "wr s buf = (rc, s1)" by (cases "wr s buf")
    have "case wr s buf of (rc, s') \<Rightarrow> 0 < rc \<and> rc \<le> int (length buf) \<and> sent s' = sent s @ take (nat rc) buf"
      using assms False unfolding writer_ok_def by simp
    with w have ok: "0 < rc" "rc \<le> int (length buf)" "sent s1 = sent s @ take (nat rc) buf" by simp_all
    then have "length (drop (nat rc) buf) < length buf" using False by auto
    from less [OF this, of s1] obtain s' where
      "tcp_io_write wr s1 (drop (nat rc) buf) count = Inr (int count, s')" "sent s' = sent s1 @ drop (nat rc) buf"
      by blast
    then show ?thesis using w ok False by (subst tcp_io_write.simps) simp
  qed
qed

lemma tcp_send_packet_ok:
  assumes "writer_ok wr sent" "connected tcp" "0 \<le> socket tcp" "0 < peer_addr_len ctx"
  shows "\<exists>s'. tcp_send_packet wr conn ctx tcp s p = Inr (int (length p), tcp, s') \<and> sent s' = sent s @ frame_packet p"
proof -
  let ?l = "le16 (htons (of_nat (length p)))"
  obtain s1 where "tcp_io_write wr s ?l 2 = Inr (int 2, s1)" "sent s1 = sent s @ ?l"
    using tcp_io_write_ok [OF assms(1)] by blast
  moreover obtain s2 where "tcp_io_write wr s1 p (length p) = Inr (int (length p), s2)" "sent s2 = sent s1 @ p"
    using tcp_io_write_ok [OF assms(1)] by blast
  ultimately show ?thesis
    using assms(2-4) by (simp add: tcp_send_packet_def tcp_connect_def guard_def frame_packet_def Let_def)
qed

lemma tcp_io_read_ok:
  assumes ok: "reader_ok rd contents intr" "steady rd"
  shows "length acc + k = n \<Longrightarrow> k \<le> length (contents s) \<Longrightarrow>
    \<exists>s'. tcp_io_read rd s n acc = Inr (int n, acc @ take k (contents s), s') \<and> contents s' = drop k (contents s)"
proof (induction k arbitrary: s acc rule: less_induct)
  case (less k)
  show ?case
  proof (cases "k = 0")
    case True
    with less.prems show ?thesis by (simp add: tcp_io_read.simps)
  next
    case False
    with less.prems have ne: "0 < k" "contents s \<noteq> []" and k: "n - length acc = k" by auto
    obtain d s1 where d: "rd s k = (Got d, s1)" "d \<noteq> []" "length d \<le> k" "contents s = d @ contents s1"
      by (rule steady_got [OF ok ne])
    then have "k - length d < k" using ne by (cases d) auto
    moreover have "length (acc @ d) + (k - length d) = n" "k - length d \<le> length (contents s1)"
      using d less.prems by auto
    ultimately obtain s' where "tcp_io_read rd s1 n (acc @ d) = Inr (int n, (acc @ d) @ take (k - length d) (contents s1), s')"
      "contents s' = drop (k - length d) (contents s1)" using less.IH by blast
    then show ?thesis
      using d k ne by (auto simp: tcp_io_read.simps [of rd s])
  qed
qed

lemma tcp_recv_frame_ok:
  assumes ok: "reader_ok rd contents intr" "steady rd" and c: "contents s = frame_packet p @ rest"
    and p: "p \<noteq> []" "length p \<le> max_len" "length p < 2 ^ 16"
  shows "\<exists>s'. tcp_recv_frame rd s max_len = Inr (int (length p), p, s') \<and> contents s' = rest"
proof -
  let ?l = "le16 (htons (of_nat (length p)))"
  obtain s1 where s1: "tcp_io_read rd s 2 [] = Inr (2, ?l, s1)" "contents s1 = p @ rest"
    using tcp_io_read_ok [OF ok, of "[]" 2 2 s] c by (auto simp: frame_packet_def)
  have "ld16 ?l 0 = htons (of_nat (length p))" by (rule ld16_of_le16) simp_all
  then have len: "unat (ntohs (ld16 ?l 0)) = length p"
    using p(3) by (simp add: unsigned_of_nat take_bit_eq_mod)
  obtain s2 where "tcp_io_read rd s1 (length p) [] = Inr (int (length p), p, s2)" "contents s2 = rest"
    using tcp_io_read_ok [OF ok, of "[]" "length p" "length p" s1] s1(2) by auto
  then show ?thesis
    using s1(1) len p by (simp add: tcp_recv_frame_def Let_def)
qed

end
