(* ===== verification/Mysock_Hash.thy ===== *)
theory Mysock_Hash
  imports Prelude
begin

text \<open>
  \<^verbatim>\<open>mysock_hash.h\<close>: the chained hash table that the macros \<^verbatim>\<open>HASH_TABLE_DECLARE\<close> generate. The table is
  the list of its chains, a chain the list of its entries; a failed \<^verbatim>\<open>assert\<close> is the fault
  \<open>AssertFailed\<close>. The locale \<open>fallible_map\<close> is what the callers rely on, and the table implements it.
\<close>

section \<open>The operations\<close>

type_synonym ('k, 'd) hash_table = "('k \<times> 'd) list list"

definition HASH_DEFAULT_HASH_FN :: "int \<Rightarrow> nat \<Rightarrow> nat" where
  "HASH_DEFAULT_HASH_FN key sz = nat (key mod int sz)"

definition hash_get_entry ::
  "('k \<Rightarrow> nat \<Rightarrow> nat) \<Rightarrow> ('k, 'd) hash_table \<Rightarrow> 'k \<Rightarrow> ('k \<times> 'd) option res" where
  "hash_get_entry hashfn tbl key =
     (let ndx = hashfn key (length tbl)
      in rbind (guard AssertFailed (ndx < length tbl)) (\<lambda>_. Inr (find (\<lambda>e. fst e = key) (tbl ! ndx))))"

definition hash_insert ::
  "('k \<Rightarrow> nat \<Rightarrow> nat) \<Rightarrow> ('k, 'd) hash_table \<Rightarrow> 'k \<Rightarrow> 'd \<Rightarrow> ('k, 'd) hash_table res" where
  "hash_insert hashfn tbl key dat =
     (let ndx = hashfn key (length tbl)
      in rbind (guard AssertFailed (ndx < length tbl)) (\<lambda>_.
         let tbl' = tbl[ndx := (key, dat) # tbl ! ndx]
         in rbind (hash_get_entry hashfn tbl' key) (\<lambda>e.
            rbind (guard AssertFailed (e = Some (key, dat))) (\<lambda>_. Inr tbl'))))"

definition hash_lookup :: "('k \<Rightarrow> nat \<Rightarrow> nat) \<Rightarrow> ('k, 'd) hash_table \<Rightarrow> 'k \<Rightarrow> 'd res" where
  "hash_lookup hashfn tbl key =
     rbind (hash_get_entry hashfn tbl key) (\<lambda>e.
       case e of None \<Rightarrow> Inl AssertFailed | Some (_, d) \<Rightarrow> Inr d)"

definition hash_lookup_ptr :: "('k \<Rightarrow> nat \<Rightarrow> nat) \<Rightarrow> ('k, 'd) hash_table \<Rightarrow> 'k \<Rightarrow> 'd option res" where
  "hash_lookup_ptr hashfn tbl key =
     rbind (hash_get_entry hashfn tbl key) (\<lambda>e. Inr (map_option snd e))"

definition hash_entry_exists :: "('k \<Rightarrow> nat \<Rightarrow> nat) \<Rightarrow> ('k, 'd) hash_table \<Rightarrow> 'k \<Rightarrow> bool res" where
  "hash_entry_exists hashfn tbl key =
     rbind (hash_get_entry hashfn tbl key) (\<lambda>e. Inr (e \<noteq> None))"

fun set_first :: "'k \<Rightarrow> 'd \<Rightarrow> ('k \<times> 'd) list \<Rightarrow> ('k \<times> 'd) list" where
  "set_first key dat [] = []"
| "set_first key dat (e # es) = (if fst e = key then (key, dat) # es else e # set_first key dat es)"

definition hash_set_entry ::
  "('k \<Rightarrow> nat \<Rightarrow> nat) \<Rightarrow> ('k, 'd) hash_table \<Rightarrow> 'k \<Rightarrow> 'd \<Rightarrow> ('k, 'd) hash_table res" where
  "hash_set_entry hashfn tbl key dat =
     rbind (hash_get_entry hashfn tbl key) (\<lambda>e.
       if e \<noteq> None then (let ndx = hashfn key (length tbl) in Inr (tbl[ndx := set_first key dat (tbl ! ndx)]))
       else hash_insert hashfn tbl key dat)"

fun remove_first :: "'k \<Rightarrow> ('k \<times> 'd) list \<Rightarrow> ('k \<times> 'd) list" where
  "remove_first key [] = []"
| "remove_first key (e # es) = (if fst e = key then es else e # remove_first key es)"

definition hash_delete ::
  "('k \<Rightarrow> nat \<Rightarrow> nat) \<Rightarrow> ('k, 'd) hash_table \<Rightarrow> 'k \<Rightarrow> ('k, 'd) hash_table res" where
  "hash_delete hashfn tbl key =
     (let ndx = hashfn key (length tbl)
      in rbind (guard AssertFailed (ndx < length tbl)) (\<lambda>_.
         let tbl' = tbl[ndx := remove_first key (tbl ! ndx)]
         in rbind (hash_get_entry hashfn tbl' key) (\<lambda>e.
            rbind (guard AssertFailed (e = None)) (\<lambda>_. Inr tbl'))))"

section \<open>The interface\<close>

datatype ('k, 'v) map_op = Insert 'k 'v | Set 'k 'v | Delete 'k

text \<open>What the callers do, on a map: an insertion needs a new key.\<close>

fun map_step :: "('k \<rightharpoonup> 'v) \<Rightarrow> ('k, 'v) map_op \<Rightarrow> ('k \<rightharpoonup> 'v)" where
  "map_step m (Insert k v) = m(k \<mapsto> v)"
| "map_step m (Set k v) = m(k \<mapsto> v)"
| "map_step m (Delete k) = m(k := None)"

fun allowed :: "('k \<rightharpoonup> 'v) \<Rightarrow> ('k, 'v) map_op list \<Rightarrow> bool" where
  "allowed m [] = True"
| "allowed m (opn # ops) =
     ((case opn of Insert k v \<Rightarrow> m k = None | _ \<Rightarrow> True) \<and> allowed (map_step m opn) ops)"

locale fallible_map =
  fixes empty :: 'm
    and lookup :: "'m \<Rightarrow> 'k \<Rightarrow> 'v option res"
    and ins :: "'m \<Rightarrow> 'k \<Rightarrow> 'v \<Rightarrow> 'm res"
    and upd :: "'m \<Rightarrow> 'k \<Rightarrow> 'v \<Rightarrow> 'm res"
    and del :: "'m \<Rightarrow> 'k \<Rightarrow> 'm res"
    and invar :: "'m \<Rightarrow> bool"
    and absm :: "'m \<Rightarrow> 'k \<rightharpoonup> 'v"
  assumes inv_empty: "invar empty"
    and abs_empty: "absm empty = Map.empty"
    and lookup_abs: "invar m \<Longrightarrow> lookup m k = Inr (absm m k)"
    and insert_new: "invar m \<Longrightarrow> absm m k = None \<Longrightarrow> \<exists>m'. ins m k v = Inr m' \<and> invar m' \<and> absm m' = (absm m)(k \<mapsto> v)"
    and set_any: "invar m \<Longrightarrow> \<exists>m'. upd m k v = Inr m' \<and> invar m' \<and> absm m' = (absm m)(k \<mapsto> v)"
    and delete_any: "invar m \<Longrightarrow> \<exists>m'. del m k = Inr m' \<and> invar m' \<and> absm m' = (absm m)(k := None)"
begin

fun exec :: "'m \<Rightarrow> ('k, 'v) map_op list \<Rightarrow> 'm res" where
  "exec m [] = Inr m"
| "exec m (Insert k v # ops) = rbind (ins m k v) (\<lambda>m'. exec m' ops)"
| "exec m (Set k v # ops) = rbind (upd m k v) (\<lambda>m'. exec m' ops)"
| "exec m (Delete k # ops) = rbind (del m k) (\<lambda>m'. exec m' ops)"

lemma exec_refines:
  "invar m \<Longrightarrow> allowed (absm m) ops \<Longrightarrow>
   \<exists>m'. exec m ops = Inr m' \<and> invar m' \<and> absm m' = foldl map_step (absm m) ops"
proof (induction m ops rule: exec.induct)
  case (2 m k v ops)
  then obtain m' where m': "ins m k v = Inr m'" "invar m'" "absm m' = (absm m)(k \<mapsto> v)"
    using insert_new [of m k v] by auto
  have "allowed (absm m') ops" using 2(3) unfolding m'(3) by simp
  from 2(1) [OF m'(2) this] have "\<exists>r. exec m' ops = Inr r \<and> invar r \<and> absm r = foldl map_step (absm m') ops" .
  then show ?case by (simp only: exec.simps m'(1) rbind_Inr foldl.simps map_step.simps m'(3) [symmetric])
next
  case (3 m k v ops)
  then obtain m' where m': "upd m k v = Inr m'" "invar m'" "absm m' = (absm m)(k \<mapsto> v)"
    using set_any [of m k v] by auto
  have "allowed (absm m') ops" using 3(3) unfolding m'(3) by simp
  from 3(1) [OF m'(2) this] have "\<exists>r. exec m' ops = Inr r \<and> invar r \<and> absm r = foldl map_step (absm m') ops" .
  then show ?case by (simp only: exec.simps m'(1) rbind_Inr foldl.simps map_step.simps m'(3) [symmetric])
next
  case (4 m k ops)
  then obtain m' where m': "del m k = Inr m'" "invar m'" "absm m' = (absm m)(k := None)"
    using delete_any [of m k] by auto
  have "allowed (absm m') ops" using 4(3) unfolding m'(3) by simp
  from 4(1) [OF m'(2) this] have "\<exists>r. exec m' ops = Inr r \<and> invar r \<and> absm r = foldl map_step (absm m') ops" .
  then show ?case by (simp only: exec.simps m'(1) rbind_Inr foldl.simps map_step.simps m'(3) [symmetric])
qed simp

lemma exec_lookup:
  "allowed Map.empty ops \<Longrightarrow>
   \<exists>m'. exec empty ops = Inr m' \<and> (\<forall>k. lookup m' k = Inr (foldl map_step Map.empty ops k))"
  using exec_refines [of empty ops] inv_empty abs_empty lookup_abs by fastforce

end

section \<open>The table implements the interface\<close>

definition hash_abs :: "(int, 'd) hash_table \<Rightarrow> int \<Rightarrow> 'd option" where
  "hash_abs tbl key = map_of (tbl ! HASH_DEFAULT_HASH_FN key (length tbl)) key"

definition hash_wf :: "nat \<Rightarrow> (int, 'd) hash_table \<Rightarrow> bool" where
  "hash_wf n tbl \<longleftrightarrow> 0 < n \<and> length tbl = n \<and> (\<forall>es \<in> set tbl. distinct (map fst es))"

lemma hash_fn_less: "0 < n \<Longrightarrow> HASH_DEFAULT_HASH_FN key n < n"
  by (simp add: HASH_DEFAULT_HASH_FN_def nat_less_iff)

lemma find_map_of: "map_option snd (find (\<lambda>e. fst e = key) es) = map_of es key"
  by (induction es) auto

lemma find_fst_None: "find (\<lambda>e. fst e = key) es = None \<longleftrightarrow> key \<notin> fst ` set es"
  by (induction es) auto

lemma distinct_set_first: "distinct (map fst es) \<Longrightarrow> distinct (map fst (set_first key dat es))"
proof -
  have "fst ` set (set_first key dat es) = fst ` set es" for es
    by (induction es) auto
  then show "distinct (map fst es) \<Longrightarrow> distinct (map fst (set_first key dat es))"
    by (induction es) (auto simp: image_iff)
qed

lemma map_of_set_first: "key \<in> fst ` set es \<Longrightarrow> map_of (set_first key dat es) = (map_of es)(key \<mapsto> dat)"
proof (induction es)
  case (Cons e es)
  then show ?case by (cases "fst e = key") (auto simp: fun_upd_twist)
qed simp

lemma remove_first_keys:
  "distinct (map fst es) \<Longrightarrow> distinct (map fst (remove_first key es)) \<and> fst ` set (remove_first key es) = fst ` set es - {key}"
  by (induction es) (auto simp: image_iff)

lemma map_of_remove_first:
  "distinct (map fst es) \<Longrightarrow> map_of (remove_first key es) = (map_of es)(key := None)"
proof (induction es)
  case (Cons e es)
  then show ?case
    by (cases "fst e = key") (auto simp: fun_eq_iff map_of_eq_None_iff)
qed (simp add: fun_eq_iff)

lemma hash_abs_update:
  assumes "hash_wf n tbl" "ndx = HASH_DEFAULT_HASH_FN key n" "map_of es = (map_of (tbl ! ndx))(key := v)"
  shows "hash_abs (tbl[ndx := es]) = (hash_abs tbl)(key := v)"
  using assms hash_fn_less [of n] by (auto simp: hash_abs_def hash_wf_def fun_eq_iff nth_list_update)

lemma hash_wf_update:
  "hash_wf n tbl \<Longrightarrow> distinct (map fst es) \<Longrightarrow> hash_wf n (tbl[ndx := es])"
  by (auto simp: hash_wf_def dest: set_update_subset_insert [THEN subsetD])

lemma hash_chain_distinct: "hash_wf n tbl \<Longrightarrow> distinct (map fst (tbl ! HASH_DEFAULT_HASH_FN key n))"
  using hash_fn_less [of n key] by (auto simp: hash_wf_def)

lemma hash_get_entry_wf:
  "hash_wf n tbl \<Longrightarrow> hash_get_entry HASH_DEFAULT_HASH_FN tbl key =
     Inr (find (\<lambda>e. fst e = key) (tbl ! HASH_DEFAULT_HASH_FN key n))"
  using hash_fn_less [of n key] by (simp add: hash_get_entry_def hash_wf_def Let_def)

lemma hash_insert_ok:
  assumes wf: "hash_wf n tbl" and new: "hash_abs tbl key = None"
  shows "\<exists>t. hash_insert HASH_DEFAULT_HASH_FN tbl key dat = Inr t \<and> hash_wf n t \<and> hash_abs t = (hash_abs tbl)(key \<mapsto> dat)"
proof -
  let ?n = "HASH_DEFAULT_HASH_FN key n"
  let ?t = "tbl[?n := (key, dat) # tbl ! ?n]"
  have n: "?n < length tbl" "length tbl = n" using wf hash_fn_less [of n key] by (auto simp: hash_wf_def)
  have "hash_wf n ?t"
    using wf new hash_chain_distinct [OF wf, of key] n
    by (intro hash_wf_update) (auto simp: hash_abs_def map_of_eq_None_iff)
  moreover have "hash_abs ?t = (hash_abs tbl)(key \<mapsto> dat)"
    by (rule hash_abs_update [OF wf refl]) simp
  moreover have "hash_insert HASH_DEFAULT_HASH_FN tbl key dat = Inr ?t"
    using n hash_get_entry_wf [OF \<open>hash_wf n ?t\<close>, of key] by (simp add: hash_insert_def Let_def)
  ultimately show ?thesis by blast
qed

lemma hash_delete_ok:
  assumes wf: "hash_wf n tbl"
  shows "\<exists>t. hash_delete HASH_DEFAULT_HASH_FN tbl key = Inr t \<and> hash_wf n t \<and> hash_abs t = (hash_abs tbl)(key := None)"
proof -
  let ?n = "HASH_DEFAULT_HASH_FN key n"
  let ?t = "tbl[?n := remove_first key (tbl ! ?n)]"
  have n: "?n < length tbl" "length tbl = n" using wf hash_fn_less [of n key] by (auto simp: hash_wf_def)
  note rf = remove_first_keys [OF hash_chain_distinct [OF wf, of key], of key]
  have t: "hash_wf n ?t" using hash_wf_update [OF wf] rf by simp
  moreover have "hash_abs ?t = (hash_abs tbl)(key := None)"
    by (rule hash_abs_update [OF wf refl]) (rule map_of_remove_first [OF hash_chain_distinct [OF wf]])
  moreover have "find (\<lambda>e. fst e = key) (remove_first key (tbl ! ?n)) = None"
    using rf by (simp add: find_fst_None)
  then have "hash_delete HASH_DEFAULT_HASH_FN tbl key = Inr ?t"
    using n hash_get_entry_wf [OF t, of key] by (simp add: hash_delete_def Let_def)
  ultimately show ?thesis by blast
qed

lemma hash_set_ok:
  assumes wf: "hash_wf n tbl"
  shows "\<exists>t. hash_set_entry HASH_DEFAULT_HASH_FN tbl key dat = Inr t \<and> hash_wf n t \<and> hash_abs t = (hash_abs tbl)(key \<mapsto> dat)"
proof (cases "hash_abs tbl key")
  case None
  with wf have "find (\<lambda>e. fst e = key) (tbl ! HASH_DEFAULT_HASH_FN key n) = None"
    by (simp add: hash_abs_def find_map_of [symmetric] hash_wf_def)
  with hash_insert_ok [OF wf None, of dat] hash_get_entry_wf [OF wf, of key] show ?thesis
    by (simp add: hash_set_entry_def)
next
  case (Some d)
  let ?n = "HASH_DEFAULT_HASH_FN key n"
  have n: "length tbl = n" using wf by (simp add: hash_wf_def)
  from Some have k: "key \<in> fst ` set (tbl ! ?n)"
    unfolding hash_abs_def n by (metis map_of_eq_None_iff option.distinct(1))
  then have "find (\<lambda>e. fst e = key) (tbl ! ?n) \<noteq> None" by (simp add: find_fst_None)
  then have "hash_set_entry HASH_DEFAULT_HASH_FN tbl key dat = Inr (tbl[?n := set_first key dat (tbl ! ?n)])"
    using hash_get_entry_wf [OF wf, of key] n by (simp add: hash_set_entry_def Let_def)
  moreover have "hash_wf n (tbl[?n := set_first key dat (tbl ! ?n)])"
    by (rule hash_wf_update [OF wf distinct_set_first [OF hash_chain_distinct [OF wf]]])
  moreover have "hash_abs (tbl[?n := set_first key dat (tbl ! ?n)]) = (hash_abs tbl)(key \<mapsto> dat)"
    by (rule hash_abs_update [OF wf refl map_of_set_first [OF k]])
  ultimately show ?thesis by blast
qed

definition MAX_NUM_CONNECTIONS :: nat where "MAX_NUM_CONNECTIONS = 64"

interpretation hash: fallible_map
  "replicate MAX_NUM_CONNECTIONS []" "hash_lookup_ptr HASH_DEFAULT_HASH_FN" "hash_insert HASH_DEFAULT_HASH_FN"
  "hash_set_entry HASH_DEFAULT_HASH_FN" "hash_delete HASH_DEFAULT_HASH_FN" "hash_wf MAX_NUM_CONNECTIONS" hash_abs
proof unfold_locales
  show "hash_abs (replicate MAX_NUM_CONNECTIONS []) = Map.empty"
    using hash_fn_less [of 64] by (auto simp: hash_abs_def MAX_NUM_CONNECTIONS_def)
  show "hash_lookup_ptr HASH_DEFAULT_HASH_FN m k = Inr (hash_abs m k)"
    if "hash_wf MAX_NUM_CONNECTIONS m" for m :: "(int, 'a) hash_table" and k
    using that hash_get_entry_wf [OF that, of k]
    by (simp add: hash_lookup_ptr_def find_map_of hash_abs_def hash_wf_def)
qed (simp add: hash_wf_def MAX_NUM_CONNECTIONS_def, (rule hash_insert_ok hash_set_ok hash_delete_ok; assumption)+)

section \<open>Properties\<close>

fun hash_exec :: "(int, 'd) hash_table \<Rightarrow> (int, 'd) map_op list \<Rightarrow> (int, 'd) hash_table res" where
  "hash_exec tbl [] = Inr tbl"
| "hash_exec tbl (Insert k v # ops) =
     rbind (hash_insert HASH_DEFAULT_HASH_FN tbl k v) (\<lambda>t. hash_exec t ops)"
| "hash_exec tbl (Set k v # ops) =
     rbind (hash_set_entry HASH_DEFAULT_HASH_FN tbl k v) (\<lambda>t. hash_exec t ops)"
| "hash_exec tbl (Delete k # ops) =
     rbind (hash_delete HASH_DEFAULT_HASH_FN tbl k) (\<lambda>t. hash_exec t ops)"

lemma hash_exec_eq: "hash.exec tbl ops = hash_exec tbl ops"
  by (induction tbl ops rule: hash_exec.induct) (simp_all add: rbind_def split: sum.split)



end
