(* ===== verification/Mysock_Table.thy ===== *)
theory Mysock_Table
  imports Network_Io_Tcp Mysock_Hash
begin

text \<open>
  The mysocket descriptor table of \<^verbatim>\<open>mysock.c\<close> and the state all mysockets of a process share. A pointer to a
  context is the descriptor under which the table holds it; the state \<^verbatim>\<open>impl_data\<close> points to is kept beside the
  context. The answers of the operating system are in \<open>os_calls\<close>.
\<close>

section \<open>State\<close>

record mysock_entry =
  ctx_of :: mysock_context
  tcp_of :: network_context_socket_tcp

text \<open>A request in the backlog of a listening socket. The address of a free slot is all zero bytes: \<open>None\<close>.\<close>

record connect_request =
  cr_peer_addr :: "sockaddr_in option"
  cr_peer_addr_len :: nat
  cr_sd :: int

text \<open>
  A completed connection points to a slot of \<^verbatim>\<open>connection_queue\<close>. The pointer is the index of the slot and the
  number of the allocation it points into: \<^verbatim>\<open>realloc\<close> of the queue makes older pointers invalid.
\<close>

record listen_queue =
  local_port :: u16
  max_len :: u32
  cur_len :: u32
  connection_queue :: "connect_request list"
  allocation :: nat
  completed_queue :: "(nat \<times> nat) list"

record mysock_sys =
  global_ctx :: "mysock_entry option list"
  listen_table :: "(int, listen_queue) hash_table"
  n_sockets :: nat
  closed_fds :: "int list"

record os_calls =
  os_socket :: "nat \<Rightarrow> int"
  os_pipe :: "nat \<Rightarrow> int"
  os_bind :: "int \<Rightarrow> sockaddr_in \<Rightarrow> int \<times> u16"
  os_listen :: "int \<Rightarrow> int \<Rightarrow> int"
  os_interface_ip :: "u32 \<Rightarrow> u32"

definition zero_sockaddr :: sockaddr_in where
  "zero_sockaddr = \<lparr>sin_port = 0, sin_addr = 0\<rparr>"

section \<open>Creating and destroying contexts\<close>

text \<open>
  The shared part of the network layers, \<^verbatim>\<open>network_io_socket.c\<close>: the socket and the pipe that ends the receiving
  thread are created; the descriptors of the pipe are not kept in the model.
\<close>

definition network_alloc_context_socket :: "os_calls \<Rightarrow> mysock_sys \<Rightarrow> (network_context_socket_tcp \<times> mysock_sys) run" where
  "network_alloc_context_socket env sys =
     (let k = n_sockets sys; sd = os_socket env k
      in run_bind (assert_run (sd \<ge> 0)) (\<lambda>_.
         run_bind (assert_run (os_pipe env k \<ge> 0)) (\<lambda>_.
           Ret (\<lparr>recv_thread_started = False, socket = sd, new_socket = 0, connected = False\<rparr>,
                sys\<lparr>n_sockets := Suc k\<rparr>))))"

definition network_init_socket :: "os_calls \<Rightarrow> mysock_sys \<Rightarrow> (network_context \<times> network_context_socket_tcp \<times> mysock_sys) run" where
  "network_init_socket env sys =
     run_bind (network_alloc_context_socket env sys) (\<lambda>(tcp, sys1).
       Ret (\<lparr>is_reliable = False, local_addr = zero_sockaddr, peer_addr = zero_sockaddr, peer_addr_len = 0,
              peer_addr_valid = False, random_seed = 0x632a, copied = False, copy_buffer = [], net_port = 0,
              interface_ip = os_interface_ip env, net_out = []\<rparr>, tcp, sys1))"

definition network_init :: "os_calls \<Rightarrow> mysock_sys \<Rightarrow> (network_context \<times> network_context_socket_tcp \<times> mysock_sys) run" where
  "network_init env sys =
     run_bind (network_init_socket env sys) (\<lambda>(net, tcp, sys1).
       Ret (net, tcp\<lparr>new_socket := -1, connected := False\<rparr>, sys1))"

lemmas network_init_defs = network_init_def network_init_socket_def network_alloc_context_socket_def

definition mysock_allocate_context :: "os_calls \<Rightarrow> mysock_sys \<Rightarrow> (mysock_entry \<times> mysock_sys) run" where
  "mysock_allocate_context env sys =
     run_bind (network_init env sys) (\<lambda>(net, tcp, sys1).
       Ret (\<lparr>ctx_of = \<lparr>is_active = False, stcp_state = 0, network_state = net, bound = False, listening = False, my_sd = 0,
               listen_sd = -1, blocking = True, stcp_errno = 0, transport_thread_started = False,
               close_requested = False, eof = False, network_recv_queue = [], app_send_queue = [],
               app_recv_queue = []\<rparr>, tcp_of = tcp\<rparr>, sys1))"

definition network_destroy_context_socket :: "network_context_socket_tcp \<Rightarrow> mysock_sys \<Rightarrow> mysock_sys" where
  "network_destroy_context_socket ctx sys =
     sys\<lparr>closed_fds := closed_fds sys @ (if socket ctx \<ge> 0 then [socket ctx] else [])\<rparr>"

definition network_close :: "network_context_socket_tcp \<Rightarrow> mysock_sys \<Rightarrow> mysock_sys" where
  "network_close tcp sys =
     network_destroy_context_socket tcp
       (sys\<lparr>closed_fds := closed_fds sys @ (if new_socket tcp \<noteq> -1 then [new_socket tcp] else [])\<rparr>)"

lemmas network_close_defs = network_close_def network_destroy_context_socket_def

text \<open>\<open>in_table\<close>: the entry of the table at \<^verbatim>\<open>my_sd\<close> is the freed context.\<close>

definition mysock_free_context :: "mysock_sys \<Rightarrow> mysock_entry \<Rightarrow> bool \<Rightarrow> mysock_sys" where
  "mysock_free_context sys e in_table =
     (let sys1 = network_close (tcp_of e) sys
      in if in_table then sys1\<lparr>global_ctx := (global_ctx sys1)[nat (my_sd (ctx_of e)) := None]\<rparr> else sys1)"

fun first_free :: "'a option list \<Rightarrow> nat option" where
  "first_free [] = None"
| "first_free (None # xs) = Some 0"
| "first_free (Some x # xs) = map_option Suc (first_free xs)"

definition mysock_new_mysocket :: "os_calls \<Rightarrow> mysock_sys \<Rightarrow> bool \<Rightarrow> ((errno + int) \<times> mysock_sys) run" where
  "mysock_new_mysocket env sys reliable =
     run_bind (mysock_allocate_context env sys) (\<lambda>(e, sys1).
       let e1 = e\<lparr>ctx_of := (ctx_of e)\<lparr>network_state := (network_state (ctx_of e))\<lparr>is_reliable := reliable\<rparr>\<rparr>\<rparr>
       in case first_free (global_ctx sys1) of
            Some k \<Rightarrow>
              Ret (Inr (int k), sys1\<lparr>global_ctx := (global_ctx sys1)[k := Some (e1\<lparr>ctx_of := (ctx_of e1)\<lparr>my_sd := int k\<rparr>\<rparr>)]\<rparr>)
          | None \<Rightarrow> Ret (Inl EMFILE, mysock_free_context sys1 e1 False))"

section \<open>Looking up and updating contexts\<close>

definition verify_mysocket_descriptor :: "mysock_sys \<Rightarrow> int \<Rightarrow> unit run" where
  "verify_mysocket_descriptor sys sd =
     run_bind (assert_run (0 \<le> sd \<and> sd < int (length (global_ctx sys)))) (\<lambda>_.
       case global_ctx sys ! nat sd of
         None \<Rightarrow> Crash AssertFailed
       | Some e \<Rightarrow> assert_run (my_sd (ctx_of e) = sd))"

definition mysock_get_context :: "mysock_sys \<Rightarrow> int \<Rightarrow> mysock_entry option run" where
  "mysock_get_context sys sd =
     run_bind (verify_mysocket_descriptor sys sd) (\<lambda>_.
       Ret (if 0 \<le> sd \<and> sd < int (length (global_ctx sys)) then global_ctx sys ! nat sd else None))"

text \<open>The context behind a descriptor, dereferenced.\<close>

definition with_context :: "mysock_sys \<Rightarrow> int \<Rightarrow> (mysock_entry \<Rightarrow> 'a run) \<Rightarrow> 'a run" where
  "with_context sys sd f =
     run_bind (mysock_get_context sys sd) (\<lambda>e. run_bind (lift_res (deref e)) f)"

definition put_entry :: "mysock_sys \<Rightarrow> int \<Rightarrow> mysock_entry \<Rightarrow> mysock_sys" where
  "put_entry sys sd e = sys\<lparr>global_ctx := (global_ctx sys)[nat sd := Some e]\<rparr>"

definition put_ctx :: "mysock_sys \<Rightarrow> int \<Rightarrow> mysock_entry \<Rightarrow> (mysock_context \<Rightarrow> mysock_context) \<Rightarrow> mysock_sys" where
  "put_ctx sys sd e f = put_entry sys sd (e\<lparr>ctx_of := f (ctx_of e)\<rparr>)"

text \<open>
  The transport layer may keep one pointer with a mysocket, here an address that is 0 for a null pointer. Neither
  function checks more than the descriptor.
\<close>

definition stcp_set_context :: "mysock_sys \<Rightarrow> int \<Rightarrow> nat \<Rightarrow> mysock_sys run" where
  "stcp_set_context sys sd st = with_context sys sd (\<lambda>e. Ret (put_ctx sys sd e (\<lambda>c. c\<lparr>stcp_state := st\<rparr>)))"

definition stcp_get_context :: "mysock_sys \<Rightarrow> int \<Rightarrow> nat run" where
  "stcp_get_context sys sd = with_context sys sd (\<lambda>e. Ret (stcp_state (ctx_of e)))"

section \<open>Starting connections\<close>

text \<open>Both threads are started; what they do is modelled by the transport layer and by the receive loop.\<close>

definition network_start_recv_thread :: "mysock_entry \<Rightarrow> mysock_entry" where
  "network_start_recv_thread e = e\<lparr>tcp_of := (tcp_of e)\<lparr>recv_thread_started := True\<rparr>\<rparr>"

text \<open>The thread has ended before the call returns.\<close>

definition network_stop_recv_thread :: "mysock_entry \<Rightarrow> mysock_entry" where
  "network_stop_recv_thread e = e\<lparr>tcp_of := (tcp_of e)\<lparr>recv_thread_started := False\<rparr>\<rparr>"

definition mysock_transport_init :: "mysock_sys \<Rightarrow> int \<Rightarrow> bool \<Rightarrow> mysock_sys run" where
  "mysock_transport_init sys sd active =
     with_context sys sd (\<lambda>e.
       run_bind (assert_run (\<not> listening (ctx_of e))) (\<lambda>_.
         let e1 = network_start_recv_thread (e\<lparr>ctx_of := (ctx_of e)\<lparr>is_active := active\<rparr>\<rparr>)
         in Ret (put_ctx sys sd e1 (\<lambda>c. c\<lparr>transport_thread_started := True\<rparr>))))"

definition mysock_wait_for_connection :: "mysock_sys \<Rightarrow> int \<Rightarrow> (errno + int) run" where
  "mysock_wait_for_connection sys sd =
     with_context sys sd (\<lambda>e.
       if blocking (ctx_of e) then Block
       else Ret (if stcp_errno (ctx_of e) \<noteq> 0 then Inl (Errno (stcp_errno (ctx_of e))) else Inr 0))"

definition network_get_port :: "mysock_entry \<Rightarrow> u16 run" where
  "network_get_port e =
     run_bind (assert_run (socket (tcp_of e) \<ge> 0)) (\<lambda>_. Ret (net_port (network_state (ctx_of e))))"

definition network_bind :: "os_calls \<Rightarrow> mysock_entry \<Rightarrow> sockaddr_in \<Rightarrow> (int \<times> mysock_entry) run" where
  "network_bind env e addr =
     run_bind (assert_run (socket (tcp_of e) \<ge> 0)) (\<lambda>_.
       case os_bind env (socket (tcp_of e)) addr of (rc, port) \<Rightarrow>
         Ret (rc, if rc < 0 then e
              else e\<lparr>ctx_of := (ctx_of e)\<lparr>network_state := (network_state (ctx_of e))\<lparr>net_port := port\<rparr>\<rparr>\<rparr>))"

definition mysock_bind_ephemeral :: "os_calls \<Rightarrow> mysock_sys \<Rightarrow> int \<Rightarrow> mysock_sys run" where
  "mysock_bind_ephemeral env sys sd =
     with_context sys sd (\<lambda>e.
       run_bind (assert_run (\<not> bound (ctx_of e))) (\<lambda>_.
       run_bind (network_bind env e zero_sockaddr) (\<lambda>(rc, e1).
       run_bind (assert_run (rc \<ge> 0)) (\<lambda>_.
         Ret (put_ctx sys sd e1 (\<lambda>c. c\<lparr>bound := True\<rparr>))))))"

section \<open>Lemmas\<close>

definition table_ok :: "mysock_sys \<Rightarrow> bool" where
  "table_ok sys \<longleftrightarrow> length (global_ctx sys) = MAX_NUM_CONNECTIONS
     \<and> (\<forall>k < MAX_NUM_CONNECTIONS. \<forall>e. global_ctx sys ! k = Some e \<longrightarrow> my_sd (ctx_of e) = int k)"

definition live :: "mysock_sys \<Rightarrow> int \<Rightarrow> mysock_entry \<Rightarrow> bool" where
  "live sys sd e \<longleftrightarrow> 0 \<le> sd \<and> sd < int (length (global_ctx sys)) \<and> global_ctx sys ! nat sd = Some e"

lemma table_okD: "table_ok sys \<Longrightarrow> live sys sd e \<Longrightarrow> my_sd (ctx_of e) = sd"
  by (auto simp: table_ok_def live_def dest: spec [of _ "nat sd"])

lemma table_ok_length: "table_ok sys \<Longrightarrow> length (global_ctx sys) = MAX_NUM_CONNECTIONS"
  by (simp add: table_ok_def)

lemma with_context_live [simp]: "live sys sd e \<Longrightarrow> my_sd (ctx_of e) = sd \<Longrightarrow> with_context sys sd f = f e"
  by (simp add: with_context_def mysock_get_context_def verify_mysocket_descriptor_def live_def)

lemma with_context_dead:
  assumes "\<And>e. \<not> live sys sd e"
  shows "with_context sys sd f = Crash AssertFailed"
proof (cases "0 \<le> sd \<and> sd < int (length (global_ctx sys))")
  case True
  with assms have "global_ctx sys ! nat sd = None" by (auto simp: live_def)
  with True show ?thesis by (simp add: with_context_def mysock_get_context_def verify_mysocket_descriptor_def)
next
  case False
  then have "assert_run (0 \<le> sd \<and> sd < int (length (global_ctx sys))) = Crash AssertFailed"
    by (simp only: assert_run_simps)
  then show ?thesis by (simp add: with_context_def mysock_get_context_def verify_mysocket_descriptor_def)
qed

lemma live_unique: "live sys sd e \<Longrightarrow> live sys sd e' \<Longrightarrow> e = e'"
  by (simp add: live_def)

lemma first_free_Some: "first_free xs = Some k \<Longrightarrow> k < length xs \<and> xs ! k = None \<and> (\<forall>i < k. xs ! i \<noteq> None)"
proof (induction xs arbitrary: k)
  case (Cons x xs)
  show ?case
  proof (cases x)
    case None
    with Cons.prems show ?thesis by simp
  next
    case (Some y)
    with Cons.prems obtain j where j: "first_free xs = Some j" "k = Suc j" by auto
    from Cons.IH [OF j(1)] j(2) Some show ?thesis by (auto simp: nth_Cons split: nat.splits)
  qed
qed simp

lemma first_free_None: "first_free xs = None \<longleftrightarrow> (\<forall>x \<in> set xs. x \<noteq> None)"
  by (induction xs rule: first_free.induct) auto

lemma put_entry_simps [simp]:
  "listen_table (put_entry sys sd e) = listen_table sys" "n_sockets (put_entry sys sd e) = n_sockets sys"
  "closed_fds (put_entry sys sd e) = closed_fds sys" "length (global_ctx (put_entry sys sd e)) = length (global_ctx sys)"
  by (simp_all add: put_entry_def)

lemma live_put_entry:
  "0 \<le> sd \<Longrightarrow> sd < int (length (global_ctx sys)) \<Longrightarrow>
   live (put_entry sys sd e) sd' e' \<longleftrightarrow> (if sd' = sd then e' = e else live sys sd' e')"
  by (auto simp: live_def put_entry_def nth_list_update)

lemma table_ok_put_entry:
  assumes "table_ok sys" "my_sd (ctx_of e) = sd" "0 \<le> sd"
  shows "table_ok (put_entry sys sd e)"
proof -
  have "my_sd (ctx_of e') = int k" if "k < MAX_NUM_CONNECTIONS" "global_ctx (put_entry sys sd e) ! k = Some e'" for k e'
    using that assms by (cases "k = nat sd") (auto simp: table_ok_def put_entry_def)
  then show ?thesis using assms(1) by (simp add: table_ok_def)
qed

lemma with_context_put [simp]:
  "0 \<le> sd \<Longrightarrow> sd < int (length (global_ctx sys)) \<Longrightarrow> my_sd (ctx_of e) = sd \<Longrightarrow> with_context (put_entry sys sd e) sd f = f e"
  by (rule with_context_live) (simp_all add: live_put_entry)

lemma put_entry_twice [simp]: "put_entry (put_entry sys sd e) sd e' = put_entry sys sd e'"
  by (simp add: put_entry_def)

lemma put_entry_swap: "nat sd \<noteq> nat sd' \<Longrightarrow> put_entry (put_entry sys sd e) sd' e' = put_entry (put_entry sys sd' e') sd e"
  by (simp add: put_entry_def list_update_swap)

lemma put_entry_fields [simp]:
  "put_entry sys sd e\<lparr>listen_table := t\<rparr> = put_entry (sys\<lparr>listen_table := t\<rparr>) sd e"
  "put_entry sys sd e\<lparr>closed_fds := c\<rparr> = put_entry (sys\<lparr>closed_fds := c\<rparr>) sd e"
  by (simp_all add: put_entry_def)

end
