(* ===== verification/Connection_Demux.thy ===== *)
theory Connection_Demux
  imports Mysock_Table
begin

text \<open>
  \<^verbatim>\<open>connection_demux.c\<close>: the backlog of a listening mysocket. A connection request takes a slot and a new mysocket,
  moves to the queue of completed connections when its handshake is done, and is taken off by \<^verbatim>\<open>myaccept\<close>. The
  locks are not modelled: each call is one atomic step, and waiting for a completed connection is \<open>Block\<close>.
\<close>

section \<open>Operations\<close>

definition free_request :: connect_request where
  "free_request = \<lparr>cr_peer_addr = None, cr_peer_addr_len = 0, cr_sd = -1\<rparr>"

definition get_connection_queue :: "mysock_sys \<Rightarrow> mysock_context \<Rightarrow> listen_queue option run" where
  "get_connection_queue sys ctx =
     run_bind (assert_run (listening ctx \<and> bound ctx)) (\<lambda>_.
       lift_res (hash_lookup_ptr HASH_DEFAULT_HASH_FN (listen_table sys) (my_sd ctx)))"

text \<open>Storing through the pointer \<^verbatim>\<open>q\<close> of the table.\<close>

definition put_queue :: "mysock_sys \<Rightarrow> int \<Rightarrow> listen_queue \<Rightarrow> mysock_sys run" where
  "put_queue sys sd q =
     run_bind (lift_res (hash_set_entry HASH_DEFAULT_HASH_FN (listen_table sys) sd q)) (\<lambda>t.
       Ret (sys\<lparr>listen_table := t\<rparr>))"

text \<open>A slot reached through a pointer of the completed queue.\<close>

definition get_slot :: "listen_queue \<Rightarrow> nat \<times> nat \<Rightarrow> connect_request run" where
  "get_slot q p =
     (if fst p \<noteq> allocation q then Crash UseAfterFree
      else if snd p \<ge> length (connection_queue q) then Crash OutOfBounds
      else Ret (connection_queue q ! snd p))"

definition mysock_dequeue_connection :: "mysock_sys \<Rightarrow> int \<Rightarrow> (int \<times> mysock_sys) run" where
  "mysock_dequeue_connection sys sd =
     with_context sys sd (\<lambda>e.
     run_bind (assert_run (listening (ctx_of e) \<and> bound (ctx_of e))) (\<lambda>_.
     run_bind (get_connection_queue sys (ctx_of e)) (\<lambda>qo.
       case qo of None \<Rightarrow> Crash AssertFailed
       | Some q \<Rightarrow>
         (case completed_queue q of
            [] \<Rightarrow> Block
          | p # rest \<Rightarrow>
              run_bind (get_slot q p) (\<lambda>r.
              with_context sys (cr_sd r) (\<lambda>_.
              run_bind (assert_run (cur_len q > 0)) (\<lambda>_.
              run_bind (put_queue sys (my_sd (ctx_of e))
                 (q\<lparr>completed_queue := rest, connection_queue := (connection_queue q)[snd p := free_request],
                    cur_len := cur_len q - 1\<rparr>)) (\<lambda>sys1.
              Ret (cr_sd r, sys1)))))))))"

text \<open>The search for a queued request of the same peer; \<open>k\<close> slots are looked at.\<close>

fun retransmission :: "connect_request list \<Rightarrow> nat \<Rightarrow> sockaddr_in \<Rightarrow> nat \<Rightarrow> bool run" where
  "retransmission rs 0 peer len = Ret False"
| "retransmission [] (Suc k) peer len = Crash OutOfBounds"
| "retransmission (r # rs) (Suc k) peer len =
     run_bind (assert_run (cr_sd r = -1 \<or> len = cr_peer_addr_len r)) (\<lambda>_.
       if cr_peer_addr r = Some peer then Ret True else retransmission rs k peer len)"

fun find_slot :: "(connect_request \<Rightarrow> bool) \<Rightarrow> connect_request list \<Rightarrow> nat \<Rightarrow> nat option run" where
  "find_slot P rs 0 = Ret None"
| "find_slot P [] (Suc k) = Crash OutOfBounds"
| "find_slot P (r # rs) (Suc k) =
     (if P r then Ret (Some 0) else run_bind (find_slot P rs k) (\<lambda>i. Ret (map_option Suc i)))"

definition network_update_passive_state :: "mysock_entry \<Rightarrow> mysock_entry \<Rightarrow> mysock_sys
    \<Rightarrow> (mysock_entry \<times> mysock_entry \<times> mysock_sys) run" where
  "network_update_passive_state new acc sys =
     run_bind (assert_run (\<not> listening (ctx_of new) \<and> \<not> is_active (ctx_of new))) (\<lambda>_.
       Ret (new\<lparr>tcp_of := (tcp_of new)\<lparr>socket := new_socket (tcp_of acc), connected := True\<rparr>,
                ctx_of := (ctx_of new)\<lparr>network_state := (network_state (ctx_of new))\<lparr>
                   net_port := net_port (network_state (ctx_of acc))\<rparr>\<rparr>\<rparr>,
            acc\<lparr>tcp_of := (tcp_of acc)\<lparr>new_socket := -1\<rparr>\<rparr>,
            sys\<lparr>closed_fds := closed_fds sys @ [socket (tcp_of new)]\<rparr>))"

text \<open>A slot has been found: the new mysocket is created, initialised and given the SYN packet.\<close>

definition establish :: "os_calls \<Rightarrow> mysock_sys \<Rightarrow> int \<Rightarrow> listen_queue \<Rightarrow> nat \<Rightarrow> bytes \<Rightarrow> sockaddr_in \<Rightarrow> nat
    \<Rightarrow> (bool \<times> mysock_sys) run" where
  "establish env sys sd q k packet peer len =
     with_context sys sd (\<lambda>acc.
     run_bind (mysock_new_mysocket env sys (is_reliable (network_state (ctx_of acc)))) (\<lambda>(r, sys1).
       case r of
         Inl _ \<Rightarrow>
           run_bind (put_queue sys1 sd (q\<lparr>connection_queue := (connection_queue q)[k := free_request],
             cur_len := cur_len q - 1\<rparr>)) (\<lambda>sys2. Ret (False, sys2))
       | Inr new_sd \<Rightarrow>
           with_context sys1 new_sd (\<lambda>e.
           let net = network_state (ctx_of e);
               e1 = e\<lparr>ctx_of := (ctx_of e)\<lparr>listen_sd := sd, network_state := net\<lparr>peer_addr := peer,
                      peer_addr_len := len, peer_addr_valid := True\<rparr>\<rparr>\<rparr>
           in run_bind (put_queue sys1 sd (q\<lparr>connection_queue := (connection_queue q)[k :=
                 \<lparr>cr_peer_addr = Some peer, cr_peer_addr_len = len, cr_sd = new_sd\<rparr>]\<rparr>)) (\<lambda>sys2.
              run_bind (network_update_passive_state e1 acc sys2) (\<lambda>(e2, acc2, sys3).
              run_bind (mysock_transport_init (put_entry (put_entry sys3 new_sd e2) sd acc2) new_sd False) (\<lambda>sys4.
              with_context sys4 new_sd (\<lambda>e3.
                Ret (True, put_ctx sys4 new_sd e3 (\<lambda>c. c\<lparr>network_recv_queue :=
                   mysock_enqueue_buffer (network_recv_queue c) packet\<rparr>)))))))))"

definition mysock_enqueue_connection ::
  "os_calls \<Rightarrow> mysock_sys \<Rightarrow> int \<Rightarrow> bytes \<Rightarrow> sockaddr_in \<Rightarrow> nat \<Rightarrow> (bool \<times> mysock_sys) run" where
  "mysock_enqueue_connection env sys sd packet peer len =
     with_context sys sd (\<lambda>e.
     run_bind (assert_run (listening (ctx_of e) \<and> bound (ctx_of e))) (\<lambda>_.
     run_bind (assert_run (len > 0)) (\<lambda>_.
       if length packet < sizeof_tcphdr \<or> th_flags (ld_struct 20 dec_tcp packet 0) AND TH_SYN = 0 then Ret (False, sys)
       else run_bind (get_connection_queue sys (ctx_of e)) (\<lambda>qo.
         case qo of None \<Rightarrow> Ret (False, sys)
         | Some q \<Rightarrow>
           run_bind (retransmission (connection_queue q) (unat (max_len q)) peer len) (\<lambda>dup.
             if dup then Ret (False, sys)
             else if cur_len q < max_len q then
               run_bind (find_slot (\<lambda>r. cr_sd r < 0) (connection_queue q) (unat (max_len q))) (\<lambda>slot.
                 case slot of None \<Rightarrow> Crash AssertFailed
                 | Some k \<Rightarrow>
                   run_bind (assert_run (cr_sd (connection_queue q ! k) = -1)) (\<lambda>_.
                     establish env sys sd (q\<lparr>cur_len := cur_len q + 1\<rparr>) k packet peer len))
             else Ret (False, sys))))))"

definition mysock_passive_connection_complete :: "mysock_sys \<Rightarrow> int \<Rightarrow> mysock_sys run" where
  "mysock_passive_connection_complete sys sd =
     with_context sys sd (\<lambda>e.
     run_bind (assert_run (listen_sd (ctx_of e) \<ge> 0)) (\<lambda>_.
     with_context sys (listen_sd (ctx_of e)) (\<lambda>l.
     run_bind (get_connection_queue sys (ctx_of l)) (\<lambda>qo.
       case qo of None \<Rightarrow> Ret sys
       | Some q \<Rightarrow>
         run_bind (find_slot (\<lambda>r. cr_sd r = my_sd (ctx_of e)) (connection_queue q) (unat (max_len q))) (\<lambda>slot.
           case slot of None \<Rightarrow> Crash AssertFailed
           | Some k \<Rightarrow>
             put_queue sys (my_sd (ctx_of l)) (q\<lparr>completed_queue := completed_queue q @ [(allocation q, k)]\<rparr>))))))"

text \<open>\<^verbatim>\<open>realloc\<close> to the new length, and the initialisation of the slots from the old length on.\<close>

definition grow_queue :: "listen_queue \<Rightarrow> u32 \<Rightarrow> listen_queue" where
  "grow_queue q n =
     (if n > max_len q then
        q\<lparr>connection_queue := take (unat (max_len q)) (connection_queue q)
             @ replicate (unat n - unat (max_len q)) free_request,
          allocation := Suc (allocation q)\<rparr>
      else q)"

definition mysock_set_backlog :: "mysock_sys \<Rightarrow> int \<Rightarrow> u32 \<Rightarrow> mysock_sys run" where
  "mysock_set_backlog sys sd backlog =
     with_context sys sd (\<lambda>e.
     run_bind (assert_run (listening (ctx_of e) \<and> bound (ctx_of e))) (\<lambda>_.
       let port = ntohs (net_port (network_state (ctx_of e)))
       in run_bind (assert_run (port > 0)) (\<lambda>_.
          run_bind (get_connection_queue sys (ctx_of e)) (\<lambda>qo.
          run_bind
            (case qo of
               None \<Rightarrow>
                 (let q = \<lparr>local_port = port, max_len = 0, cur_len = 0, connection_queue = [], allocation = 0,
                          completed_queue = []\<rparr>
                  in run_bind (lift_res (hash_insert HASH_DEFAULT_HASH_FN (listen_table sys) (my_sd (ctx_of e)) q)) (\<lambda>t.
                     Ret (q, sys\<lparr>listen_table := t\<rparr>)))
             | Some q \<Rightarrow> Ret (q, sys)) (\<lambda>(q, sys1).
          run_bind (assert_run (local_port q = port)) (\<lambda>_.
            put_queue sys1 (my_sd (ctx_of e)) ((grow_queue q (backlog + 1))\<lparr>max_len := backlog + 1\<rparr>)))))))"

fun close_slots :: "(mysock_sys \<Rightarrow> int \<Rightarrow> mysock_sys run) \<Rightarrow> mysock_sys \<Rightarrow> connect_request list \<Rightarrow> nat \<Rightarrow> mysock_sys run" where
  "close_slots cls sys rs 0 = Ret sys"
| "close_slots cls sys [] (Suc k) = Crash OutOfBounds"
| "close_slots cls sys (r # rs) (Suc k) =
     run_bind (if cr_sd r \<noteq> -1 then cls sys (cr_sd r) else Ret sys) (\<lambda>sys1. close_slots cls sys1 rs k)"

definition mysock_close_passive_socket ::
  "(mysock_sys \<Rightarrow> int \<Rightarrow> mysock_sys run) \<Rightarrow> mysock_sys \<Rightarrow> int \<Rightarrow> mysock_sys run" where
  "mysock_close_passive_socket cls sys sd =
     with_context sys sd (\<lambda>e.
     run_bind (get_connection_queue sys (ctx_of e)) (\<lambda>qo.
       case qo of None \<Rightarrow> Ret sys
       | Some q \<Rightarrow>
         run_bind (close_slots cls sys (connection_queue q) (unat (max_len q))) (\<lambda>sys1.
         run_bind (lift_res (hash_delete HASH_DEFAULT_HASH_FN (listen_table sys1) (my_sd (ctx_of e)))) (\<lambda>t.
           Ret (sys1\<lparr>listen_table := t\<rparr>)))))"

text \<open>
  \<^verbatim>\<open>stcp_unblock_application\<close>, called by the transport thread with the current \<^verbatim>\<open>errno\<close>; 4 is \<^verbatim>\<open>EINTR\<close>.
\<close>

definition stcp_unblock_application :: "mysock_sys \<Rightarrow> int \<Rightarrow> int \<Rightarrow> mysock_sys run" where
  "stcp_unblock_application sys sd err =
     with_context sys sd (\<lambda>e.
     run_bind (assert_run (blocking (ctx_of e))) (\<lambda>_.
       let sys1 = put_ctx sys sd e (\<lambda>c. c\<lparr>blocking := False, stcp_errno := if err = 4 then 0 else err\<rparr>)
       in if \<not> is_active (ctx_of e) then mysock_passive_connection_complete sys1 sd else Ret sys1))"

text \<open>What is left to do for the transport thread when \<^verbatim>\<open>transport_init\<close> returns; 111 is \<^verbatim>\<open>ECONNREFUSED\<close>, 103
  \<^verbatim>\<open>ECONNABORTED\<close>.\<close>

definition transport_thread_exit :: "mysock_sys \<Rightarrow> int \<Rightarrow> int \<Rightarrow> mysock_sys run" where
  "transport_thread_exit sys sd err =
     with_context sys sd (\<lambda>e.
     run_bind
       (if blocking (ctx_of e) then
          stcp_unblock_application sys sd (if err = 0 \<or> err = 4 then if is_active (ctx_of e) then 111 else 103 else err)
        else Ret sys) (\<lambda>sys1.
     with_context sys1 sd (\<lambda>e1.
       Ret (put_ctx sys1 sd e1 (\<lambda>c. c\<lparr>app_send_queue := mysock_enqueue_buffer (app_send_queue c) []\<rparr>)))))"

end
