(* ===== verification/Mysock_Api.thy ===== *)
theory Mysock_Api
  imports Connection_Demux
begin

text \<open>
  The application interface of the mysocket layer (\<^verbatim>\<open>mysock_api.c\<close>) and the thread that receives packets
  (\<^verbatim>\<open>network_io_socket.c\<close>). \<open>Inl e\<close> is the return value -1 with \<^verbatim>\<open>errno\<close> set to \<open>e\<close>. What the other threads do
  while a call waits for them is a parameter of the call.
\<close>

section \<open>The application interface\<close>

definition AF_INET :: nat where "AF_INET = 2"

definition api_context :: "errno \<Rightarrow> mysock_sys \<Rightarrow> int \<Rightarrow> (mysock_entry \<Rightarrow> ((errno + 'a) \<times> mysock_sys) run)
    \<Rightarrow> ((errno + 'a) \<times> mysock_sys) run" where
  "api_context err sys sd f =
     run_bind (mysock_get_context sys sd) (\<lambda>e. case e of None \<Rightarrow> Ret (Inl err, sys) | Some e \<Rightarrow> f e)"

definition mysocket :: "os_calls \<Rightarrow> mysock_sys \<Rightarrow> bool \<Rightarrow> ((errno + int) \<times> mysock_sys) run" where
  "mysocket env sys reliable = mysock_new_mysocket env sys reliable"

definition mybind :: "os_calls \<Rightarrow> mysock_sys \<Rightarrow> int \<Rightarrow> nat \<Rightarrow> sockaddr_in \<Rightarrow> ((errno + int) \<times> mysock_sys) run" where
  "mybind env sys sd family addr =
     api_context EBADF sys sd (\<lambda>e.
       if family \<noteq> AF_INET then Ret (Inl EADDRNOTAVAIL, sys)
       else run_bind (assert_run (\<not> listening (ctx_of e))) (\<lambda>_.
         let e1 = e\<lparr>ctx_of := (ctx_of e)\<lparr>bound := True,
                    network_state := (network_state (ctx_of e))\<lparr>local_addr := addr\<rparr>\<rparr>\<rparr>
         in run_bind (network_bind env e1 addr) (\<lambda>(rc, e2). Ret (Inr rc, put_entry sys sd e2))))"

text \<open>\<open>others\<close> is what the other threads do before the call looks at the result of the handshake.\<close>

definition myconnect :: "os_calls \<Rightarrow> (mysock_sys \<Rightarrow> mysock_sys) \<Rightarrow> mysock_sys \<Rightarrow> int \<Rightarrow> sockaddr_in \<Rightarrow> nat
    \<Rightarrow> ((errno + int) \<times> mysock_sys) run" where
  "myconnect env others sys sd name namelen =
     api_context EINVAL sys sd (\<lambda>e.
       if peer_addr_len (network_state (ctx_of e)) \<noteq> 0 then Ret (Inl EISCONN, sys)
       else
         let sys1 = put_ctx sys sd e (\<lambda>c. c\<lparr>network_state := (network_state c)\<lparr>peer_addr := name,
                      peer_addr_len := namelen, peer_addr_valid := True\<rparr>\<rparr>)
         in run_bind (if bound (ctx_of e) then Ret sys1 else mysock_bind_ephemeral env sys1 sd) (\<lambda>sys2.
            run_bind (mysock_transport_init sys2 sd True) (\<lambda>sys3.
            let sys4 = others sys3
            in run_bind (mysock_wait_for_connection sys4 sd) (\<lambda>rc. Ret (rc, sys4)))))"

definition myaccept :: "mysock_sys \<Rightarrow> int \<Rightarrow> ((errno + int \<times> sockaddr_in) \<times> mysock_sys) run" where
  "myaccept sys sd =
     api_context EBADF sys sd (\<lambda>e.
       if \<not> listening (ctx_of e) then Ret (Inl EINVAL, sys)
       else run_bind (mysock_dequeue_connection sys sd) (\<lambda>(new_sd, sys1).
         with_context sys1 new_sd (\<lambda>n.
         let c = ctx_of n
         in run_bind (assert_run (stcp_errno c = 0 \<longrightarrow> peer_addr_len (network_state c) > 0)) (\<lambda>_.
            run_bind (assert_run (listen_sd c = sd)) (\<lambda>_.
              Ret (if stcp_errno c \<noteq> 0 then Inl (Errno (stcp_errno c))
                   else Inr (my_sd c, peer_addr (network_state c)), sys1))))))"

text \<open>\<open>os_listen\<close> gives 0 or the negated error number.\<close>

definition mylisten :: "os_calls \<Rightarrow> mysock_sys \<Rightarrow> int \<Rightarrow> int \<Rightarrow> ((errno + int) \<times> mysock_sys) run" where
  "mylisten env sys sd backlog =
     with_context sys sd (\<lambda>e.
     run_bind (assert_run (bound (ctx_of e))) (\<lambda>_.
     run_bind (mysock_set_backlog (put_ctx sys sd e (\<lambda>c. c\<lparr>listening := True\<rparr>)) sd (of_int backlog)) (\<lambda>sys1.
     run_bind (assert_run (socket (tcp_of e) \<ge> 0)) (\<lambda>_.
       if os_listen env (socket (tcp_of e)) backlog < 0
       then Ret (Inl (Errno (- os_listen env (socket (tcp_of e)) backlog)), sys1)
       else with_context sys1 sd (\<lambda>e1.
         Ret (Inr 0, put_entry sys1 sd (network_start_recv_thread e1)))))))"

text \<open>
  \<open>join sys sd\<close> is the state when both threads of the mysocket \<open>sd\<close> have ended, \<open>None\<close> if they never do. The call
  closes the queued connections of a listening socket by calls of itself; \<open>n\<close> bounds their depth.
\<close>

fun myclose :: "nat \<Rightarrow> (mysock_sys \<Rightarrow> int \<Rightarrow> mysock_sys option) \<Rightarrow> mysock_sys \<Rightarrow> int \<Rightarrow> mysock_sys run" where
  "myclose 0 join sys sd = Crash OutOfFuel"
| "myclose (Suc n) join sys sd =
     with_context sys sd (\<lambda>e.
     let sys1 = put_ctx sys sd e (\<lambda>c. c\<lparr>close_requested := True\<rparr>)
     in run_bind
          (if transport_thread_started (ctx_of e) then
             run_bind (assert_run (\<not> listening (ctx_of e) \<and> (is_active (ctx_of e) \<or> listen_sd (ctx_of e) \<noteq> -1))) (\<lambda>_.
               Ret ())
           else Ret ()) (\<lambda>_.
        case (if transport_thread_started (ctx_of e) \<or> recv_thread_started (tcp_of e) then join sys1 sd else Some sys1) of
          None \<Rightarrow> Block
        | Some sys2 \<Rightarrow>
            with_context sys2 sd (\<lambda>e2.
            let sys3 = put_entry sys2 sd (network_stop_recv_thread (e2\<lparr>ctx_of := (ctx_of e2)\<lparr>transport_thread_started := False\<rparr>\<rparr>))
            in run_bind (if listening (ctx_of e2) then mysock_close_passive_socket (myclose n join) sys3 sd else Ret sys3) (\<lambda>sys4.
               with_context sys4 sd (\<lambda>e4. Ret (mysock_free_context sys4 e4 True))))))"

definition mywrite :: "mysock_sys \<Rightarrow> int \<Rightarrow> bytes \<Rightarrow> ((errno + nat) \<times> mysock_sys) run" where
  "mywrite sys sd buf =
     api_context EBADF sys sd (\<lambda>e.
       run_bind (mywrite_ctx (ctx_of e) buf) (\<lambda>(rc, c). Ret (rc, put_entry sys sd (e\<lparr>ctx_of := c\<rparr>))))"

definition myread :: "mysock_sys \<Rightarrow> int \<Rightarrow> nat \<Rightarrow> ((errno + nat \<times> bytes) \<times> mysock_sys) run" where
  "myread sys sd buf_len =
     api_context EBADF sys sd (\<lambda>e.
       run_bind (myread_ctx (ctx_of e) buf_len) (\<lambda>(rc, c). Ret (rc, put_entry sys sd (e\<lparr>ctx_of := c\<rparr>))))"

definition mygetsockname :: "mysock_sys \<Rightarrow> int \<Rightarrow> ((errno + sockaddr_in) \<times> mysock_sys) run" where
  "mygetsockname sys sd =
     api_context EBADF sys sd (\<lambda>e.
       run_bind (network_get_port e) (\<lambda>port.
       let net = network_state (ctx_of e); addr = (local_addr net)\<lparr>sin_port := port\<rparr>
       in if peer_addr_valid net then
            run_bind (lift_res (network_get_local_addr net)) (\<lambda>ip. Ret (Inr (addr\<lparr>sin_addr := ip\<rparr>), sys))
          else Ret (Inr addr, sys)))"

text \<open>The structure \<^verbatim>\<open>sockaddr_in\<close> in memory.\<close>

definition enc_sockaddr :: "sockaddr_in \<Rightarrow> bytes" where
  "enc_sockaddr a = le16 (of_nat AF_INET) @ le16 (sin_port a) @ le32 (sin_addr a) @ replicate 8 0"

text \<open>
  The caller's buffer, the new value of \<^verbatim>\<open>namelen\<close> and the result. The address is copied up to the length of the
  buffer; without a peer nothing is copied.
\<close>

definition mygetpeername :: "mysock_sys \<Rightarrow> int \<Rightarrow> bytes \<Rightarrow> (bytes \<times> nat \<times> (errno + int)) run" where
  "mygetpeername sys sd name =
     with_context sys sd (\<lambda>e.
     let net = network_state (ctx_of e); k = min (length name) (peer_addr_len net)
     in Ret (take k (enc_sockaddr (peer_addr net)) @ drop k name, peer_addr_len net,
             if peer_addr_len net > 0 then Inr 0 else Inl ENOTCONN))"

text \<open>What the search for the address of an interface asks the system for.\<close>

record host_env =
  h_name :: "string option"                            \<comment> \<open>\<^verbatim>\<open>gethostname\<close>\<close>
  h_dgram_socket :: int
  h_ifconf :: "(string \<times> u32) list option"           \<comment> \<open>the interfaces of \<^verbatim>\<open>SIOCGIFCONF\<close>, at most ten\<close>
  h_byname :: "string \<Rightarrow> u32 option"                 \<comment> \<open>\<^verbatim>\<open>gethostbyname_r\<close>\<close>

fun find_eth :: "(string \<times> u32) list \<Rightarrow> u32 option" where
  "find_eth [] = None"
| "find_eth ((ifr_name, ip) # rest) = (if take 3 ifr_name = ''eth'' then Some ip else find_eth rest)"

definition network_get_interface_ip :: "host_env \<Rightarrow> u32 \<Rightarrow> u32 run" where
  "network_get_interface_ip env peer =
     (case h_name env of
        None \<Rightarrow> Crash AssertFailed
      | Some hostname \<Rightarrow>
          (case (if take 9 hostname = ''localhost'' \<and> h_dgram_socket env > 0
                 then Option.bind (h_ifconf env) find_eth else None) of
             Some ip \<Rightarrow> Ret ip
           | None \<Rightarrow> (case h_byname env hostname of None \<Rightarrow> Crash AssertFailed | Some ip \<Rightarrow> Ret ip)))"

definition mylocalip :: "host_env \<Rightarrow> u32 \<Rightarrow> u32 run" where
  "mylocalip env peer = network_get_interface_ip env peer"

section \<open>The receiving thread\<close>

datatype poll_result =
    Poll_Failed bool      \<comment> \<open>-1; whether \<^verbatim>\<open>errno\<close> is EINTR\<close>
  | Poll_Timeout          \<comment> \<open>0\<close>
  | Poll_Ready u16 u16    \<comment> \<open>the events of the exit pipe and of the socket\<close>

definition POLLERR :: u16 where "POLLERR = 8"

text \<open>The result is whether the thread is to end.\<close>

partial_function (option) poll_loop :: "('s \<Rightarrow> poll_result \<times> 's) \<Rightarrow> 's \<Rightarrow> (bool \<times> 's) run option" where
  "poll_loop pl s =
     (case pl s of
        (Poll_Failed intr, s1) \<Rightarrow> if intr then poll_loop pl s1 else Some (Crash AssertFailed)
      | (Poll_Timeout, s1) \<Rightarrow> Some (Crash AssertFailed)
      | (Poll_Ready r0 r1, s1) \<Rightarrow>
          if r0 AND POLLERR \<noteq> 0 \<or> r1 AND POLLERR \<noteq> 0 then Some (Crash AssertFailed)
          else if r0 = 0 \<and> r1 = 0 then poll_loop pl s1
          else Some (Ret (r0 \<noteq> 0, s1)))"

text \<open>
  One round after the socket has become ready. The result says whether the thread goes on; \<open>conn\<close> and \<open>acc\<close> are
  the results of \<^verbatim>\<open>connect\<close> and \<^verbatim>\<open>accept\<close>, should they be called.
\<close>

definition recv_round :: "os_calls \<Rightarrow> 's reader \<Rightarrow> int \<Rightarrow> int \<times> sockaddr_in \<Rightarrow> mysock_sys \<Rightarrow> int \<Rightarrow> 's
    \<Rightarrow> (bool \<times> mysock_sys \<times> 's) run" where
  "recv_round env rd conn acc sys sd s =
     with_context sys sd (\<lambda>e.
     run_bind (lift_res (tcp_recv_packet rd conn acc (ctx_of e) (tcp_of e) s MAX_IP_PAYLOAD_LEN)) (\<lambda>(rc, dst, c1, t1, s1).
       let sys1 = put_entry sys sd \<lparr>ctx_of = c1, tcp_of = t1\<rparr>
       in if rc \<le> 0 then Ret (False, sys1, s1)
          else run_bind (assert_run (rc \<le> int MAX_IP_PAYLOAD_LEN)) (\<lambda>_.
            if listening c1 then
              run_bind (mysock_enqueue_connection env sys1 sd dst (peer_addr (network_state c1))
                (peer_addr_len (network_state c1))) (\<lambda>(_, sys2). Ret (True, sys2, s1))
            else
              Ret (True, put_entry sys1 sd \<lparr>ctx_of = c1\<lparr>network_recv_queue :=
                mysock_enqueue_buffer (network_recv_queue c1) dst\<rparr>, tcp_of = t1\<rparr>, s1))))"

partial_function (option) network_recv_thread_func ::
  "os_calls \<Rightarrow> 's reader \<Rightarrow> ('s \<Rightarrow> poll_result \<times> 's) \<Rightarrow> ('s \<Rightarrow> int) \<Rightarrow> ('s \<Rightarrow> int \<times> sockaddr_in) \<Rightarrow> mysock_sys \<Rightarrow> int \<Rightarrow> 's
    \<Rightarrow> (mysock_sys \<times> 's) run option" where
  "network_recv_thread_func env rd pl conn acc sys sd s =
     (case poll_loop pl s of
        None \<Rightarrow> None
      | Some (Ret (quit, s1)) \<Rightarrow>
          if quit then Some (Ret (sys, s1))
          else (case recv_round env rd (conn s1) (acc s1) sys sd s1 of
                  Ret (go, sys2, s2) \<Rightarrow>
                    if go then network_recv_thread_func env rd pl conn acc sys2 sd s2 else Some (Ret (sys2, s2))
                | Block \<Rightarrow> Some Block
                | Crash e \<Rightarrow> Some (Crash e))
      | Some Block \<Rightarrow> Some Block
      | Some (Crash e) \<Rightarrow> Some (Crash e))"

end
