(* ===== verification/Demux_Props.thy ===== *)
theory Demux_Props
  imports Mysock_Api
begin

text \<open>
  The backlog of a listening mysocket as an abstract queue: connections in the handshake, connections ready to
  be accepted in the order their handshakes were completed, and a bound on their number. The locale
  \<open>accept_queue\<close> is what \<^verbatim>\<open>myaccept\<close> relies on; \<^verbatim>\<open>connection_demux.c\<close> implements it.
\<close>

section \<open>The interface\<close>

datatype 'a demux_event = Arrive 'a | Complete int | Accept

locale accept_queue =
  fixes inv :: "'s \<Rightarrow> bool"
    and waiting :: "'s \<Rightarrow> int set"
    and ready :: "'s \<Rightarrow> int list"
    and cap :: "'s \<Rightarrow> nat"
    and arrive :: "'s \<Rightarrow> 'a \<Rightarrow> (bool \<times> 's) run"
    and complete :: "'s \<Rightarrow> int \<Rightarrow> 's run"
    and accept :: "'s \<Rightarrow> (int \<times> 's) run"
  assumes arrive_ok: "inv s \<Longrightarrow> \<exists>b s'. arrive s a = Ret (b, s') \<and> inv s' \<and> ready s' = ready s \<and> cap s' = cap s
      \<and> (if b then \<exists>sd. sd \<notin> waiting s \<union> set (ready s) \<and> waiting s' = insert sd (waiting s) else waiting s' = waiting s)"
    and complete_ok: "inv s \<Longrightarrow> sd \<in> waiting s \<Longrightarrow>
      \<exists>s'. complete s sd = Ret s' \<and> inv s' \<and> ready s' = ready s @ [sd] \<and> waiting s' = waiting s - {sd} \<and> cap s' = cap s"
    and accept_wait: "inv s \<Longrightarrow> ready s = [] \<Longrightarrow> accept s = Block"
    and accept_ok: "inv s \<Longrightarrow> ready s = sd # rest \<Longrightarrow>
      \<exists>s'. accept s = Ret (sd, s') \<and> inv s' \<and> ready s' = rest \<and> waiting s' = waiting s \<and> cap s' = cap s"
    and within_cap: "inv s \<Longrightarrow> finite (waiting s) \<and> card (waiting s) + length (ready s) \<le> cap s"
    and apart: "inv s \<Longrightarrow> distinct (ready s) \<and> waiting s \<inter> set (ready s) = {}"
begin

text \<open>
  A run: the events, the descriptors completed and accepted so far, and the state. Only connections in the
  handshake complete, and a call of \<open>accept\<close> that has to wait is not an event.
\<close>

inductive run :: "'s \<Rightarrow> int list \<Rightarrow> int list \<Rightarrow> 's \<Rightarrow> bool" where
  start: "run s [] [] s"
| arrival: "run s cs as s1 \<Longrightarrow> arrive s1 a = Ret (b, s2) \<Longrightarrow> run s cs as s2"
| completion: "run s cs as s1 \<Longrightarrow> sd \<in> waiting s1 \<Longrightarrow> complete s1 sd = Ret s2 \<Longrightarrow> run s (cs @ [sd]) as s2"
| acceptance: "run s cs as s1 \<Longrightarrow> accept s1 = Ret (sd, s2) \<Longrightarrow> run s cs (as @ [sd]) s2"

lemma accept_head:
  assumes "inv s" "accept s = Ret (sd, s')"
  shows "ready s = sd # ready s' \<and> inv s' \<and> waiting s' = waiting s \<and> cap s' = cap s"
proof (cases "ready s")
  case Nil
  with assms accept_wait show ?thesis by auto
next
  case (Cons x xs)
  then show ?thesis using accept_ok [OF assms(1) Cons] assms(2) by auto
qed

lemma run_fifo:
  assumes "run s cs as s'" "inv s"
  shows "inv s' \<and> ready s @ cs = as @ ready s' \<and> cap s' = cap s"
  using assms
proof (induction rule: run.induct)
  case (start s)
  then show ?case by simp
next
  case (arrival s cs as s1 a b s2)
  then show ?case using arrive_ok [of s1 a] by auto
next
  case (completion s cs as s1 sd s2)
  then show ?case using complete_ok [of s1 sd] by auto
next
  case (acceptance s cs as s1 sd s2)
  then show ?case using accept_head [of s1 sd s2] by auto
qed

text \<open>No step gets stuck or faults.\<close>

lemma run_progress:
  assumes "run s cs as s'" "inv s"
  shows "(\<exists>b s2. arrive s' a = Ret (b, s2)) \<and> (sd \<in> waiting s' \<longrightarrow> (\<exists>s2. complete s' sd = Ret s2))
    \<and> (ready s' \<noteq> [] \<longrightarrow> (\<exists>s2. accept s' = Ret (hd (ready s'), s2)))"
proof -
  have "inv s'" using run_fifo [OF assms] by blast
  then show ?thesis
    using arrive_ok [of s' a] complete_ok [of s' sd] accept_ok [of s' "hd (ready s')" "tl (ready s')"]
    by (cases "ready s'") auto
qed

end

section \<open>Invariant of a listening socket\<close>

definition slots :: "listen_queue \<Rightarrow> int list" where
  "slots q = filter (\<lambda>sd. sd \<noteq> -1) (map cr_sd (connection_queue q))"

definition ready_sds :: "listen_queue \<Rightarrow> int list" where
  "ready_sds q = map (\<lambda>p. cr_sd (connection_queue q ! snd p)) (completed_queue q)"

definition request_ok :: "connect_request \<Rightarrow> bool" where
  "request_ok r \<longleftrightarrow> r = free_request \<or> 0 \<le> cr_sd r \<and> cr_peer_addr_len r = 16"

definition queue_ok :: "listen_queue \<Rightarrow> bool" where
  "queue_ok q \<longleftrightarrow> length (connection_queue q) = unat (max_len q) \<and> unat (cur_len q) = length (slots q)
     \<and> distinct (slots q) \<and> list_all request_ok (connection_queue q)
     \<and> distinct (map snd (completed_queue q))
     \<and> (\<forall>p \<in> set (completed_queue q). fst p = allocation q \<and> snd p < length (connection_queue q)
          \<and> cr_sd (connection_queue q ! snd p) \<noteq> -1)"

lemma queue_okD:
  assumes "queue_ok q"
  shows "length (connection_queue q) = unat (max_len q)" "unat (cur_len q) = length (slots q)"
    "distinct (slots q)" "list_all request_ok (connection_queue q)" "distinct (map snd (completed_queue q))"
    "\<And>p. p \<in> set (completed_queue q) \<Longrightarrow> fst p = allocation q \<and> snd p < length (connection_queue q)
      \<and> cr_sd (connection_queue q ! snd p) \<noteq> -1"
  using assms by (auto simp: queue_ok_def)

lemma free_request_simps [simp]: "cr_sd free_request = -1" "cr_peer_addr free_request = None"
  by (simp_all add: free_request_def)

lemma filter_nth_unique:
  "distinct (filter P xs) \<Longrightarrow> i < length xs \<Longrightarrow> j < length xs \<Longrightarrow> P (xs ! i) \<Longrightarrow> xs ! i = xs ! j \<Longrightarrow> i = j"
proof (induction xs arbitrary: i j)
  case (Cons x xs)
  have in_set: "xs ! k \<in> set (filter P xs)" if "k < length xs" "P (xs ! k)" for k using that by simp
  from Cons.prems show ?case
    by (cases i; cases j) (use Cons.IH in_set in \<open>fastforce split: if_splits\<close>)+
qed simp

lemma slot_unique:
  assumes "queue_ok q" "i < length (connection_queue q)" "j < length (connection_queue q)"
    "cr_sd (connection_queue q ! i) = cr_sd (connection_queue q ! j)" "cr_sd (connection_queue q ! i) \<noteq> -1"
  shows "i = j"
  using filter_nth_unique [of "\<lambda>sd. sd \<noteq> -1" "map cr_sd (connection_queue q)" i j] assms queue_okD(3) [OF assms(1)]
  by (simp add: slots_def)

lemma ready_in_slots: "queue_ok q \<Longrightarrow> set (ready_sds q) \<subseteq> set (slots q)"
  using queue_okD(6) by (force simp: ready_sds_def slots_def)

lemma distinct_ready: 
  assumes "queue_ok q"
  shows "distinct (ready_sds q)"
proof -
  have "inj_on (\<lambda>p. cr_sd (connection_queue q ! snd p)) (set (completed_queue q))"
  proof (rule inj_onI)
    fix p r assume pr: "p \<in> set (completed_queue q)" "r \<in> set (completed_queue q)"
      "cr_sd (connection_queue q ! snd p) = cr_sd (connection_queue q ! snd r)"
    then have "snd p = snd r" using slot_unique [OF assms] queue_okD(6) [OF assms] by blast
    moreover have "fst p = fst r" using queue_okD(6) [OF assms] pr by metis
    ultimately show "p = r" by (simp add: prod_eq_iff)
  qed
  moreover have "distinct (completed_queue q)" using queue_okD(5) [OF assms] by (simp add: distinct_map)
  ultimately show ?thesis by (simp add: ready_sds_def distinct_map)
qed

lemma list_all_nth_request: "queue_ok q \<Longrightarrow> k < length (connection_queue q) \<Longrightarrow> request_ok (connection_queue q ! k)"
  using queue_okD(4) by (auto simp: list_all_length)


section \<open>The loops\<close>

lemma find_slot_Some:
  "n \<le> length rs \<Longrightarrow> i < n \<Longrightarrow> P (rs ! i) \<Longrightarrow> \<exists>k < n. find_slot P rs n = Ret (Some k) \<and> P (rs ! k)"
proof (induction P rs n arbitrary: i rule: find_slot.induct)
  case (3 P r rs k)
  show ?case
  proof (cases "P r")
    case False
    with 3 obtain j where "j < k" "find_slot P rs k = Ret (Some j)" "P (rs ! j)"
      by (cases i) auto
    with False show ?thesis by (intro exI [of _ "Suc j"]) auto
  qed auto
qed auto

lemma retransmission_eq:
  "list_all request_ok rs \<Longrightarrow>
   retransmission rs (length rs) peer 16 = Ret (\<exists>r \<in> set rs. cr_peer_addr r = Some peer)"
  by (induction rs) (auto simp: request_ok_def)

lemma filter_update_add:
  assumes "k < length xs" "\<not> P (xs ! k)" "P x"
  obtains us vs where "filter P xs = us @ vs" "filter P (xs[k := x]) = us @ x # vs"
proof -
  have "filter P xs = filter P (take k xs) @ filter P (drop (Suc k) xs)"
    using assms(1,2) by (subst id_take_nth_drop [OF assms(1)]) simp
  moreover have "filter P (xs[k := x]) = filter P (take k xs) @ x # filter P (drop (Suc k) xs)"
    using assms(1,3) by (simp add: upd_conv_take_nth_drop)
  ultimately show thesis by (rule that)
qed

lemma filter_update_del:
  assumes "k < length xs" "P (xs ! k)" "\<not> P x"
  obtains us vs where "filter P xs = us @ (xs ! k) # vs" "filter P (xs[k := x]) = us @ vs"
proof -
  have "filter P xs = filter P (take k xs) @ xs ! k # filter P (drop (Suc k) xs)"
    using assms(1,2) by (subst id_take_nth_drop [OF assms(1)]) simp
  moreover have "filter P (xs[k := x]) = filter P (take k xs) @ filter P (drop (Suc k) xs)"
    using assms(1,3) by (simp add: upd_conv_take_nth_drop)
  ultimately show thesis by (rule that)
qed

section \<open>Changes of the queue\<close>

lemma list_all_update: "list_all P xs \<Longrightarrow> P x \<Longrightarrow> list_all P (xs[k := x])"
  by (induction xs arbitrary: k) (auto split: nat.splits)

text \<open>A free slot is taken.\<close>

lemma queue_ok_take:
  assumes ok: "queue_ok q" and k: "k < length (connection_queue q)" "cr_sd (connection_queue q ! k) = -1"
    and r: "request_ok r" "0 \<le> cr_sd r" "cr_sd r \<notin> set (slots q)" and room: "cur_len q < max_len q"
    and q': "q' = q\<lparr>cur_len := cur_len q + 1, connection_queue := (connection_queue q)[k := r]\<rparr>"
  shows "queue_ok q' \<and> set (slots q') = insert (cr_sd r) (set (slots q)) \<and> ready_sds q' = ready_sds q"
proof -
  obtain us vs where sl: "slots q = us @ vs" "slots q' = us @ cr_sd r # vs"
    using filter_update_add [of k "map cr_sd (connection_queue q)" "\<lambda>sd. sd \<noteq> -1" "cr_sd r"] k r(2)
    by (auto simp: slots_def q' map_update)
  have old: "cr_sd (connection_queue q' ! snd p) = cr_sd (connection_queue q ! snd p)" if "p \<in> set (completed_queue q)" for p
    using queue_okD(6) [OF ok that] k by (auto simp: q' nth_list_update)
  have "unat (cur_len q + 1) = unat (cur_len q) + 1"
    using room unsigned_less [of "max_len q", where 'a = nat]
    by (simp add: unat_word_ariths(1) word_less_nat_alt mod_less)
  then have "queue_ok q'"
    using queue_okD [OF ok] sl r old list_all_update [OF queue_okD(4) [OF ok] r(1)]
    by (auto simp: queue_ok_def q')
  moreover have "ready_sds q' = ready_sds q" using old by (simp add: ready_sds_def q')
  ultimately show ?thesis using sl by auto
qed

text \<open>A handshake is completed.\<close>

lemma queue_ok_complete:
  assumes ok: "queue_ok q" and k: "k < length (connection_queue q)" "cr_sd (connection_queue q ! k) = sd"
    and sd: "sd \<noteq> -1" "sd \<notin> set (ready_sds q)"
    and q': "q' = q\<lparr>completed_queue := completed_queue q @ [(allocation q, k)]\<rparr>"
  shows "queue_ok q' \<and> slots q' = slots q \<and> ready_sds q' = ready_sds q @ [sd]"
proof -
  have "k \<notin> snd ` set (completed_queue q)" using k sd by (force simp: ready_sds_def)
  then show ?thesis
    using queue_okD [OF ok] k sd by (auto simp: queue_ok_def q' slots_def ready_sds_def)
qed

text \<open>The first completed connection is taken off.\<close>

lemma queue_ok_accept:
  assumes ok: "queue_ok q" and p: "completed_queue q = p # rest"
    and q': "q' = q\<lparr>completed_queue := rest, connection_queue := (connection_queue q)[snd p := free_request],
      cur_len := cur_len q - 1\<rparr>"
  shows "queue_ok q' \<and> set (slots q') = set (slots q) - {hd (ready_sds q)} \<and> ready_sds q' = tl (ready_sds q)
    \<and> 0 < cur_len q \<and> get_slot q p = Ret (connection_queue q ! snd p)"
proof -
  have pk: "fst p = allocation q" "snd p < length (connection_queue q)" "cr_sd (connection_queue q ! snd p) \<noteq> -1"
    using queue_okD(6) [OF ok, of p] p by auto
  obtain us vs where sl: "slots q = us @ cr_sd (connection_queue q ! snd p) # vs" "slots q' = us @ vs"
    using filter_update_del [of "snd p" "map cr_sd (connection_queue q)" "\<lambda>sd. sd \<noteq> -1" "-1"] pk
    by (auto simp: slots_def q' map_update)
  have old: "cr_sd (connection_queue q' ! snd r) = cr_sd (connection_queue q ! snd r)" if "r \<in> set rest" for r
  proof -
    have "snd r \<noteq> snd p" using that queue_okD(5) [OF ok] p by auto (metis image_eqI)
    then show ?thesis by (simp add: q')
  qed
  have cur: "cur_len q \<noteq> 0" using queue_okD(2) [OF ok] sl(1) by auto
  then have "unat (cur_len q - 1) = unat (cur_len q) - 1"
    by (metis unat_minus_one)
  then have "queue_ok q'"
    using queue_okD [OF ok] sl old p list_all_update [OF queue_okD(4) [OF ok], of free_request]
    by (auto simp: queue_ok_def q' request_ok_def)
  moreover have "ready_sds q' = tl (ready_sds q)" using old p by (simp add: ready_sds_def q')
  moreover have "hd (ready_sds q) = cr_sd (connection_queue q ! snd p)" using p by (simp add: ready_sds_def)
  ultimately show ?thesis
    using sl queue_okD(3) [OF ok] cur pk by (auto simp: get_slot_def word_neq_0_conv)
qed


section \<open>The process\<close>

definition env_ok :: "os_calls \<Rightarrow> bool" where
  "env_ok env \<longleftrightarrow> (\<forall>k. os_socket env k \<ge> 0 \<and> os_pipe env k \<ge> 0)"

definition backlog_of :: "int \<Rightarrow> mysock_sys \<Rightarrow> listen_queue" where
  "backlog_of lsd sys = the (hash_abs (listen_table sys) lsd)"

definition demux_inv :: "os_calls \<Rightarrow> int \<Rightarrow> mysock_sys \<Rightarrow> bool" where
  "demux_inv env lsd sys \<longleftrightarrow> env_ok env \<and> table_ok sys \<and> hash_wf MAX_NUM_CONNECTIONS (listen_table sys)
     \<and> (\<exists>e. live sys lsd e \<and> listening (ctx_of e) \<and> bound (ctx_of e))
     \<and> hash_abs (listen_table sys) lsd = Some (backlog_of lsd sys) \<and> queue_ok (backlog_of lsd sys)
     \<and> (\<forall>sd \<in> set (slots (backlog_of lsd sys)). sd \<noteq> lsd \<and> (\<exists>e. live sys sd e \<and> listen_sd (ctx_of e) = lsd))"

definition waiting_sds :: "int \<Rightarrow> mysock_sys \<Rightarrow> int set" where
  "waiting_sds lsd sys = set (slots (backlog_of lsd sys)) - set (ready_sds (backlog_of lsd sys))"

lemma demux_invD:
  assumes "demux_inv env lsd sys"
  shows "env_ok env" "table_ok sys" "hash_wf MAX_NUM_CONNECTIONS (listen_table sys)"
    "\<exists>e. live sys lsd e \<and> listening (ctx_of e) \<and> bound (ctx_of e)"
    "hash_abs (listen_table sys) lsd = Some (backlog_of lsd sys)" "queue_ok (backlog_of lsd sys)"
    "\<And>sd. sd \<in> set (slots (backlog_of lsd sys)) \<Longrightarrow> sd \<noteq> lsd \<and> (\<exists>e. live sys sd e \<and> listen_sd (ctx_of e) = lsd)"
  using assms by (auto simp: demux_inv_def)

lemma live_listen_table [simp]: "live (sys\<lparr>listen_table := t\<rparr>) = live sys"
  by (simp add: live_def fun_eq_iff)

lemma table_ok_listen_table [simp]: "table_ok (sys\<lparr>listen_table := t\<rparr>) = table_ok sys"
  by (simp add: table_ok_def)

lemma put_queue_ok:
  assumes "hash_wf MAX_NUM_CONNECTIONS (listen_table sys)"
  obtains t where "put_queue sys sd q = Ret (sys\<lparr>listen_table := t\<rparr>)" "hash_wf MAX_NUM_CONNECTIONS t"
    "hash_abs t = (hash_abs (listen_table sys))(sd \<mapsto> q)"
  using hash.set_any [OF assms, of sd q] by (auto simp: put_queue_def)

lemma get_connection_queue_eq:
  assumes "demux_inv env lsd sys" "live sys lsd e"
  shows "get_connection_queue sys (ctx_of e) = Ret (Some (backlog_of lsd sys))"
proof -
  have "listening (ctx_of e) \<and> bound (ctx_of e)" using demux_invD(4) [OF assms(1)] live_unique [OF assms(2)] by blast
  moreover have "my_sd (ctx_of e) = lsd" by (rule table_okD [OF demux_invD(2) [OF assms(1)] assms(2)])
  ultimately show ?thesis
    using hash.lookup_abs [OF demux_invD(3) [OF assms(1)], of lsd] demux_invD(5) [OF assms(1)]
    by (simp add: get_connection_queue_def)
qed

lemma demux_inv_set_queue:
  assumes "demux_inv env lsd sys" "hash_wf MAX_NUM_CONNECTIONS t" "hash_abs t = (hash_abs (listen_table sys))(lsd \<mapsto> q)"
    "queue_ok q" "set (slots q) \<subseteq> set (slots (backlog_of lsd sys))"
  shows "demux_inv env lsd (sys\<lparr>listen_table := t\<rparr>) \<and> backlog_of lsd (sys\<lparr>listen_table := t\<rparr>) = q"
proof -
  have "backlog_of lsd (sys\<lparr>listen_table := t\<rparr>) = q" using assms(3) by (simp add: backlog_of_def)
  then show ?thesis using assms by (auto simp: demux_inv_def)
qed

lemma dequeue_step:
  assumes inv: "demux_inv env lsd sys" and r: "ready_sds (backlog_of lsd sys) = sd # rest"
  shows "\<exists>sys'. mysock_dequeue_connection sys lsd = Ret (sd, sys') \<and> demux_inv env lsd sys'
    \<and> ready_sds (backlog_of lsd sys') = rest \<and> waiting_sds lsd sys' = waiting_sds lsd sys
    \<and> max_len (backlog_of lsd sys') = max_len (backlog_of lsd sys)"
proof -
  let ?q = "backlog_of lsd sys"
  from r obtain p cs where p: "completed_queue ?q = p # cs" "sd = cr_sd (connection_queue ?q ! snd p)"
    by (auto simp: ready_sds_def)
  define q' where "q' = ?q\<lparr>completed_queue := cs, connection_queue := (connection_queue ?q)[snd p := free_request],
      cur_len := cur_len ?q - 1\<rparr>"
  note ok = demux_invD(6) [OF inv]
  note acc = queue_ok_accept [OF ok p(1) q'_def]
  obtain e where e: "live sys lsd e" "listening (ctx_of e)" "bound (ctx_of e)" using demux_invD(4) [OF inv] by blast
  have my: "my_sd (ctx_of e) = lsd" by (rule table_okD [OF demux_invD(2) [OF inv] e(1)])
  obtain n where n: "live sys sd n" "my_sd (ctx_of n) = sd"
    using demux_invD(7) [OF inv, of sd] ready_in_slots [OF ok] r table_okD [OF demux_invD(2) [OF inv]] by auto
  obtain t where t: "put_queue sys lsd q' = Ret (sys\<lparr>listen_table := t\<rparr>)" "hash_wf MAX_NUM_CONNECTIONS t"
      "hash_abs t = (hash_abs (listen_table sys))(lsd \<mapsto> q')"
    by (rule put_queue_ok [OF demux_invD(3) [OF inv]])
  have "mysock_dequeue_connection sys lsd = Ret (sd, sys\<lparr>listen_table := t\<rparr>)"
    using e my p n t(1) acc get_connection_queue_eq [OF inv e(1)]
    by (simp add: mysock_dequeue_connection_def q'_def)
  moreover have "demux_inv env lsd (sys\<lparr>listen_table := t\<rparr>) \<and> backlog_of lsd (sys\<lparr>listen_table := t\<rparr>) = q'"
    by (rule demux_inv_set_queue [OF inv t(2,3)]) (use acc in auto)
  moreover have "set (slots q') - set (ready_sds q') = set (slots ?q) - set (ready_sds ?q)"
    using acc r distinct_ready [OF ok] by auto
  ultimately show ?thesis using acc r by (auto simp: waiting_sds_def q'_def)
qed

lemma complete_step:
  assumes inv: "demux_inv env lsd sys" and sd: "sd \<in> waiting_sds lsd sys"
  shows "\<exists>sys'. mysock_passive_connection_complete sys sd = Ret sys' \<and> demux_inv env lsd sys'
    \<and> ready_sds (backlog_of lsd sys') = ready_sds (backlog_of lsd sys) @ [sd]
    \<and> waiting_sds lsd sys' = waiting_sds lsd sys - {sd}
    \<and> max_len (backlog_of lsd sys') = max_len (backlog_of lsd sys)"
proof -
  let ?q = "backlog_of lsd sys"
  note ok = demux_invD(6) [OF inv]
  have s: "sd \<in> set (slots ?q)" "sd \<notin> set (ready_sds ?q)" "sd \<noteq> -1" using sd by (auto simp: waiting_sds_def slots_def)
  then obtain i where i: "i < length (connection_queue ?q)" "cr_sd (connection_queue ?q ! i) = sd"
    by (auto simp: slots_def in_set_conv_nth)
  then obtain k where k: "k < length (connection_queue ?q)" "cr_sd (connection_queue ?q ! k) = sd"
      "find_slot (\<lambda>r. cr_sd r = sd) (connection_queue ?q) (unat (max_len ?q)) = Ret (Some k)"
    using find_slot_Some [of "unat (max_len ?q)" "connection_queue ?q" i "\<lambda>r. cr_sd r = sd"] queue_okD(1) [OF ok] by auto
  define q' where "q' = ?q\<lparr>completed_queue := completed_queue ?q @ [(allocation ?q, k)]\<rparr>"
  note cmp = queue_ok_complete [OF ok k(1,2) s(3,2) q'_def]
  obtain e where e: "live sys lsd e" using demux_invD(4) [OF inv] by blast
  have my: "my_sd (ctx_of e) = lsd" by (rule table_okD [OF demux_invD(2) [OF inv] e])
  obtain n where n: "live sys sd n" "my_sd (ctx_of n) = sd" "listen_sd (ctx_of n) = lsd"
    using demux_invD(7) [OF inv s(1)] table_okD [OF demux_invD(2) [OF inv]] by auto
  obtain t where t: "put_queue sys lsd q' = Ret (sys\<lparr>listen_table := t\<rparr>)" "hash_wf MAX_NUM_CONNECTIONS t"
      "hash_abs t = (hash_abs (listen_table sys))(lsd \<mapsto> q')"
    by (rule put_queue_ok [OF demux_invD(3) [OF inv]])
  have "0 \<le> lsd" using e by (simp add: live_def)
  then have "mysock_passive_connection_complete sys sd = Ret (sys\<lparr>listen_table := t\<rparr>)"
    using e my n k(3) t(1) get_connection_queue_eq [OF inv e]
    by (simp add: mysock_passive_connection_complete_def q'_def)
  moreover have "demux_inv env lsd (sys\<lparr>listen_table := t\<rparr>) \<and> backlog_of lsd (sys\<lparr>listen_table := t\<rparr>) = q'"
    by (rule demux_inv_set_queue [OF inv t(2,3)]) (use cmp in auto)
  ultimately show ?thesis using cmp by (auto simp: waiting_sds_def q'_def)
qed


section \<open>Arrival of a request\<close>

definition new_entry :: "os_calls \<Rightarrow> nat \<Rightarrow> bool \<Rightarrow> int \<Rightarrow> mysock_entry" where
  "new_entry env n reliable sd =
     \<lparr>ctx_of = \<lparr>is_active = False, stcp_state = 0, network_state = \<lparr>is_reliable = reliable, local_addr = zero_sockaddr,
          peer_addr = zero_sockaddr, peer_addr_len = 0, peer_addr_valid = False, random_seed = 0x632a, copied = False,
          copy_buffer = [], net_port = 0, interface_ip = os_interface_ip env, net_out = []\<rparr>,
        bound = False, listening = False, my_sd = sd, listen_sd = -1, blocking = True, stcp_errno = 0,
        transport_thread_started = False, close_requested = False, eof = False, network_recv_queue = [],
        app_send_queue = [], app_recv_queue = []\<rparr>,
      tcp_of = \<lparr>recv_thread_started = False, socket = os_socket env n, new_socket = -1, connected = False\<rparr>\<rparr>"

lemma new_mysocket_Some:
  assumes "env_ok env" "first_free (global_ctx sys) = Some k"
  shows "mysock_new_mysocket env sys reliable = Ret (Inr (int k),
    put_entry (sys\<lparr>n_sockets := Suc (n_sockets sys)\<rparr>) (int k) (new_entry env (n_sockets sys) reliable (int k)))"
  using assms by (simp add: mysock_new_mysocket_def mysock_allocate_context_def network_init_defs Let_def env_ok_def
      new_entry_def put_entry_def)

lemma new_mysocket_None:
  assumes "env_ok env" "first_free (global_ctx sys) = None"
  shows "mysock_new_mysocket env sys reliable = Ret (Inl EMFILE,
    sys\<lparr>n_sockets := Suc (n_sockets sys), closed_fds := closed_fds sys @ [os_socket env (n_sockets sys)]\<rparr>)"
  using assms by (simp add: mysock_new_mysocket_def mysock_allocate_context_def network_init_defs Let_def env_ok_def
      mysock_free_context_def network_close_defs)

lemma new_entry_simps [simp]:
  "my_sd (ctx_of (new_entry env n r sd)) = sd" "listening (ctx_of (new_entry env n r sd)) = False"
  "is_active (ctx_of (new_entry env n r sd)) = False" "socket (tcp_of (new_entry env n r sd)) = os_socket env n"
  "network_recv_queue (ctx_of (new_entry env n r sd)) = []"
  by (simp_all add: new_entry_def)

lemma live_others [simp]:
  "live (sys\<lparr>n_sockets := x\<rparr>) = live sys" "live (sys\<lparr>closed_fds := y\<rparr>) = live sys"
  "table_ok (sys\<lparr>n_sockets := x\<rparr>) = table_ok sys" "table_ok (sys\<lparr>closed_fds := y\<rparr>) = table_ok sys"
  by (simp_all add: live_def table_ok_def fun_eq_iff)

text \<open>The mysocket of a new connection, and the listening one afterwards.\<close>

definition passive_entry :: "os_calls \<Rightarrow> mysock_sys \<Rightarrow> mysock_entry \<Rightarrow> int \<Rightarrow> sockaddr_in \<Rightarrow> bytes \<Rightarrow> mysock_entry" where
  "passive_entry env sys acc sd peer packet =
     (let e = new_entry env (n_sockets sys) (is_reliable (network_state (ctx_of acc))) sd; c = ctx_of e
      in \<lparr>ctx_of = c\<lparr>listen_sd := my_sd (ctx_of acc), transport_thread_started := True, network_recv_queue := [packet],
            network_state := (network_state c)\<lparr>peer_addr := peer, peer_addr_len := 16, peer_addr_valid := True,
              net_port := net_port (network_state (ctx_of acc))\<rparr>\<rparr>,
          tcp_of = (tcp_of e)\<lparr>recv_thread_started := True, socket := new_socket (tcp_of acc), connected := True\<rparr>\<rparr>)"

definition accepted_entry :: "mysock_entry \<Rightarrow> mysock_entry" where
  "accepted_entry acc = acc\<lparr>tcp_of := (tcp_of acc)\<lparr>new_socket := -1\<rparr>\<rparr>"

lemma establish_ok:
  assumes inv: "demux_inv env lsd sys" and acc: "live sys lsd acc"
    and k: "first_free (global_ctx sys) = Some k"
  shows "\<exists>t. establish env sys lsd q i packet peer 16 = Ret (True,
      put_entry (put_entry (sys\<lparr>n_sockets := Suc (n_sockets sys), listen_table := t,
          closed_fds := closed_fds sys @ [os_socket env (n_sockets sys)]\<rparr>) lsd (accepted_entry acc))
        (int k) (passive_entry env sys acc (int k) peer packet))
    \<and> hash_wf MAX_NUM_CONNECTIONS t \<and> hash_abs t = (hash_abs (listen_table sys))(lsd \<mapsto>
      q\<lparr>connection_queue := (connection_queue q)[i := \<lparr>cr_peer_addr = Some peer, cr_peer_addr_len = 16, cr_sd = int k\<rparr>]\<rparr>)"
proof -
  have my: "my_sd (ctx_of acc) = lsd" by (rule table_okD [OF demux_invD(2) [OF inv] acc])
  have kl: "k < length (global_ctx sys)" "global_ctx sys ! k = None" using first_free_Some [OF k] by auto
  have ne: "lsd \<noteq> int k" "nat lsd \<noteq> k" using kl acc by (auto simp: live_def)
  have lsd: "0 \<le> lsd" "lsd < int (length (global_ctx sys))" using acc by (auto simp: live_def)
  let ?e = "new_entry env (n_sockets sys) (is_reliable (network_state (ctx_of acc))) (int k)"
  let ?s1 = "put_entry (sys\<lparr>n_sockets := Suc (n_sockets sys)\<rparr>) (int k) ?e"
  let ?q = "q\<lparr>connection_queue := (connection_queue q)[i := \<lparr>cr_peer_addr = Some peer, cr_peer_addr_len = 16, cr_sd = int k\<rparr>]\<rparr>"
  have "hash_wf MAX_NUM_CONNECTIONS (listen_table ?s1)" using demux_invD(3) [OF inv] by simp
  then obtain t where t: "put_queue ?s1 lsd ?q = Ret (?s1\<lparr>listen_table := t\<rparr>)" "hash_wf MAX_NUM_CONNECTIONS t"
      "hash_abs t = (hash_abs (listen_table ?s1))(lsd \<mapsto> ?q)"
    by (rule put_queue_ok)
  have new: "mysock_new_mysocket env sys (is_reliable (network_state (ctx_of acc))) = Ret (Inr (int k), ?s1)"
    by (rule new_mysocket_Some [OF demux_invD(1) [OF inv] k])
  have live1: "live ?s1 (int k) ?e" using kl by (simp add: live_put_entry)
  have "establish env sys lsd q i packet peer 16 = Ret (True,
      put_entry (put_entry (sys\<lparr>n_sockets := Suc (n_sockets sys), listen_table := t,
          closed_fds := closed_fds sys @ [os_socket env (n_sockets sys)]\<rparr>) lsd (accepted_entry acc))
        (int k) (passive_entry env sys acc (int k) peer packet))"
    using my kl ne lsd acc live1 t(1)
    by (simp add: establish_def new Let_def network_update_passive_state_def mysock_transport_init_def network_start_recv_thread_def put_ctx_def
        put_ctx_def put_entry_swap [of "int k" lsd] passive_entry_def accepted_entry_def,
      simp (no_asm) add: new_entry_def)
  then show ?thesis using t(2,3) by auto
qed

definition is_syn :: "bytes \<Rightarrow> bool" where
  "is_syn packet \<longleftrightarrow> sizeof_tcphdr \<le> length packet \<and> th_flags (ld_struct 20 dec_tcp packet 0) AND TH_SYN \<noteq> 0"

definition known_peer :: "listen_queue \<Rightarrow> sockaddr_in \<Rightarrow> bool" where
  "known_peer q peer \<longleftrightarrow> (\<exists>r \<in> set (connection_queue q). cr_peer_addr r = Some peer)"

lemma enqueue_eq:
  assumes inv: "demux_inv env lsd sys" and q: "q = backlog_of lsd sys"
  shows "mysock_enqueue_connection env sys lsd packet peer 16 =
    (if is_syn packet \<and> \<not> known_peer q peer \<and> cur_len q < max_len q then
       run_bind (find_slot (\<lambda>r. cr_sd r < 0) (connection_queue q) (unat (max_len q))) (\<lambda>slot.
         case slot of None \<Rightarrow> Crash AssertFailed
         | Some k \<Rightarrow> run_bind (assert_run (cr_sd (connection_queue q ! k) = -1)) (\<lambda>_.
             establish env sys lsd (q\<lparr>cur_len := cur_len q + 1\<rparr>) k packet peer 16))
     else Ret (False, sys))"
proof -
  obtain e where e: "live sys lsd e" "listening (ctx_of e)" "bound (ctx_of e)" using demux_invD(4) [OF inv] by blast
  have my: "my_sd (ctx_of e) = lsd" by (rule table_okD [OF demux_invD(2) [OF inv] e(1)])
  have "retransmission (connection_queue q) (unat (max_len q)) peer 16 = Ret (known_peer q peer)"
    using retransmission_eq [OF queue_okD(4) [OF demux_invD(6) [OF inv]], of peer] queue_okD(1) [OF demux_invD(6) [OF inv]]
    by (simp add: known_peer_def q)
  then show ?thesis
    using e my get_connection_queue_eq [OF inv e(1)]
    by (simp add: mysock_enqueue_connection_def is_syn_def q [symmetric] not_less [where 'a = nat])
qed

lemma free_slot:
  assumes ok: "queue_ok q" and room: "cur_len q < max_len q"
  obtains k where "find_slot (\<lambda>r. cr_sd r < 0) (connection_queue q) (unat (max_len q)) = Ret (Some k)"
    "k < length (connection_queue q)" "connection_queue q ! k = free_request"
proof -
  have "length (slots q) < length (map cr_sd (connection_queue q))"
    using room queue_okD(1,2) [OF ok] by (simp add: word_less_nat_alt)
  moreover have "slots q = map cr_sd (connection_queue q)" if "\<forall>r \<in> set (connection_queue q). cr_sd r \<noteq> -1"
    unfolding slots_def by (rule filter_True) (use that in auto)
  ultimately have "\<exists>r \<in> set (connection_queue q). cr_sd r = -1" by (metis less_irrefl)
  then have "\<exists>i < length (connection_queue q). cr_sd (connection_queue q ! i) = -1" by (auto simp: in_set_conv_nth)
  then obtain i where i: "i < length (connection_queue q)" "cr_sd (connection_queue q ! i) < 0" by auto
  with find_slot_Some [of "unat (max_len q)" "connection_queue q" i "\<lambda>r. cr_sd r < 0"] queue_okD(1) [OF ok]
  obtain k where k: "k < length (connection_queue q)" "cr_sd (connection_queue q ! k) < 0"
    "find_slot (\<lambda>r. cr_sd r < 0) (connection_queue q) (unat (max_len q)) = Ret (Some k)" by auto
  moreover from list_all_nth_request [OF ok k(1)] k(2) have "connection_queue q ! k = free_request"
    by (auto simp: request_ok_def)
  ultimately show thesis using that by blast
qed

lemma arrive_new:
  assumes inv: "demux_inv env lsd sys" and q: "q = backlog_of lsd sys"
    and new: "is_syn packet" "\<not> known_peer q peer" "cur_len q < max_len q" and j: "first_free (global_ctx sys) = Some j"
    and acc: "live sys lsd acc"
  shows "\<exists>sys'. mysock_enqueue_connection env sys lsd packet peer 16 = Ret (True, sys') \<and> demux_inv env lsd sys'
    \<and> (\<forall>sd e. live sys' sd e \<longleftrightarrow> (if sd = int j then e = passive_entry env sys acc (int j) peer packet
          else if sd = lsd then e = accepted_entry acc else live sys sd e))
    \<and> set (slots (backlog_of lsd sys')) = insert (int j) (set (slots q)) \<and> int j \<notin> set (slots q)
    \<and> ready_sds (backlog_of lsd sys') = ready_sds q \<and> max_len (backlog_of lsd sys') = max_len q"
proof -
  note ok = demux_invD(6) [OF inv, folded q]
  obtain k where k: "find_slot (\<lambda>r. cr_sd r < 0) (connection_queue q) (unat (max_len q)) = Ret (Some k)"
    "k < length (connection_queue q)" "connection_queue q ! k = free_request"
    by (rule free_slot [OF ok new(3)])
  have jl: "j < length (global_ctx sys)" "global_ctx sys ! j = None" using first_free_Some [OF j] by auto
  then have dead: "\<not> live sys (int j) e" for e by (simp add: live_def)
  have ne: "lsd \<noteq> int j" using acc dead by metis
  have lsd: "0 \<le> lsd" "lsd < int (length (global_ctx sys))" "my_sd (ctx_of acc) = lsd"
    using acc table_okD [OF demux_invD(2) [OF inv] acc] by (auto simp: live_def)
  have js: "int j \<notin> set (slots q)" using demux_invD(7) [OF inv, of "int j"] dead q by auto
  let ?r = "\<lparr>cr_peer_addr = Some peer, cr_peer_addr_len = 16, cr_sd = int j\<rparr>"
  define q' where "q' = q\<lparr>cur_len := cur_len q + 1, connection_queue := (connection_queue q)[k := ?r]\<rparr>"
  have tk: "queue_ok q' \<and> set (slots q') = insert (int j) (set (slots q)) \<and> ready_sds q' = ready_sds q"
    using queue_ok_take [OF ok k(2) _ _ _ _ new(3) q'_def] k(3) js by (simp add: request_ok_def)
  obtain t where t: "establish env sys lsd (q\<lparr>cur_len := cur_len q + 1\<rparr>) k packet peer 16 = Ret (True,
      put_entry (put_entry (sys\<lparr>n_sockets := Suc (n_sockets sys), listen_table := t,
          closed_fds := closed_fds sys @ [os_socket env (n_sockets sys)]\<rparr>) lsd (accepted_entry acc))
        (int j) (passive_entry env sys acc (int j) peer packet))"
      "hash_wf MAX_NUM_CONNECTIONS t" "hash_abs t = (hash_abs (listen_table sys))(lsd \<mapsto> q')"
    using establish_ok [OF inv acc j, of "q\<lparr>cur_len := cur_len q + 1\<rparr>" k packet peer] by (auto simp: q'_def)
  define sys' where "sys' = put_entry (put_entry (sys\<lparr>n_sockets := Suc (n_sockets sys), listen_table := t,
          closed_fds := closed_fds sys @ [os_socket env (n_sockets sys)]\<rparr>) lsd (accepted_entry acc))
        (int j) (passive_entry env sys acc (int j) peer packet)"
  have lv: "live sys' sd e \<longleftrightarrow> (if sd = int j then e = passive_entry env sys acc (int j) peer packet
      else if sd = lsd then e = accepted_entry acc else live sys sd e)" for sd e
    using jl lsd by (simp add: sys'_def live_put_entry)
  have bl: "backlog_of lsd sys' = q'" "hash_abs (listen_table sys') lsd = Some q'" "listen_table sys' = t"
    using t(3) by (simp_all add: backlog_of_def sys'_def)
  have "table_ok sys'"
    unfolding sys'_def by (intro table_ok_put_entry)
      (use demux_invD(2) [OF inv] lsd in \<open>simp_all add: passive_entry_def accepted_entry_def Let_def\<close>)
  moreover have "\<exists>e. live sys' lsd e \<and> listening (ctx_of e) \<and> bound (ctx_of e)"
    using demux_invD(4) [OF inv] live_unique [OF acc] ne by (auto simp: lv accepted_entry_def)
  moreover have "sd \<noteq> lsd \<and> (\<exists>e. live sys' sd e \<and> listen_sd (ctx_of e) = lsd)" if "sd \<in> set (slots q')" for sd
  proof (cases "sd = int j")
    case True
    then show ?thesis using ne lsd(3) by (simp add: lv passive_entry_def Let_def)
  next
    case False
    with that tk have "sd \<in> set (slots (backlog_of lsd sys))" by (simp add: q)
    then show ?thesis using demux_invD(7) [OF inv] False by (simp add: lv)
  qed
  ultimately have "demux_inv env lsd sys'"
    using demux_invD(1) [OF inv] t(2) tk bl by (simp add: demux_inv_def)
  moreover have "mysock_enqueue_connection env sys lsd packet peer 16 = Ret (True, sys')"
    using enqueue_eq [OF inv q, of packet peer] new k t(1) by (simp add: sys'_def)
  ultimately show ?thesis
    using lv tk js bl by (intro exI [of _ sys']) (simp add: q'_def)
qed

lemma demux_inv_fields:
  assumes "demux_inv env lsd sys"
  shows "demux_inv env lsd (sys\<lparr>n_sockets := a, closed_fds := b\<rparr>)"
    "backlog_of lsd (sys\<lparr>n_sockets := a, closed_fds := b\<rparr>) = backlog_of lsd sys"
  using assms by (simp_all add: demux_inv_def backlog_of_def)

lemma arrive_dropped:
  assumes inv: "demux_inv env lsd sys" and q: "q = backlog_of lsd sys"
    and drop: "\<not> is_syn packet \<or> known_peer q peer \<or> \<not> cur_len q < max_len q \<or> first_free (global_ctx sys) = None"
  shows "\<exists>sys'. mysock_enqueue_connection env sys lsd packet peer 16 = Ret (False, sys') \<and> demux_inv env lsd sys'
    \<and> backlog_of lsd sys' = q \<and> global_ctx sys' = global_ctx sys"
proof (cases "is_syn packet \<and> \<not> known_peer q peer \<and> cur_len q < max_len q")
  case False
  then show ?thesis using enqueue_eq [OF inv q, of packet peer] inv q by auto
next
  case True
  then have nf: "first_free (global_ctx sys) = None" using drop by blast
  note ok = demux_invD(6) [OF inv, folded q]
  obtain k where k: "find_slot (\<lambda>r. cr_sd r < 0) (connection_queue q) (unat (max_len q)) = Ret (Some k)"
    "k < length (connection_queue q)" "connection_queue q ! k = free_request"
    using free_slot [OF ok] True by blast
  obtain e where e: "live sys lsd e" using demux_invD(4) [OF inv] by blast
  have my: "my_sd (ctx_of e) = lsd" by (rule table_okD [OF demux_invD(2) [OF inv] e])
  define sys1 where "sys1 = sys\<lparr>n_sockets := Suc (n_sockets sys), closed_fds := closed_fds sys @ [os_socket env (n_sockets sys)]\<rparr>"
  have inv1: "demux_inv env lsd sys1" "backlog_of lsd sys1 = q"
    using demux_inv_fields [OF inv] q by (simp_all add: sys1_def)
  obtain t where t: "put_queue sys1 lsd q = Ret (sys1\<lparr>listen_table := t\<rparr>)" "hash_wf MAX_NUM_CONNECTIONS t"
      "hash_abs t = (hash_abs (listen_table sys1))(lsd \<mapsto> q)"
    by (rule put_queue_ok [OF demux_invD(3) [OF inv1(1)]])
  have same: "(connection_queue q)[k := free_request] = connection_queue q" using k(3) by (metis list_update_id)
  have "establish env sys lsd (q\<lparr>cur_len := cur_len q + 1\<rparr>) k packet peer 16 = Ret (False, sys1\<lparr>listen_table := t\<rparr>)"
    using e my t(1) new_mysocket_None [OF demux_invD(1) [OF inv] nf]
    by (simp add: establish_def same sys1_def)
  moreover have "demux_inv env lsd (sys1\<lparr>listen_table := t\<rparr>) \<and> backlog_of lsd (sys1\<lparr>listen_table := t\<rparr>) = q"
    using demux_inv_set_queue [OF inv1(1) t(2,3)] ok inv1(2) by simp
  ultimately show ?thesis
    using enqueue_eq [OF inv q, of packet peer] True k by (auto simp: sys1_def)
qed

interpretation demux: accept_queue
  "demux_inv env lsd" "waiting_sds lsd" "\<lambda>sys. ready_sds (backlog_of lsd sys)" "\<lambda>sys. unat (max_len (backlog_of lsd sys))"
  "\<lambda>sys (packet, peer). mysock_enqueue_connection env sys lsd packet peer 16"
  mysock_passive_connection_complete "\<lambda>sys. mysock_dequeue_connection sys lsd"
  for env lsd
proof (unfold_locales, goal_cases)
  case (1 sys a)
  obtain packet peer where a: "a = (packet, peer)" by (cases a)
  let ?q = "backlog_of lsd sys"
  show ?case
  proof (cases "\<not> is_syn packet \<or> known_peer ?q peer \<or> \<not> cur_len ?q < max_len ?q \<or> first_free (global_ctx sys) = None")
    case True
    then obtain sys' where "mysock_enqueue_connection env sys lsd packet peer 16 = Ret (False, sys')" "demux_inv env lsd sys'"
      "backlog_of lsd sys' = ?q" using arrive_dropped [OF 1 refl] by blast
    then show ?thesis by (intro exI [of _ False] exI [of _ sys']) (simp add: a waiting_sds_def)
  next
    case False
    then obtain j where j: "first_free (global_ctx sys) = Some j" by auto
    obtain acc where "live sys lsd acc" using demux_invD(4) [OF 1] by blast
    with arrive_new [OF 1 refl _ _ _ j this, of packet peer] False
    obtain sys' where n: "mysock_enqueue_connection env sys lsd packet peer 16 = Ret (True, sys')" "demux_inv env lsd sys'"
      "set (slots (backlog_of lsd sys')) = insert (int j) (set (slots ?q))" "int j \<notin> set (slots ?q)"
      "ready_sds (backlog_of lsd sys') = ready_sds ?q" "max_len (backlog_of lsd sys') = max_len ?q" by blast
    have "int j \<notin> set (ready_sds ?q)" using n(4) ready_in_slots [OF demux_invD(6) [OF 1]] by blast
    then have "waiting_sds lsd sys' = insert (int j) (waiting_sds lsd sys)" "int j \<notin> waiting_sds lsd sys \<union> set (ready_sds ?q)"
      using n(3-5) by (auto simp: waiting_sds_def)
    then show ?thesis using n(1,2,5,6) by (intro exI [of _ True] exI [of _ sys']) (simp only: a prod.case if_True, blast)
  qed
next
  case (2 sys sd)
  then show ?case using complete_step [of env lsd sys sd] by auto
next
  case (3 sys)
  then obtain e where e: "live sys lsd e" "listening (ctx_of e)" "bound (ctx_of e)" using demux_invD(4) by blast
  moreover have "my_sd (ctx_of e) = lsd" by (rule table_okD [OF demux_invD(2) [OF 3(1)] e(1)])
  ultimately show ?case
    using 3(2) get_connection_queue_eq [OF 3(1) e(1)] by (simp add: mysock_dequeue_connection_def ready_sds_def)
next
  case (4 sys sd rest)
  then show ?case using dequeue_step [OF 4] by auto
next
  case (5 sys)
  note ok = demux_invD(6) [OF 5]
  have "card (set (slots (backlog_of lsd sys)) - set (ready_sds (backlog_of lsd sys))) + length (ready_sds (backlog_of lsd sys))
      = length (slots (backlog_of lsd sys))"
    using ready_in_slots [OF ok] distinct_ready [OF ok] queue_okD(3) [OF ok]
    by (simp add: card_Diff_subset distinct_card [symmetric] card_mono)
  also have "\<dots> \<le> unat (max_len (backlog_of lsd sys))"
    using queue_okD(1) [OF ok] length_filter_le by (metis length_map slots_def)
  finally show ?case by (simp add: waiting_sds_def)
next
  case (6 sys)
  then show ?case using distinct_ready [OF demux_invD(6)] by (auto simp: waiting_sds_def)
qed


section \<open>Sequences of events\<close>

text \<open>
  What happens to a listening socket: requests arrive, connections in the handshake are completed by their
  transport threads, and the application accepts. \<open>cs\<close> and \<open>as\<close> are the descriptors completed and accepted so far.
\<close>

inductive demux_run :: "os_calls \<Rightarrow> int \<Rightarrow> mysock_sys \<Rightarrow> int list \<Rightarrow> int list \<Rightarrow> mysock_sys \<Rightarrow> bool"
  for env lsd s where
  start: "demux_run env lsd s [] [] s"
| arrival: "demux_run env lsd s cs as s1 \<Longrightarrow> mysock_enqueue_connection env s1 lsd packet peer 16 = Ret (b, s2) \<Longrightarrow>
    demux_run env lsd s cs as s2"
| completion: "demux_run env lsd s cs as s1 \<Longrightarrow> sd \<in> waiting_sds lsd s1 \<Longrightarrow>
    mysock_passive_connection_complete s1 sd = Ret s2 \<Longrightarrow> demux_run env lsd s (cs @ [sd]) as s2"
| acceptance: "demux_run env lsd s cs as s1 \<Longrightarrow> mysock_dequeue_connection s1 lsd = Ret (sd, s2) \<Longrightarrow>
    demux_run env lsd s cs (as @ [sd]) s2"

lemma demux_run_run: "demux_run env lsd s cs as s' \<Longrightarrow> demux.run lsd env s cs as s'"
proof (induction rule: demux_run.induct)
  case (arrival cs as s1 packet peer b s2)
  then show ?case using demux.run.arrival [of lsd env s cs as s1 "(packet, peer)"] by simp
next
  case (completion cs as s1 sd s2)
  show ?case by (rule demux.run.completion [OF completion.IH completion.hyps(2,3)])
next
  case (acceptance cs as s1 sd s2)
  show ?case by (rule demux.run.acceptance [OF acceptance.IH acceptance.hyps(2)])
qed (rule demux.run.start)

text \<open>The empty backlog after \<^verbatim>\<open>mylisten\<close>.\<close>

lemma listen_queue_new:
  "queue_ok ((grow_queue \<lparr>local_port = port, max_len = 0, cur_len = 0, connection_queue = [], allocation = 0,
      completed_queue = []\<rparr> n)\<lparr>max_len := n\<rparr>)"
  "slots ((grow_queue \<lparr>local_port = port, max_len = 0, cur_len = 0, connection_queue = [], allocation = 0,
      completed_queue = []\<rparr> n)\<lparr>max_len := n\<rparr>) = []"
  "ready_sds ((grow_queue \<lparr>local_port = port, max_len = 0, cur_len = 0, connection_queue = [], allocation = 0,
      completed_queue = []\<rparr> n)\<lparr>max_len := n\<rparr>) = []"
proof -
  show sl: "slots ((grow_queue \<lparr>local_port = port, max_len = 0, cur_len = 0, connection_queue = [], allocation = 0,
      completed_queue = []\<rparr> n)\<lparr>max_len := n\<rparr>) = []"
    by (auto simp: slots_def grow_queue_def filter_empty_conv)
  then show "queue_ok ((grow_queue \<lparr>local_port = port, max_len = 0, cur_len = 0, connection_queue = [], allocation = 0,
      completed_queue = []\<rparr> n)\<lparr>max_len := n\<rparr>)"
    by (auto simp: queue_ok_def grow_queue_def list_all_iff request_ok_def word_gt_0)
qed (auto simp: ready_sds_def grow_queue_def)

lemma mylisten_inv:
  assumes ok: "env_ok env" "table_ok sys" "hash_wf MAX_NUM_CONNECTIONS (listen_table sys)"
    and new: "hash_abs (listen_table sys) sd = None"
    and e: "live sys sd e" "bound (ctx_of e)" "net_port (network_state (ctx_of e)) \<noteq> 0" "0 \<le> socket (tcp_of e)"
    and os: "0 \<le> os_listen env (socket (tcp_of e)) backlog"
  shows "\<exists>s0. mylisten env sys sd backlog = Ret (Inr 0, s0) \<and> demux_inv env sd s0
    \<and> ready_sds (backlog_of sd s0) = [] \<and> waiting_sds sd s0 = {} \<and> max_len (backlog_of sd s0) = of_int backlog + 1
    \<and> live s0 sd (network_start_recv_thread (e\<lparr>ctx_of := (ctx_of e)\<lparr>listening := True\<rparr>\<rparr>))"
proof -
  define e1 where "e1 = e\<lparr>ctx_of := (ctx_of e)\<lparr>listening := True\<rparr>\<rparr>"
  define sys1 where "sys1 = put_entry sys sd e1"
  define port where "port = ntohs (net_port (network_state (ctx_of e)))"
  define q where "q = \<lparr>local_port = port, max_len = 0, cur_len = 0, connection_queue = [], allocation = 0,
      completed_queue = []\<rparr>"
  define q1 where "q1 = (grow_queue q (of_int backlog + 1))\<lparr>max_len := of_int backlog + 1\<rparr>"
  have sd: "0 \<le> sd" "sd < int (length (global_ctx sys))" using e(1) by (auto simp: live_def)
  have my: "my_sd (ctx_of e) = sd" "my_sd (ctx_of e1) = sd" using table_okD [OF ok(2) e(1)] by (simp_all add: e1_def)
  have port: "port > 0" using e(3) by (metis bswap16_0 bswap16_eq_iff port_def word_neq_0_conv)
  have l1: "live sys1 sd e1" using sd by (simp add: sys1_def live_put_entry)
  have gq: "get_connection_queue sys1 (ctx_of e1) = Ret None"
    using hash.lookup_abs [OF ok(3), of sd] new e(2) my
    by (simp add: get_connection_queue_def e1_def sys1_def)
  obtain t where t: "hash_insert HASH_DEFAULT_HASH_FN (listen_table sys1) sd q = Inr t" "hash_wf MAX_NUM_CONNECTIONS t"
      "hash_abs t = (hash_abs (listen_table sys))(sd \<mapsto> q)"
    using hash.insert_new [OF ok(3) new, of q] by (auto simp: sys1_def)
  obtain t2 where t2: "put_queue (sys1\<lparr>listen_table := t\<rparr>) sd q1 = Ret (sys1\<lparr>listen_table := t2\<rparr>)"
      "hash_wf MAX_NUM_CONNECTIONS t2" "hash_abs t2 = (hash_abs t)(sd \<mapsto> q1)"
    using put_queue_ok [of "sys1\<lparr>listen_table := t\<rparr>" sd q1] t(2) by auto
  have lp: "local_port q = port" by (simp add: q_def)
  have sb: "mysock_set_backlog sys1 sd (of_int backlog) = Ret (sys1\<lparr>listen_table := t2\<rparr>)"
    using l1 my e(2) port gq t(1) t2(1) lp
    by (simp add: mysock_set_backlog_def e1_def port_def [symmetric] q_def [symmetric] q1_def Let_def)
  define e2 where "e2 = network_start_recv_thread e1"
  define s0 where "s0 = put_entry (sys\<lparr>listen_table := t2\<rparr>) sd e2"
  have "mylisten env sys sd backlog = Ret (Inr 0, s0)"
    using e my sb os sd
    by (simp add: mylisten_def put_ctx_def e1_def [symmetric] sys1_def [symmetric])
      (simp add: sys1_def s0_def e2_def)
  moreover have bl: "backlog_of sd s0 = q1" "hash_abs (listen_table s0) sd = Some q1"
    using t2(3) by (simp_all add: backlog_of_def s0_def)
  moreover have "queue_ok q1" "slots q1 = []" "ready_sds q1 = []" "max_len q1 = of_int backlog + 1"
    using listen_queue_new [where port = port and n = "of_int backlog + 1"] by (simp_all add: q1_def q_def)
  moreover have "live s0 sd e2" using sd by (simp add: s0_def live_put_entry)
  moreover have "table_ok s0"
    unfolding s0_def by (rule table_ok_put_entry) (use ok(2) my sd in \<open>simp_all add: e2_def network_start_recv_thread_def\<close>)
  moreover have "listening (ctx_of e2)" "bound (ctx_of e2)"
    using e(2) by (simp_all add: e2_def e1_def network_start_recv_thread_def)
  ultimately show ?thesis
    using ok(1) t2(2) unfolding e1_def [symmetric] e2_def [symmetric]
    by (intro exI [of _ s0]) (auto simp: demux_inv_def waiting_sds_def s0_def)
qed


section \<open>Properties\<close>

text \<open>
  C28: after \<^verbatim>\<open>mylisten\<close>, whatever requests arrive and however handshakes complete and the application accepts,
  connections are accepted in exactly the order in which their handshakes were completed; at most the backlog
  plus one connections are queued, each with a descriptor of its own; and no call faults: a request is
  always queued or dropped, every connection in the handshake can complete, and accepting waits exactly when no
  connection is ready.
\<close>

theorem accept_fifo:
  assumes "env_ok env" "table_ok sys" "hash_wf MAX_NUM_CONNECTIONS (listen_table sys)"
    and "hash_abs (listen_table sys) sd = None" "live sys sd e" "bound (ctx_of e)"
    and "net_port (network_state (ctx_of e)) \<noteq> 0" "0 \<le> socket (tcp_of e)"
    and "0 \<le> os_listen env (socket (tcp_of e)) backlog" "0 \<le> backlog" "backlog < 2 ^ 31"
    and "mylisten env sys sd backlog = Ret (Inr 0, s0)" "demux_run env sd s0 cs as s1"
  shows "cs = as @ ready_sds (backlog_of sd s1) \<and> distinct (ready_sds (backlog_of sd s1))
    \<and> card (waiting_sds sd s1) + length (ready_sds (backlog_of sd s1)) \<le> nat backlog + 1
    \<and> (\<forall>packet peer. \<exists>b s2. mysock_enqueue_connection env s1 sd packet peer 16 = Ret (b, s2))
    \<and> (\<forall>w \<in> waiting_sds sd s1. \<exists>s2. mysock_passive_connection_complete s1 w = Ret s2)
    \<and> (if ready_sds (backlog_of sd s1) = [] then mysock_dequeue_connection s1 sd = Block
       else \<exists>s2. mysock_dequeue_connection s1 sd = Ret (hd (ready_sds (backlog_of sd s1)), s2))"
proof -
  obtain s0' where "mylisten env sys sd backlog = Ret (Inr 0, s0')" "demux_inv env sd s0'"
      "ready_sds (backlog_of sd s0') = []" "max_len (backlog_of sd s0') = of_int backlog + 1"
    using mylisten_inv [OF assms(1-9)] by blast
  then have s0: "demux_inv env sd s0" "ready_sds (backlog_of sd s0) = []" "max_len (backlog_of sd s0) = of_int backlog + 1"
    using assms(12) by simp_all
  note r = demux_run_run [OF assms(13)]
  have fifo: "demux_inv env sd s1" "cs = as @ ready_sds (backlog_of sd s1)"
    "unat (max_len (backlog_of sd s1)) = unat (of_int backlog + 1 :: u32)"
    using demux.run_fifo [OF r s0(1)] s0(2,3) by auto
  have "unat (of_int backlog + 1 :: u32) = nat backlog + 1"
  proof -
    have "(of_int backlog + 1 :: u32) = of_nat (nat backlog + 1)" using assms(10) by simp
    moreover have "nat backlog + 1 < 2 ^ 32" using assms(10,11) by simp
    ultimately show ?thesis by (simp only: unsigned_of_nat take_bit_eq_mod) (simp add: mod_less)
  qed
  then have "card (waiting_sds sd s1) + length (ready_sds (backlog_of sd s1)) \<le> nat backlog + 1"
    using demux.within_cap [OF fifo(1)] fifo(3) by simp
  moreover have "\<exists>b s2. mysock_enqueue_connection env s1 sd packet peer 16 = Ret (b, s2)" for packet peer
    using demux.run_progress [OF r s0(1), of "(packet, peer)"] by simp
  moreover have "\<exists>s2. mysock_passive_connection_complete s1 w = Ret s2" if "w \<in> waiting_sds sd s1" for w
    using demux.run_progress [OF r s0(1)] that by blast
  moreover have "if ready_sds (backlog_of sd s1) = [] then mysock_dequeue_connection s1 sd = Block
       else \<exists>s2. mysock_dequeue_connection s1 sd = Ret (hd (ready_sds (backlog_of sd s1)), s2)"
    using demux.run_progress [OF r s0(1)] demux.accept_wait [OF fifo(1)] by simp
  ultimately show ?thesis
    using fifo(2) demux.apart [OF fifo(1)] by blast
qed

text \<open>
  C30: a SYN packet of a peer that is not queued yet, with room in the backlog and in the descriptor table, gets a new
  mysocket with the first free descriptor: it has the TCP connection that the listening socket has just
  accepted, the address of the peer, and the SYN packet as its only input, and its threads are started. The
  listening socket gives the connection away, and all other mysockets are unchanged.
\<close>

theorem syn_gets_mysocket:
  assumes "demux_inv env lsd sys" "is_syn packet" "\<not> known_peer (backlog_of lsd sys) peer"
    and "cur_len (backlog_of lsd sys) < max_len (backlog_of lsd sys)" "first_free (global_ctx sys) = Some j" "live sys lsd acc"
  shows "\<exists>sys' n. mysock_enqueue_connection env sys lsd packet peer 16 = Ret (True, sys')
    \<and> live sys' (int j) n \<and> listen_sd (ctx_of n) = lsd \<and> \<not> is_active (ctx_of n) \<and> network_recv_queue (ctx_of n) = [packet]
    \<and> peer_addr (network_state (ctx_of n)) = peer \<and> socket (tcp_of n) = new_socket (tcp_of acc)
    \<and> connected (tcp_of n) \<and> transport_thread_started (ctx_of n) \<and> recv_thread_started (tcp_of n)
    \<and> live sys' lsd (acc\<lparr>tcp_of := (tcp_of acc)\<lparr>new_socket := -1\<rparr>\<rparr>)
    \<and> (\<forall>sd e. sd \<noteq> lsd \<longrightarrow> sd \<noteq> int j \<longrightarrow> live sys' sd e = live sys sd e)
    \<and> waiting_sds lsd sys' = insert (int j) (waiting_sds lsd sys)"
proof -
  obtain sys' where sys': "mysock_enqueue_connection env sys lsd packet peer 16 = Ret (True, sys')"
    "\<And>sd e. live sys' sd e \<longleftrightarrow> (if sd = int j then e = passive_entry env sys acc (int j) peer packet
          else if sd = lsd then e = accepted_entry acc else live sys sd e)"
    "set (slots (backlog_of lsd sys')) = insert (int j) (set (slots (backlog_of lsd sys)))"
    "int j \<notin> set (slots (backlog_of lsd sys))" "ready_sds (backlog_of lsd sys') = ready_sds (backlog_of lsd sys)"
    using arrive_new [OF assms(1) refl assms(2-6)] by blast
  have ne: "lsd \<noteq> int j" using assms(6) first_free_Some [OF assms(5)] by (auto simp: live_def)
  have w: "waiting_sds lsd sys' = insert (int j) (waiting_sds lsd sys)"
    using sys'(3-5) ready_in_slots [OF demux_invD(6) [OF assms(1)]] by (auto simp: waiting_sds_def)
  have "my_sd (ctx_of acc) = lsd" by (rule table_okD [OF demux_invD(2) [OF assms(1)] assms(6)])
  then show ?thesis
    using sys'(1) w ne
    by (intro exI [of _ sys'] exI [of _ "passive_entry env sys acc (int j) peer packet"])
      (simp add: sys'(2) accepted_entry_def, simp add: passive_entry_def Let_def new_entry_def)
qed

end
