(* ===== verification/Mysock_Props.thy ===== *)
theory Mysock_Props
  imports Demux_Props
begin

text \<open>
  Properties of the mysocket layer as a whole: packets over the TCP connection between two mysockets, the
  descriptor table, and what happens to a listening socket when a request is dropped.
\<close>

section \<open>Packets between two mysockets\<close>

fun tcp_send_all ::
  "'s writer \<Rightarrow> int \<Rightarrow> network_context \<Rightarrow> network_context_socket_tcp \<Rightarrow> 's \<Rightarrow> bytes list \<Rightarrow> 's res" where
  "tcp_send_all wr conn ctx tcp s [] = Inr s"
| "tcp_send_all wr conn ctx tcp s (p # ps) =
     rbind (tcp_send_packet wr conn ctx tcp s p) (\<lambda>(rc, tcp1, s1). tcp_send_all wr conn ctx tcp1 s1 ps)"

lemma tcp_send_all_ok:
  assumes "writer_ok wr sent" "connected tcp" "0 \<le> socket tcp" "0 < peer_addr_len ctx"
  shows "\<exists>s'. tcp_send_all wr conn ctx tcp s ps = Inr s' \<and> sent s' = sent s @ concat (map frame_packet ps)"
proof (induction ps arbitrary: s)
  case (Cons p ps)
  obtain s1 where s1: "tcp_send_packet wr conn ctx tcp s p = Inr (int (length p), tcp, s1)" "sent s1 = sent s @ frame_packet p"
    using tcp_send_packet_ok [OF assms] by blast
  then show ?case using Cons.IH [of s1] by auto
qed simp

definition always_ready :: "('s \<Rightarrow> poll_result \<times> 's) \<Rightarrow> ('s \<Rightarrow> bytes) \<Rightarrow> bool" where
  "always_ready pl contents \<longleftrightarrow> (\<forall>s. \<exists>s'. pl s = (Poll_Ready 0 1, s') \<and> contents s' = contents s)"

definition receives :: "mysock_entry \<Rightarrow> bool" where
  "receives e \<longleftrightarrow> \<not> listening (ctx_of e) \<and> 0 \<le> socket (tcp_of e) \<and> (is_active (ctx_of e) \<longrightarrow> connected (tcp_of e))"

definition add_input :: "mysock_entry \<Rightarrow> bytes list \<Rightarrow> mysock_entry" where
  "add_input e ps = e\<lparr>ctx_of := (ctx_of e)\<lparr>network_recv_queue := network_recv_queue (ctx_of e) @ ps\<rparr>\<rparr>"

lemma tcp_recv_packet_plain:
  "receives e \<Longrightarrow> tcp_recv_packet rd conn acc (ctx_of e) (tcp_of e) s k =
     rbind (tcp_recv_frame rd s k) (\<lambda>(rc, dst, s1). Inr (rc, dst, ctx_of e, tcp_of e, s1))"
  by (simp add: receives_def tcp_recv_packet_def tcp_connect_def guard_def)

lemma put_entry_id: "live sys sd e \<Longrightarrow> put_entry sys sd e = sys"
  using list_update_id [of "global_ctx sys" "nat sd"] by (simp add: live_def put_entry_def)

lemma recv_round_packet:
  assumes "reader_ok rd contents intr" "steady rd" "live sys sd e" "my_sd (ctx_of e) = sd" "receives e"
    and "contents s = frame_packet p @ rest" "p \<noteq> []" "length p \<le> MAX_IP_PAYLOAD_LEN"
  shows "\<exists>s'. recv_round env rd conn acc sys sd s = Ret (True, put_entry sys sd (add_input e [p]), s') \<and> contents s' = rest"
proof -
  obtain s' where s': "tcp_recv_frame rd s MAX_IP_PAYLOAD_LEN = Inr (int (length p), p, s')" "contents s' = rest"
    using tcp_recv_frame_ok [OF assms(1,2,6,7,8)] assms(8) by (auto simp: MAX_IP_PAYLOAD_LEN_def)
  then show ?thesis
    using assms(3,4,5,7,8) tcp_recv_packet_plain [OF assms(5), of rd conn acc s]
    by (cases e) (simp add: recv_round_def receives_def add_input_def)
qed

lemma recv_round_eof:
  assumes "ends rd contents" "live sys sd e" "my_sd (ctx_of e) = sd" "receives e" "contents s = []"
  shows "\<exists>s'. recv_round env rd conn acc sys sd s = Ret (False, sys, s')"
proof -
  obtain s' where "rd s 2 = (Got [], s')" using assms(1,5) unfolding ends_def by (metis zero_less_numeral)
  then have "tcp_recv_frame rd s MAX_IP_PAYLOAD_LEN = Inr (0, [], s')"
    by (simp add: tcp_recv_frame_def tcp_io_read.simps [of rd s 2])
  then show ?thesis
    using assms(2,3) tcp_recv_packet_plain [OF assms(4), of rd conn acc s] put_entry_id [OF assms(2)]
    by (cases e) (simp add: recv_round_def)
qed

lemma poll_ready:
  assumes "always_ready pl contents"
  shows "\<exists>s'. poll_loop pl s = Some (Ret (False, s')) \<and> contents s' = contents s"
proof -
  obtain s' where "pl s = (Poll_Ready 0 1, s')" "contents s' = contents s" using assms unfolding always_ready_def by blast
  then show ?thesis by (subst poll_loop.simps) (simp add: POLLERR_def)
qed

lemma recv_thread_packets:
  assumes ok: "reader_ok rd contents intr" "steady rd" "ends rd contents" "always_ready pl contents"
  shows "live sys sd e \<Longrightarrow> my_sd (ctx_of e) = sd \<Longrightarrow> receives e \<Longrightarrow> contents s = concat (map frame_packet ps) \<Longrightarrow>
    \<forall>p \<in> set ps. p \<noteq> [] \<and> length p \<le> MAX_IP_PAYLOAD_LEN \<Longrightarrow>
    \<exists>s'. network_recv_thread_func env rd pl conn acc sys sd s = Some (Ret (put_entry sys sd (add_input e ps), s'))"
proof (induction ps arbitrary: sys e s)
  case Nil
  obtain s1 where s1: "poll_loop pl s = Some (Ret (False, s1))" "contents s1 = contents s" using poll_ready [OF ok(4)] by blast
  obtain s' where "recv_round env rd (conn s1) (acc s1) sys sd s1 = Ret (False, sys, s')"
    using recv_round_eof [OF ok(3) Nil(1-3), of s1] s1(2) Nil(4) by fastforce
  then show ?case
    using s1(1) put_entry_id [OF Nil(1)] by (subst network_recv_thread_func.simps) (simp add: add_input_def)
next
  case (Cons p ps)
  obtain s1 where s1: "poll_loop pl s = Some (Ret (False, s1))" "contents s1 = contents s" using poll_ready [OF ok(4)] by blast
  obtain s2 where s2: "recv_round env rd (conn s1) (acc s1) sys sd s1 = Ret (True, put_entry sys sd (add_input e [p]), s2)"
      "contents s2 = concat (map frame_packet ps)"
    using recv_round_packet [OF ok(1,2) Cons.prems(1-3), of s1 p "concat (map frame_packet ps)" env "conn s1" "acc s1"]
      s1(2) Cons.prems(4,5) by auto
  have "live (put_entry sys sd (add_input e [p])) sd (add_input e [p])"
    using Cons.prems(1) by (subst live_put_entry) (auto simp: live_def)
  moreover have "my_sd (ctx_of (add_input e [p])) = sd" "receives (add_input e [p])"
    using Cons.prems(2,3) by (simp_all add: add_input_def receives_def)
  ultimately obtain s' where "network_recv_thread_func env rd pl conn acc (put_entry sys sd (add_input e [p])) sd s2
      = Some (Ret (put_entry (put_entry sys sd (add_input e [p])) sd (add_input (add_input e [p]) ps), s'))"
    using Cons.IH [of "put_entry sys sd (add_input e [p])" "add_input e [p]" s2] s2(2) Cons.prems(5) by auto
  then show ?case
    using s1(1) s2(1) by (subst network_recv_thread_func.simps) (simp add: add_input_def)
qed

text \<open>
  C29: packets that one mysocket sends over its TCP connection reach the receive queue of the other in order and
  unchanged, whatever pieces the operating system writes and reads: when the sender has sent packets of 1 to 1500
  bytes and closed the connection, the receiving thread returns and has appended exactly these packets.
\<close>

theorem packets_delivered:
  assumes "writer_ok wr sent" "connected tcp" "0 \<le> socket tcp" "0 < peer_addr_len net" "sent w = []"
    and "reader_ok rd contents intr" "steady rd" "ends rd contents" "always_ready pl contents"
    and "table_ok sys" "live sys sd e" "receives e" "\<forall>p \<in> set ps. p \<noteq> [] \<and> length p \<le> MAX_IP_PAYLOAD_LEN"
  shows "\<exists>w'. tcp_send_all wr conn net tcp w ps = Inr w' \<and>
    (\<forall>s. contents s = sent w' \<longrightarrow>
      (\<exists>s' sys' e'. network_recv_thread_func env rd pl cn acc sys sd s = Some (Ret (sys', s'))
        \<and> live sys' sd e' \<and> network_recv_queue (ctx_of e') = network_recv_queue (ctx_of e) @ ps
        \<and> (\<forall>sd' d. sd' \<noteq> sd \<longrightarrow> live sys' sd' d = live sys sd' d)))"
proof -
  obtain w' where w': "tcp_send_all wr conn net tcp w ps = Inr w'" "sent w' = concat (map frame_packet ps)"
    using tcp_send_all_ok [OF assms(1-4), where conn = conn and s = w and ps = ps] assms(5) by auto
  have sd: "0 \<le> sd" "sd < int (length (global_ctx sys))" using assms(11) by (auto simp: live_def)
  have "\<exists>s' sys' e'. network_recv_thread_func env rd pl cn acc sys sd s = Some (Ret (sys', s'))
        \<and> live sys' sd e' \<and> network_recv_queue (ctx_of e') = network_recv_queue (ctx_of e) @ ps
        \<and> (\<forall>sd' d. sd' \<noteq> sd \<longrightarrow> live sys' sd' d = live sys sd' d)" if c: "contents s = sent w'" for s
  proof -
    obtain s' where "network_recv_thread_func env rd pl cn acc sys sd s = Some (Ret (put_entry sys sd (add_input e ps), s'))"
      using recv_thread_packets [OF assms(6-9) assms(11) table_okD [OF assms(10,11)] assms(12) _ assms(13), of s] c w'(2) by fastforce
    then show ?thesis
      using sd by (intro exI [of _ s'] exI [of _ "put_entry sys sd (add_input e ps)"] exI [of _ "add_input e ps"])
        (simp add: live_put_entry add_input_def)
  qed
  then show ?thesis using w'(1) by blast
qed

section \<open>Descriptors\<close>

text \<open>
  C33: \<^verbatim>\<open>mysocket\<close> gives the smallest free descriptor and leaves all other mysockets alone; closing the new
  mysocket restores the table and closes its network socket. With no free descriptor the result is \<^verbatim>\<open>EMFILE\<close>, the
  table is unchanged and the socket that was opened is closed again.
\<close>

theorem mysocket_myclose:
  assumes "env_ok env" "table_ok sys"
  shows "case first_free (global_ctx sys) of
      None \<Rightarrow> \<exists>sys1. mysocket env sys reliable = Ret (Inl EMFILE, sys1) \<and> global_ctx sys1 = global_ctx sys
        \<and> closed_fds sys1 = closed_fds sys @ [os_socket env (n_sockets sys)]
    | Some k \<Rightarrow> \<exists>sys1 sys2 e. mysocket env sys reliable = Ret (Inr (int k), sys1) \<and> table_ok sys1
        \<and> (\<forall>i < k. \<exists>d. live sys (int i) d) \<and> (\<nexists>d. live sys (int k) d)
        \<and> (\<forall>sd d. live sys1 sd d \<longleftrightarrow> (if sd = int k then d = e else live sys sd d))
        \<and> is_reliable (network_state (ctx_of e)) = reliable \<and> blocking (ctx_of e)
        \<and> myclose (Suc n) join sys1 (int k) = Ret sys2 \<and> global_ctx sys2 = global_ctx sys
        \<and> closed_fds sys2 = closed_fds sys @ [os_socket env (n_sockets sys)]"
proof (cases "first_free (global_ctx sys)")
  case None
  then show ?thesis using new_mysocket_None [OF assms(1) None] by (simp add: mysocket_def)
next
  case (Some k)
  note k = first_free_Some [OF Some]
  define e where "e = new_entry env (n_sockets sys) reliable (int k)"
  define sys1 where "sys1 = put_entry (sys\<lparr>n_sockets := Suc (n_sockets sys)\<rparr>) (int k) e"
  have "mysocket env sys reliable = Ret (Inr (int k), sys1)"
    using new_mysocket_Some [OF assms(1) Some] by (simp add: mysocket_def sys1_def e_def)
  moreover have "table_ok sys1" unfolding sys1_def
    by (rule table_ok_put_entry) (use assms(2) in \<open>simp_all add: e_def\<close>)
  moreover have "\<forall>i < k. \<exists>d. live sys (int i) d" "\<nexists>d. live sys (int k) d" using k by (auto simp: live_def)
  moreover have "live sys1 sd d \<longleftrightarrow> (if sd = int k then d = e else live sys sd d)" for sd d
    using k by (simp add: sys1_def live_put_entry)
  moreover have "is_reliable (network_state (ctx_of e)) = reliable" "blocking (ctx_of e)"
    by (simp_all add: e_def new_entry_def)
  moreover obtain sys2 where "myclose (Suc n) join sys1 (int k) = Ret sys2" "global_ctx sys2 = global_ctx sys"
      "closed_fds sys2 = closed_fds sys @ [os_socket env (n_sockets sys)]"
  proof -
    have "(global_ctx sys)[k := None] = global_ctx sys" using k by (metis list_update_id)
    then show thesis
      using k assms(1) that by (simp add: sys1_def put_ctx_def e_def new_entry_def mysock_free_context_def network_close_defs network_stop_recv_thread_def
          env_ok_def Let_def) (simp add: put_entry_def)
  qed
  ultimately show ?thesis unfolding Some option.case by blast
qed


section \<open>Dropped requests\<close>

lemma demux_inv_put_listener:
  assumes inv: "demux_inv env lsd sys" and e: "live sys lsd e" "my_sd (ctx_of e') = lsd" "listening (ctx_of e')" "bound (ctx_of e')"
  shows "demux_inv env lsd (put_entry sys lsd e')" "backlog_of lsd (put_entry sys lsd e') = backlog_of lsd sys"
proof -
  have lsd: "0 \<le> lsd" "lsd < int (length (global_ctx sys))" using e(1) by (auto simp: live_def)
  show bl: "backlog_of lsd (put_entry sys lsd e') = backlog_of lsd sys" by (simp add: backlog_of_def)
  have "\<exists>d. live (put_entry sys lsd e') sd d \<and> listen_sd (ctx_of d) = lsd" "sd \<noteq> lsd" if "sd \<in> set (slots (backlog_of lsd sys))" for sd
    using demux_invD(7) [OF inv that] lsd by (auto simp: live_put_entry)
  then show "demux_inv env lsd (put_entry sys lsd e')"
    using demux_invD [OF inv] bl lsd e(3,4) table_ok_put_entry [OF demux_invD(2) [OF inv] e(2) lsd(1)]
    by (auto simp: demux_inv_def live_put_entry)
qed

definition full_or_known :: "listen_queue \<Rightarrow> bytes \<Rightarrow> sockaddr_in \<Rightarrow> bool" where
  "full_or_known q packet peer \<longleftrightarrow> \<not> is_syn packet \<or> known_peer q peer \<or> \<not> cur_len q < max_len q"

text \<open>
  C31: a request that the listening socket drops, because the backlog is full, the peer is queued already or the
  packet is not a SYN, leaves the accepted TCP connection in \<^verbatim>\<open>new_socket\<close>: the receiving thread goes on, and the
  next connection it accepts, from whatever peer, ends in a failed assertion.
\<close>

theorem dropped_request_crashes:
  assumes "demux_inv env lsd sys" "live sys lsd e" "\<not> is_active (ctx_of e)" "0 \<le> socket (tcp_of e)" "new_socket (tcp_of e) = -1"
    and "reader_ok rd contents intr" "steady rd" "contents s = frame_packet packet @ rest"
    and "packet \<noteq> []" "length packet \<le> MAX_IP_PAYLOAD_LEN" "full_or_known (backlog_of lsd sys) packet peer" "0 \<le> fd" "0 \<le> fd2"
  shows "\<exists>sys' s'. recv_round env rd conn (fd, peer) sys lsd s = Ret (True, sys', s')
    \<and> recv_round env rd2 conn2 (fd2, peer2) sys' lsd s2 = Crash AssertFailed"
proof -
  have my: "my_sd (ctx_of e) = lsd" by (rule table_okD [OF demux_invD(2) [OF assms(1)] assms(2)])
  have lst: "listening (ctx_of e)" "bound (ctx_of e)" using demux_invD(4) [OF assms(1)] live_unique [OF assms(2)] by blast+
  define c1 where "c1 = (ctx_of e)\<lparr>network_state := (network_state (ctx_of e))\<lparr>peer_addr_len := 16, peer_addr := peer\<rparr>\<rparr>"
  define e1 where "e1 = \<lparr>ctx_of = c1, tcp_of = (tcp_of e)\<lparr>new_socket := fd\<rparr>\<rparr>"
  obtain s1 where "tcp_recv_frame rd s MAX_IP_PAYLOAD_LEN = Inr (int (length packet), packet, s1)"
    using tcp_recv_frame_ok [OF assms(6-10)] assms(10) by (auto simp: MAX_IP_PAYLOAD_LEN_def)
  then have rp: "tcp_recv_packet rd conn (fd, peer) (ctx_of e) (tcp_of e) s MAX_IP_PAYLOAD_LEN
      = Inr (int (length packet), packet, c1, (tcp_of e)\<lparr>new_socket := fd\<rparr>, s1)"
    using assms(3-5,12) lst by (simp add: tcp_recv_packet_def guard_def c1_def)
  have my1: "my_sd (ctx_of e1) = lsd" "listening (ctx_of e1)" "bound (ctx_of e1)" using my lst by (simp_all add: e1_def c1_def)
  note inv1 = demux_inv_put_listener [OF assms(1,2) my1]
  have "\<exists>sys'. mysock_enqueue_connection env (put_entry sys lsd e1) lsd packet peer 16 = Ret (False, sys')
      \<and> demux_inv env lsd sys' \<and> backlog_of lsd sys' = backlog_of lsd sys \<and> global_ctx sys' = global_ctx (put_entry sys lsd e1)"
    using assms(11) by (intro arrive_dropped [OF inv1(1) inv1(2) [symmetric]]) (auto simp: full_or_known_def)
  then obtain sys' where sys': "mysock_enqueue_connection env (put_entry sys lsd e1) lsd packet peer 16 = Ret (False, sys')"
      "demux_inv env lsd sys'" "global_ctx sys' = global_ctx (put_entry sys lsd e1)" by blast
  have "live (put_entry sys lsd e1) lsd e1" using assms(2) by (subst live_put_entry) (auto simp: live_def)
  then have l: "live sys' lsd e1" using sys'(3) by (simp add: live_def)
  have "peer_addr (network_state c1) = peer" "peer_addr_len (network_state c1) = 16" "listening c1"
    using lst by (simp_all add: c1_def)
  then have "recv_round env rd conn (fd, peer) sys lsd s = Ret (True, sys', s1)"
    using assms(2,9,10) my rp sys'(1) by (simp add: recv_round_def e1_def [symmetric] Let_def)
  moreover have "recv_round env rd2 conn2 (fd2, peer2) sys' lsd s2 = Crash AssertFailed"
    using l my1 assms(3,4,12,13) by (simp add: recv_round_def tcp_recv_packet_def guard_def e1_def c1_def)
  ultimately show ?thesis by blast
qed

end
