(* ===== verification/Mysock_Examples.thy ===== *)
theory Mysock_Examples
  imports Mysock_Props
begin

text \<open>A process with one bound mysocket, and the theorems about the mysocket layer applied to it.\<close>

section \<open>The process\<close>

definition demo_os :: os_calls where
  "demo_os = \<lparr>os_socket = (\<lambda>k. int k + 10), os_pipe = (\<lambda>_. 0), os_bind = (\<lambda>_ a. (0, sin_port a)),
     os_listen = (\<lambda>_ _. 0), os_interface_ip = (\<lambda>_. 0x0100007F)\<rparr>"

definition demo_bound :: mysock_entry where
  "demo_bound = (new_entry demo_os 0 True 0)\<lparr>ctx_of := (ctx_of (new_entry demo_os 0 True 0))\<lparr>bound := True,
     network_state := (network_state (ctx_of (new_entry demo_os 0 True 0)))\<lparr>net_port := 0x5000, peer_addr_len := 16\<rparr>\<rparr>\<rparr>"

definition demo_process :: mysock_sys where
  "demo_process = \<lparr>global_ctx = (replicate MAX_NUM_CONNECTIONS None)[0 := Some demo_bound],
     listen_table = replicate MAX_NUM_CONNECTIONS [], n_sockets = 1, closed_fds = []\<rparr>"

definition demo_syn :: bytes where
  "demo_syn = replicate 13 0 @ [2] @ replicate 6 0"

definition demo_peer :: sockaddr_in where
  "demo_peer = \<lparr>sin_port = 0x1234, sin_addr = 0x0100007F\<rparr>"

definition demo_listening :: mysock_sys where
  "demo_listening = (case mylisten demo_os demo_process 0 2 of Ret (_, s) \<Rightarrow> s | _ \<Rightarrow> demo_process)"

lemma demo_os_ok: "env_ok demo_os"
  by (simp add: env_ok_def demo_os_def)

lemma demo_bound_simps:
  "my_sd (ctx_of demo_bound) = 0" "bound (ctx_of demo_bound)" "net_port (network_state (ctx_of demo_bound)) = 0x5000"
  "socket (tcp_of demo_bound) = 10" "listening (ctx_of demo_bound) = False" "is_active (ctx_of demo_bound) = False"
  "network_recv_queue (ctx_of demo_bound) = []" "peer_addr_len (network_state (ctx_of demo_bound)) = 16"
  by (simp_all add: demo_bound_def new_entry_def demo_os_def)

lemma demo_live: "live demo_process 0 demo_bound"
  by (simp add: live_def demo_process_def MAX_NUM_CONNECTIONS_def)

lemma demo_table_ok: "table_ok demo_process"
  by (auto simp: table_ok_def demo_process_def nth_list_update demo_bound_simps split: if_splits)

lemma demo_hash: "hash_wf MAX_NUM_CONNECTIONS (listen_table demo_process)" "hash_abs (listen_table demo_process) sd = None"
  using hash.inv_empty hash.abs_empty by (auto simp: demo_process_def fun_eq_iff)

lemma demo_listen:
  "mylisten demo_os demo_process 0 2 = Ret (Inr 0, demo_listening)" "demux_inv demo_os 0 demo_listening"
  "ready_sds (backlog_of 0 demo_listening) = []" "waiting_sds 0 demo_listening = {}"
proof -
  obtain s0 where s0: "mylisten demo_os demo_process 0 2 = Ret (Inr 0, s0)" "demux_inv demo_os 0 s0"
    "ready_sds (backlog_of 0 s0) = []" "waiting_sds 0 s0 = {}"
    using mylisten_inv [OF demo_os_ok demo_table_ok demo_hash(1,2) demo_live, of 2] by (auto simp: demo_bound_simps demo_os_def)
  moreover from s0(1) have "demo_listening = s0" by (simp add: demo_listening_def)
  ultimately show "mylisten demo_os demo_process 0 2 = Ret (Inr 0, demo_listening)" "demux_inv demo_os 0 demo_listening"
    "ready_sds (backlog_of 0 demo_listening) = []" "waiting_sds 0 demo_listening = {}" by simp_all
qed

lemma demo_listening_facts:
  "first_free (global_ctx demo_listening) = Some 1" "is_syn demo_syn"
  "connection_queue (backlog_of 0 demo_listening) = replicate 3 free_request"
  "cur_len (backlog_of 0 demo_listening) < max_len (backlog_of 0 demo_listening)"
  by code_simp+

lemma demo_unknown: "\<not> known_peer (backlog_of 0 demo_listening) peer"
  unfolding known_peer_def demo_listening_facts(3) by simp

lemma demo_listener:
  obtains e where "live demo_listening 0 e" "is_active (ctx_of e) = False" "0 \<le> socket (tcp_of e)" "new_socket (tcp_of e) = -1"
proof -
  have "\<exists>e. global_ctx demo_listening ! 0 = Some e" "0 < length (global_ctx demo_listening)"
    using demux_invD(4) [OF demo_listen(2)] by (auto simp: live_def)
  moreover have "map_option (\<lambda>e. is_active (ctx_of e)) (global_ctx demo_listening ! 0) = Some False"
    "map_option (\<lambda>e. socket (tcp_of e)) (global_ctx demo_listening ! 0) = Some 10"
    "map_option (\<lambda>e. new_socket (tcp_of e)) (global_ctx demo_listening ! 0) = Some (-1)"
    by code_simp+
  ultimately show thesis using that by (auto simp: live_def)
qed

section \<open>Witnesses\<close>

theorem accept_fifo_witness:
  "\<exists>s1 s2. demux_run demo_os 0 demo_listening [1] [] s1 \<and> mysock_dequeue_connection s1 0 = Ret (1, s2)"
proof -
  obtain e where e: "live demo_listening 0 e" using demo_listener by blast
  obtain sa where sa: "mysock_enqueue_connection demo_os demo_listening 0 demo_syn demo_peer 16 = Ret (True, sa)"
      "demux_inv demo_os 0 sa" "set (slots (backlog_of 0 sa)) = insert 1 (set (slots (backlog_of 0 demo_listening)))"
      "ready_sds (backlog_of 0 sa) = ready_sds (backlog_of 0 demo_listening)"
    using arrive_new [OF demo_listen(2) refl demo_listening_facts(2) demo_unknown demo_listening_facts(4,1) e, of demo_peer] by auto
  then have w: "1 \<in> waiting_sds 0 sa" using demo_listen(3) by (simp add: waiting_sds_def)
  obtain s1 where s1: "mysock_passive_connection_complete sa 1 = Ret s1" using complete_step [OF sa(2) w] by blast
  have "demux_run demo_os 0 demo_listening [] [] sa"
    by (rule demux_run.arrival [OF demux_run.start sa(1)])
  from demux_run.completion [OF this w s1] have run: "demux_run demo_os 0 demo_listening [1] [] s1" by simp
  have "[1] = [] @ ready_sds (backlog_of 0 s1)"
    "if ready_sds (backlog_of 0 s1) = [] then mysock_dequeue_connection s1 0 = Block
      else \<exists>s2. mysock_dequeue_connection s1 0 = Ret (hd (ready_sds (backlog_of 0 s1)), s2)"
    using accept_fifo [OF demo_os_ok demo_table_ok demo_hash(1,2) demo_live demo_bound_simps(2) _ _ _ _ _ demo_listen(1) run]
    by (simp_all add: demo_bound_simps demo_os_def)
  then show ?thesis using run by (auto simp: eq_commute [of "[1]"])
qed

theorem syn_gets_mysocket_witness:
  "\<exists>sys' n. mysock_enqueue_connection demo_os demo_listening 0 demo_syn demo_peer 16 = Ret (True, sys')
    \<and> live sys' 1 n \<and> network_recv_queue (ctx_of n) = [demo_syn] \<and> waiting_sds 0 sys' = {1}"
proof -
  obtain e where e: "live demo_listening 0 e" using demo_listener by blast
  from syn_gets_mysocket [OF demo_listen(2) demo_listening_facts(2) demo_unknown demo_listening_facts(4,1) e, of demo_peer]
  show ?thesis using demo_listen(4) by auto
qed

theorem dropped_request_crashes_witness:
  "\<exists>sys' s'. recv_round demo_os list_reader 0 (20, demo_peer) demo_listening 0 (frame_packet [1, 2, 3]) = Ret (True, sys', s')
    \<and> recv_round demo_os list_reader 0 (21, demo_peer) sys' 0 (frame_packet demo_syn) = Crash AssertFailed"
proof -
  obtain e where e: "live demo_listening 0 e" "is_active (ctx_of e) = False" "0 \<le> socket (tcp_of e)" "new_socket (tcp_of e) = -1"
    using demo_listener by blast
  have "steady list_reader" by (simp add: steady_def list_reader_def)
  moreover have "full_or_known (backlog_of 0 demo_listening) [1, 2, 3] demo_peer"
    by (simp add: full_or_known_def is_syn_def sizeof_tcphdr_def)
  ultimately show ?thesis
    using dropped_request_crashes [OF demo_listen(2) e(1) _ e(3,4) list_reader_ok, of "frame_packet [1, 2, 3]" "[1, 2, 3]" "[]"
        demo_peer 20 21] e(2) by (simp add: MAX_IP_PAYLOAD_LEN_def)
qed

theorem mysocket_myclose_witness:
  "\<exists>sys1 sys2. mysocket demo_os demo_process True = Ret (Inr 1, sys1) \<and> myclose 1 (\<lambda>s _. Some s) sys1 1 = Ret sys2
    \<and> global_ctx sys2 = global_ctx demo_process"
proof -
  have "first_free (global_ctx demo_process) = Some 1" by code_simp
  then show ?thesis
    using mysocket_myclose [OF demo_os_ok demo_table_ok, of True 0 "\<lambda>s _. Some s"] by (simp del: myclose.simps) blast
qed

text \<open>A socket that takes one byte at a time.\<close>

definition list_writer :: "bytes writer" where
  "list_writer s buf = (1, s @ take 1 buf)"

theorem packets_delivered_witness:
  "\<exists>w'. tcp_send_all list_writer 0 (network_state (ctx_of demo_bound)) ((tcp_of demo_bound)\<lparr>connected := True\<rparr>) []
      [[1, 2], [3]] = Inr w'
    \<and> (\<exists>s' sys' e'. network_recv_thread_func demo_os list_reader (\<lambda>s. (Poll_Ready 0 1, s)) (\<lambda>_. 0) (\<lambda>_. (0, demo_peer))
          demo_process 0 w' = Some (Ret (sys', s'))
        \<and> live sys' 0 e' \<and> network_recv_queue (ctx_of e') = [[1, 2], [3]])"
proof -
  have wr: "writer_ok list_writer (\<lambda>b. b)"
    by (auto simp: writer_ok_def list_writer_def Suc_le_eq)
  have st: "steady list_reader" "ends list_reader (\<lambda>b. b)" "always_ready (\<lambda>s. (Poll_Ready 0 1, s)) (\<lambda>b. b)"
    by (simp_all add: steady_def ends_def always_ready_def list_reader_def)
  have rc: "receives demo_bound" by (simp add: receives_def demo_bound_simps)
  show ?thesis
    using packets_delivered [OF wr _ _ _ _ list_reader_ok st demo_table_ok demo_live rc,
        of "(tcp_of demo_bound)\<lparr>connected := True\<rparr>" "network_state (ctx_of demo_bound)" "[]" "[[1, 2], [3]]" 0 demo_os
        "\<lambda>_. 0" "\<lambda>_. (0, demo_peer)"]
    by (auto simp: demo_bound_simps MAX_IP_PAYLOAD_LEN_def)
qed

end
