(* ===== verification/Mysock_Process.thy ===== *)
theory Mysock_Process
  imports Mysock_Examples
begin

text \<open>
  A process that uses mysockets, in any order of the calls of the application and of what its threads do. The
  descriptor table and the table of listening sockets stay well-formed, so that a call on an open descriptor never
  fails the check of the descriptor. Preservation is proved with postconditions of runs, rule by rule.
\<close>

section \<open>Timed waits\<close>

text \<open>
  \<^verbatim>\<open>stcp_wait_for_event\<close> with flags and a deadline: \<open>wait_cond\<close> is \<^verbatim>\<open>pthread_cond_timedwait\<close>, during which the other threads may
  change the context. Without a timeout or a signal the call does not return.
\<close>

datatype wait_result = Signalled | Interrupted | Timed_Out | Wait_Failed

definition stcp_check_events :: "bool \<Rightarrow> bool \<Rightarrow> mysock_context \<Rightarrow> stcp_event \<times> mysock_context" where
  "stcp_check_events want_app want_net ctx =
     (let cls = (close_requested ctx \<and> app_recv_queue ctx = [])
      in (\<lparr>ev_app_data = want_app \<and> app_recv_queue ctx \<noteq> [], ev_network_data = want_net \<and> network_recv_queue ctx \<noteq> [],
           ev_app_close = cls\<rparr>,
          if cls then ctx\<lparr>close_requested := False\<rparr> else ctx))"

partial_function (option) stcp_timed_wait ::
  "('s \<Rightarrow> mysock_context \<Rightarrow> wait_result \<times> mysock_context \<times> 's) \<Rightarrow> bool \<Rightarrow> bool \<Rightarrow> 's \<Rightarrow> mysock_context
    \<Rightarrow> (stcp_event \<times> mysock_context \<times> 's) run option" where
  "stcp_timed_wait wait_cond want_app want_net s ctx =
     (case stcp_check_events want_app want_net ctx of (ev, ctx1) \<Rightarrow>
        if ev_app_data ev \<or> ev_network_data ev \<or> ev_app_close ev then Some (Ret (ev, ctx1, s))
        else case wait_cond s ctx1 of (r, ctx2, s2) \<Rightarrow>
          if r = Signalled \<or> r = Interrupted then stcp_timed_wait wait_cond want_app want_net s2 ctx2
          else if r = Timed_Out then Some (Ret (ev, ctx2, s2))
          else Some (Crash AssertFailed))"

text \<open>With all events wanted it returns what the call without a deadline returns, if that does not wait.\<close>

lemma timed_wait_agrees:
  "stcp_wait_for_event ctx = Ret (ev, ctx1) \<Longrightarrow> stcp_timed_wait wait_cond True True s ctx = Some (Ret (ev, ctx1, s))"
  by (subst stcp_timed_wait.simps) (auto simp: stcp_wait_for_event_def stcp_check_events_def Let_def split: if_splits)

text \<open>Otherwise it waits, and at the deadline it returns without an event.\<close>

lemma timed_wait_deadline:
  assumes "stcp_wait_for_event ctx = Block" "wait_cond s ctx = (Timed_Out, ctx2, s2)"
  shows "\<exists>ev. stcp_timed_wait wait_cond True True s ctx = Some (Ret (ev, ctx2, s2))
    \<and> \<not> ev_app_data ev \<and> \<not> ev_network_data ev \<and> \<not> ev_app_close ev"
  using assms
  by (subst stcp_timed_wait.simps) (auto simp: stcp_wait_for_event_def stcp_check_events_def Let_def split: if_splits)

section \<open>Postconditions\<close>

definition run_post :: "'a run \<Rightarrow> ('a \<Rightarrow> bool) \<Rightarrow> bool" where
  "run_post r P \<longleftrightarrow> (\<forall>x. r = Ret x \<longrightarrow> P x)"

lemma run_post_simps [simp]:
  "run_post (Ret x) P \<longleftrightarrow> P x" "run_post Block P" "run_post (Crash e) P"
  "run_post (assert_run b) Q \<longleftrightarrow> (b \<longrightarrow> Q ())"
  by (auto simp: run_post_def assert_run_def)

lemma run_post_bind [simp]: "run_post (run_bind r f) P \<longleftrightarrow> run_post r (\<lambda>x. run_post (f x) P)"
  by (cases r) simp_all

lemma run_post_lift [simp]: "run_post (lift_res r) P \<longleftrightarrow> (\<forall>x. r = Inr x \<longrightarrow> P x)"
  by (cases r) (auto simp: run_post_def)

lemma run_post_mono: "run_post r P \<Longrightarrow> (\<And>x. P x \<Longrightarrow> Q x) \<Longrightarrow> run_post r Q"
  by (simp add: run_post_def)

lemma run_post_context:
  assumes "\<And>e. live sys sd e \<Longrightarrow> my_sd (ctx_of e) = sd \<Longrightarrow> run_post (f e) P"
  shows "run_post (with_context sys sd f) P"
proof (cases "\<exists>e. live sys sd e \<and> my_sd (ctx_of e) = sd")
  case True
  then show ?thesis using assms by auto
next
  case False
  then have "with_context sys sd f = Crash AssertFailed"
    by (auto simp: with_context_def mysock_get_context_def verify_mysocket_descriptor_def live_def assert_run_def
        split: option.splits)
  then show ?thesis by simp
qed

lemma run_post_api:
  assumes "\<And>e. live sys sd e \<Longrightarrow> my_sd (ctx_of e) = sd \<Longrightarrow> run_post (f e) P"
  shows "run_post (api_context err sys sd f) P"
proof -
  have "api_context err sys sd f = with_context sys sd f"
    by (auto simp: api_context_def with_context_def mysock_get_context_def verify_mysocket_descriptor_def assert_run_def
        split: option.splits)
  then show ?thesis using run_post_context [OF assms] by simp
qed

lemmas run_posts = run_post_context run_post_api

section \<open>Well-formed processes\<close>

definition proc_ok :: "mysock_sys \<Rightarrow> bool" where
  "proc_ok sys \<longleftrightarrow> table_ok sys \<and> hash_wf MAX_NUM_CONNECTIONS (listen_table sys)"

lemma live_nonneg: "live sys sd e \<Longrightarrow> 0 \<le> sd"
  by (simp add: live_def)

lemma proc_ok_put_entry: "proc_ok sys \<Longrightarrow> my_sd (ctx_of e) = sd \<Longrightarrow> 0 \<le> sd \<Longrightarrow> proc_ok (put_entry sys sd e)"
  using table_ok_put_entry by (auto simp: proc_ok_def)

lemma proc_ok_put_ctx: "proc_ok sys \<Longrightarrow> my_sd (f (ctx_of e)) = sd \<Longrightarrow> 0 \<le> sd \<Longrightarrow> proc_ok (put_ctx sys sd e f)"
  unfolding put_ctx_def by (rule proc_ok_put_entry) simp_all

lemma proc_ok_fields [simp]:
  "proc_ok (sys\<lparr>n_sockets := k\<rparr>) = proc_ok sys" "proc_ok (sys\<lparr>closed_fds := fds\<rparr>) = proc_ok sys"
  by (simp_all add: proc_ok_def table_ok_def)

lemma proc_ok_listen [simp]:
  "proc_ok sys \<Longrightarrow> proc_ok (sys\<lparr>listen_table := t\<rparr>) \<longleftrightarrow> hash_wf MAX_NUM_CONNECTIONS t"
  by (simp add: proc_ok_def table_ok_def)

lemma put_queue_keeps: "proc_ok sys \<Longrightarrow> run_post (put_queue sys sd q) proc_ok"
  using hash_set_ok [of MAX_NUM_CONNECTIONS "listen_table sys" sd q] by (auto simp: put_queue_def proc_ok_def table_ok_def)

lemma update_None: "xs[i := None] ! k = Some e \<Longrightarrow> xs ! k = Some e"
  by (cases "i = k"; cases "k < length xs") (auto simp: list_update_beyond)

lemma free_context_keeps: "proc_ok sys \<Longrightarrow> proc_ok (mysock_free_context sys e b)"
  by (auto simp: mysock_free_context_def network_close_defs proc_ok_def table_ok_def Let_def dest!: update_None)

lemma new_mysocket_keeps:
  assumes "proc_ok sys"
  shows "run_post (mysock_new_mysocket env sys reliable) (\<lambda>(r, s). proc_ok s)"
proof (cases "first_free (global_ctx sys)")
  case None
  then show ?thesis
    using assms free_context_keeps
    by (simp add: mysock_new_mysocket_def mysock_allocate_context_def network_init_defs Let_def)
next
  case (Some k)
  have "proc_ok (put_entry (sys\<lparr>n_sockets := Suc (n_sockets sys)\<rparr>) (int k) e)" if "my_sd (ctx_of e) = int k" for e
    by (rule proc_ok_put_entry) (use assms that in simp_all)
  then show ?thesis
    using Some by (simp add: mysock_new_mysocket_def mysock_allocate_context_def network_init_defs Let_def put_entry_def)
qed

lemmas keeps = run_post_mono [OF put_queue_keeps] run_post_mono [OF new_mysocket_keeps] proc_ok_put_entry proc_ok_put_ctx

lemma transport_init_keeps: "proc_ok sys \<Longrightarrow> run_post (mysock_transport_init sys sd active) proc_ok"
  unfolding mysock_transport_init_def
  by (rule run_post_context) (auto simp: Let_def network_start_recv_thread_def live_nonneg intro!: keeps)

lemma dequeue_keeps: "proc_ok sys \<Longrightarrow> run_post (mysock_dequeue_connection sys sd) (\<lambda>(r, s). proc_ok s)"
  unfolding mysock_dequeue_connection_def
  by (rule run_post_context) (auto split: option.splits list.splits intro!: run_posts keeps simp: run_post_def [of "get_connection_queue _ _"]
      run_post_def [of "get_slot _ _"])

lemma establish_keeps: "proc_ok sys \<Longrightarrow> run_post (establish env sys sd q k packet peer len) (\<lambda>(b, s). proc_ok s)"
  unfolding establish_def
  by (rule run_post_context)
    (auto simp: Let_def network_update_passive_state_def live_nonneg split: sum.splits
      intro!: run_posts keeps run_post_mono [OF transport_init_keeps])

lemma enqueue_keeps: "proc_ok sys \<Longrightarrow> run_post (mysock_enqueue_connection env sys sd packet peer len) (\<lambda>(b, s). proc_ok s)"
  unfolding mysock_enqueue_connection_def
  by (rule run_post_context)
    (auto simp: run_post_def [of "get_connection_queue _ _"] run_post_def [of "retransmission _ _ _ _"]
        run_post_def [of "find_slot _ _ _"] split: option.splits if_splits intro!: establish_keeps)

lemma complete_keeps: "proc_ok sys \<Longrightarrow> run_post (mysock_passive_connection_complete sys sd) proc_ok"
  unfolding mysock_passive_connection_complete_def
  by (rule run_post_context)
    (auto simp: run_post_def [of "get_connection_queue _ _"] run_post_def [of "find_slot _ _ _"]
      split: option.splits intro!: run_posts put_queue_keeps)

lemma unblock_keeps: "proc_ok sys \<Longrightarrow> run_post (stcp_unblock_application sys sd err) proc_ok"
  unfolding stcp_unblock_application_def
  by (rule run_post_context) (auto simp: Let_def live_nonneg intro!: complete_keeps keeps)

lemma set_context_keeps: "proc_ok sys \<Longrightarrow> run_post (stcp_set_context sys sd st) proc_ok"
  unfolding stcp_set_context_def by (rule run_post_context) (auto simp: live_nonneg intro!: keeps)

text \<open>What the transport layer stores is what it gets back; a descriptor that is not open stops both calls.\<close>

lemma stcp_context_stored:
  assumes "proc_ok sys"
  shows "run_bind (stcp_set_context sys sd st) (\<lambda>s. stcp_get_context s sd) =
    (if \<exists>e. live sys sd e then Ret st else Crash AssertFailed)"
proof (cases "\<exists>e. live sys sd e")
  case True
  then obtain e where e: "live sys sd e" by blast
  moreover have "my_sd (ctx_of e) = sd" using assms e by (auto simp: proc_ok_def dest: table_okD)
  moreover have "live (put_ctx sys sd e (\<lambda>c. c\<lparr>stcp_state := st\<rparr>)) sd (e\<lparr>ctx_of := (ctx_of e)\<lparr>stcp_state := st\<rparr>\<rparr>)"
    using e by (auto simp: put_ctx_def put_entry_def live_def)
  ultimately show ?thesis using True by (simp add: stcp_set_context_def stcp_get_context_def)
next
  case False
  then show ?thesis by (simp add: stcp_set_context_def with_context_dead)
qed

lemma thread_exit_keeps: "proc_ok sys \<Longrightarrow> run_post (transport_thread_exit sys sd err) proc_ok"
  unfolding transport_thread_exit_def
  by (rule run_post_context) (auto simp: live_nonneg intro!: run_posts run_post_mono [OF unblock_keeps] keeps)

lemma set_backlog_keeps: "proc_ok sys \<Longrightarrow> run_post (mysock_set_backlog sys sd backlog) proc_ok"
proof -
  assume ok: "proc_ok sys"
  have "hash_wf MAX_NUM_CONNECTIONS t"
    if "hash_lookup_ptr HASH_DEFAULT_HASH_FN (listen_table sys) k = Inr None"
      "hash_insert HASH_DEFAULT_HASH_FN (listen_table sys) k q = Inr t" for k q t
    using that ok hash.lookup_abs [of "listen_table sys" k] hash_insert_ok [of MAX_NUM_CONNECTIONS "listen_table sys" k q]
    by (auto simp: proc_ok_def)
  with ok show ?thesis
    unfolding mysock_set_backlog_def
    by (intro run_post_context)
      (auto simp: Let_def get_connection_queue_def split: option.splits intro!: put_queue_keeps)
qed

section \<open>The calls of the application\<close>

lemma bind_keeps: "proc_ok sys \<Longrightarrow> run_post (mybind env sys sd family addr) (\<lambda>(r, s). proc_ok s)"
  unfolding mybind_def
  by (rule run_post_api) (auto simp: Let_def network_bind_def live_nonneg split: prod.splits intro!: keeps)

lemma bind_ephemeral_keeps: "proc_ok sys \<Longrightarrow> run_post (mysock_bind_ephemeral env sys sd) proc_ok"
  unfolding mysock_bind_ephemeral_def
  by (rule run_post_context) (auto simp: network_bind_def live_nonneg split: prod.splits intro!: keeps)

lemma connect_keeps:
  assumes "proc_ok sys" "\<And>s. proc_ok s \<Longrightarrow> proc_ok (others s)"
  shows "run_post (myconnect env others sys sd name len) (\<lambda>(r, s). proc_ok s)"
  unfolding myconnect_def
proof (rule run_post_api)
  fix e
  assume e: "live sys sd e" "my_sd (ctx_of e) = sd"
  let ?sys1 = "put_ctx sys sd e (\<lambda>c. c\<lparr>network_state := (network_state c)\<lparr>peer_addr := name, peer_addr_len := len, peer_addr_valid := True\<rparr>\<rparr>)"
  have "proc_ok ?sys1" using assms(1) e by (intro proc_ok_put_ctx) (auto simp: live_nonneg)
  then have "run_post (if bound (ctx_of e) then Ret ?sys1 else mysock_bind_ephemeral env ?sys1 sd) proc_ok"
    using bind_ephemeral_keeps by simp
  then show "run_post (if peer_addr_len (network_state (ctx_of e)) \<noteq> 0 then Ret (Inl EISCONN, sys)
      else let sys1 = ?sys1 in run_bind (if bound (ctx_of e) then Ret sys1 else mysock_bind_ephemeral env sys1 sd) (\<lambda>sys2.
        run_bind (mysock_transport_init sys2 sd True) (\<lambda>sys3. let sys4 = others sys3
        in run_bind (mysock_wait_for_connection sys4 sd) (\<lambda>rc. Ret (rc, sys4))))) (\<lambda>(r, s). proc_ok s)"
    using assms by (auto simp: Let_def run_post_def [of "mysock_wait_for_connection _ _"]
        elim!: run_post_mono intro!: run_post_mono [OF transport_init_keeps])
qed

lemma accept_keeps: "proc_ok sys \<Longrightarrow> run_post (myaccept sys sd) (\<lambda>(r, s). proc_ok s)"
  unfolding myaccept_def
  by (rule run_post_api) (auto simp: Let_def intro!: run_posts run_post_mono [OF dequeue_keeps])

lemma listen_keeps: "proc_ok sys \<Longrightarrow> run_post (mylisten env sys sd backlog) (\<lambda>(r, s). proc_ok s)"
  unfolding mylisten_def
  by (rule run_post_context)
    (auto simp: network_start_recv_thread_def live_nonneg intro!: run_posts keeps run_post_mono [OF set_backlog_keeps])

lemma read_write_ctx:
  "run_post (mywrite_ctx c buf) (\<lambda>(r, c'). my_sd c' = my_sd c)" "run_post (myread_ctx c k) (\<lambda>(r, c'). my_sd c' = my_sd c)"
  by (simp add: mywrite_ctx_def, cases "mysock_dequeue_buffer (app_send_queue c) k True") (auto simp: myread_ctx_def Let_def)

lemma write_keeps: "proc_ok sys \<Longrightarrow> run_post (mywrite sys sd buf) (\<lambda>(r, s). proc_ok s)"
  unfolding mywrite_def
  by (rule run_post_api) (auto simp: live_nonneg intro!: keeps run_post_mono [OF read_write_ctx(1)])

lemma read_keeps: "proc_ok sys \<Longrightarrow> run_post (myread sys sd k) (\<lambda>(r, s). proc_ok s)"
  unfolding myread_def
  by (rule run_post_api) (auto simp: live_nonneg intro!: keeps run_post_mono [OF read_write_ctx(2)])

lemma close_slots_keeps:
  "(\<And>s sd. proc_ok s \<Longrightarrow> run_post (cls s sd) proc_ok) \<Longrightarrow> proc_ok sys \<Longrightarrow> run_post (close_slots cls sys rs k) proc_ok"
proof (induction cls sys rs k rule: close_slots.induct)
  case (3 cls sys r rs k)
  have "run_post (if cr_sd r \<noteq> -1 then cls sys (cr_sd r) else Ret sys) proc_ok"
    using 3(2) [OF 3(3), of "cr_sd r"] 3(3) by simp
  then show ?case using 3(1,2) by (auto elim!: run_post_mono)
qed simp_all

lemma close_passive_keeps:
  assumes "\<And>s sd. proc_ok s \<Longrightarrow> run_post (cls s sd) proc_ok" "proc_ok sys"
  shows "run_post (mysock_close_passive_socket cls sys sd) proc_ok"
proof -
  have "hash_wf MAX_NUM_CONNECTIONS t"
    if "proc_ok s" "hash_delete HASH_DEFAULT_HASH_FN (listen_table s) k = Inr t" for s k t
    using that hash_delete_ok [of MAX_NUM_CONNECTIONS "listen_table s" k] by (auto simp: proc_ok_def)
  then show ?thesis
    using assms(2) unfolding mysock_close_passive_socket_def
    by (intro run_post_context)
      (auto simp: run_post_def [of "get_connection_queue _ _"] split: option.splits
        intro!: run_post_mono [OF close_slots_keeps [OF assms(1)]])
qed

lemma close_keeps:
  assumes "\<And>s sd s'. proc_ok s \<Longrightarrow> join s sd = Some s' \<Longrightarrow> proc_ok s'"
  shows "proc_ok sys \<Longrightarrow> run_post (myclose n join sys sd) proc_ok"
proof (induction n arbitrary: sys sd)
  case (Suc n)
  have end_close: "run_post (run_bind (if l then mysock_close_passive_socket (myclose n join) s3 sd else Ret s3)
      (\<lambda>s4. with_context s4 sd (\<lambda>e4. Ret (mysock_free_context s4 e4 True)))) proc_ok" if "proc_ok s3" for s3 l sd
    using that Suc.IH by (cases l) (auto intro!: run_posts free_context_keeps run_post_mono [OF close_passive_keeps])
  have finish: "run_post (with_context s2 sd (\<lambda>e2. run_bind
      (if listening (ctx_of e2) then mysock_close_passive_socket (myclose n join)
           (put_entry s2 sd (network_stop_recv_thread (e2\<lparr>ctx_of := (ctx_of e2)\<lparr>transport_thread_started := False\<rparr>\<rparr>))) sd
       else Ret (put_entry s2 sd (network_stop_recv_thread (e2\<lparr>ctx_of := (ctx_of e2)\<lparr>transport_thread_started := False\<rparr>\<rparr>))))
      (\<lambda>s4. with_context s4 sd (\<lambda>e4. Ret (mysock_free_context s4 e4 True))))) proc_ok" if "proc_ok s2" for s2 sd
    using that
    by (intro run_post_context end_close proc_ok_put_entry) (auto simp: network_stop_recv_thread_def live_nonneg)
  show ?case
    unfolding myclose.simps
    using Suc.prems
    by (intro run_post_context)
      (auto simp: Let_def live_nonneg split: option.splits if_splits intro!: finish proc_ok_put_ctx
        dest: assms [rotated])
qed simp

section \<open>All runs of a process\<close>

text \<open>
  The states that a process can reach: calls of the application, rounds of the receiving threads, and the transport
  threads, which change the context of their mysocket by the functions of the transport interface and unblock the
  application. What happens during a call that waits is again a part of such a run.
\<close>

inductive proc_reach :: "os_calls \<Rightarrow> mysock_sys \<Rightarrow> mysock_sys \<Rightarrow> bool" for env where
  start: "proc_reach env s s"
| mysocket: "proc_reach env s s1 \<Longrightarrow> mysocket env s1 reliable = Ret (r, s2) \<Longrightarrow> proc_reach env s s2"
| mybind: "proc_reach env s s1 \<Longrightarrow> mybind env s1 sd family addr = Ret (r, s2) \<Longrightarrow> proc_reach env s s2"
| mylisten: "proc_reach env s s1 \<Longrightarrow> mylisten env s1 sd backlog = Ret (r, s2) \<Longrightarrow> proc_reach env s s2"
| myconnect: "proc_reach env s s1 \<Longrightarrow> (\<And>t. proc_reach env t (others t)) \<Longrightarrow>
    myconnect env others s1 sd name len = Ret (r, s2) \<Longrightarrow> proc_reach env s s2"
| myaccept: "proc_reach env s s1 \<Longrightarrow> myaccept s1 sd = Ret (ra, s2) \<Longrightarrow> proc_reach env s s2"
| mywrite: "proc_reach env s s1 \<Longrightarrow> mywrite s1 sd buf = Ret (rw, s2) \<Longrightarrow> proc_reach env s s2"
| myread: "proc_reach env s s1 \<Longrightarrow> myread s1 sd k = Ret (rr, s2) \<Longrightarrow> proc_reach env s s2"
| myclose: "proc_reach env s s1 \<Longrightarrow> (\<And>t d t'. join t d = Some t' \<Longrightarrow> proc_reach env t t') \<Longrightarrow>
    myclose n join s1 sd = Ret s2 \<Longrightarrow> proc_reach env s s2"
| receive: "proc_reach env s s1 \<Longrightarrow> recv_round env (rd :: bytes reader) conn acc s1 sd b = Ret (go, s2, b') \<Longrightarrow> proc_reach env s s2"
| transport: "proc_reach env s s1 \<Longrightarrow> live s1 sd e \<Longrightarrow> my_sd (f (ctx_of e)) = my_sd (ctx_of e) \<Longrightarrow>
    proc_reach env s (put_ctx s1 sd e f)"
| set_context: "proc_reach env s s1 \<Longrightarrow> stcp_set_context s1 sd st = Ret s2 \<Longrightarrow> proc_reach env s s2"
| unblock: "proc_reach env s s1 \<Longrightarrow> stcp_unblock_application s1 sd err = Ret s2 \<Longrightarrow> proc_reach env s s2"
| thread_exit: "proc_reach env s s1 \<Longrightarrow> transport_thread_exit s1 sd err = Ret s2 \<Longrightarrow> proc_reach env s s2"

lemma recv_packet_ctx:
  "tcp_recv_packet rd conn acc ctx tcp s k = Inr (rc, dst, c, t, s') \<Longrightarrow> my_sd c = my_sd ctx"
  by (auto simp: tcp_recv_packet_def rbind_eq_Inr_iff Let_def split: if_splits prod.splits)

lemma receive_keeps: "proc_ok sys \<Longrightarrow> run_post (recv_round env rd conn acc sys sd s) (\<lambda>(go, s, b). proc_ok s)"
  unfolding recv_round_def
  by (rule run_post_context)
    (auto simp: Let_def live_nonneg split: if_splits intro!: keeps run_post_mono [OF enqueue_keeps] dest!: recv_packet_ctx)

lemma run_postD: "run_post r P \<Longrightarrow> r = Ret x \<Longrightarrow> P x"
  by (simp add: run_post_def)

lemma reach_keeps: "proc_reach env s s' \<Longrightarrow> proc_ok s \<Longrightarrow> proc_ok s'"
proof (induction rule: proc_reach.induct)
  case (mysocket s s1 reliable r s2)
  then show ?case using run_postD [OF new_mysocket_keeps] by (fastforce simp: mysocket_def)
next
  case (myconnect s s1 others sd name len r s2)
  have "run_post (myconnect env others s1 sd name len) (\<lambda>(r, s). proc_ok s)"
    by (rule connect_keeps) (use myconnect in simp_all)
  then show ?case using myconnect.hyps by (auto simp: run_post_def)
next
  case (myclose s s1 join n sd s2)
  have "run_post (myclose n join s1 sd) proc_ok"
    by (rule close_keeps) (use myclose in \<open>simp_all del: myclose.simps\<close>)
  then show ?case using myclose.hyps by (auto simp: run_post_def simp del: myclose.simps)
next
  case (transport s s1 sd e f)
  then have "my_sd (ctx_of e) = sd" by (auto simp: proc_ok_def dest: table_okD)
  with transport show ?case by (auto simp: live_nonneg intro!: proc_ok_put_ctx)
qed (fastforce dest: run_postD [OF bind_keeps] run_postD [OF listen_keeps] run_postD [OF accept_keeps] run_postD [OF write_keeps]
    run_postD [OF read_keeps] run_postD [OF receive_keeps] run_postD [OF unblock_keeps] run_postD [OF set_context_keeps] run_postD [OF thread_exit_keeps])+

text \<open>
  C32: the tables of a process are well-formed in every state it reaches, whatever its application calls in whatever
  order and whatever its threads do in between: there are 64 descriptors, the table of listening sockets has no
  duplicate keys, and looking up a descriptor gives the context that was stored for it exactly when it is open. The
  assertion that checks descriptors fails only for one that is not open.
\<close>

theorem process_well_formed:
  assumes "proc_reach env s0 s" "table_ok s0" "hash_wf MAX_NUM_CONNECTIONS (listen_table s0)"
  shows "length (global_ctx s) = 64 \<and> hash_wf MAX_NUM_CONNECTIONS (listen_table s)
    \<and> (\<forall>sd e. live s sd e \<longrightarrow> mysock_get_context s sd = Ret (Some e) \<and> my_sd (ctx_of e) = sd)
    \<and> (\<forall>sd. (\<nexists>e. live s sd e) \<longrightarrow> mysock_get_context s sd = Crash AssertFailed)"
proof -
  have ok: "table_ok s" "hash_wf MAX_NUM_CONNECTIONS (listen_table s)"
    using reach_keeps [OF assms(1)] assms(2,3) by (simp_all add: proc_ok_def)
  have "mysock_get_context s sd = Ret (Some e) \<and> my_sd (ctx_of e) = sd" if "live s sd e" for sd e
    using table_okD [OF ok(1) that] that by (simp add: mysock_get_context_def verify_mysocket_descriptor_def live_def)
  moreover have "mysock_get_context s sd = Crash AssertFailed" if "\<nexists>e. live s sd e" for sd
    using that by (auto simp: mysock_get_context_def verify_mysocket_descriptor_def live_def assert_run_def split: option.splits)
  ultimately show ?thesis using ok by (auto simp: table_ok_def MAX_NUM_CONNECTIONS_def)
qed

theorem process_well_formed_witness:
  "\<exists>e. mysock_get_context demo_listening 0 = Ret (Some e) \<and> listening (ctx_of e)"
proof -
  have r: "proc_reach demo_os demo_process demo_listening"
    by (rule proc_reach.mylisten [OF proc_reach.start demo_listen(1)])
  obtain e where e: "live demo_listening 0 e" "listening (ctx_of e)"
    using demo_listen(2) by (auto simp: demux_inv_def)
  then show ?thesis using process_well_formed [OF r demo_table_ok demo_hash(1)] by blast
qed

end
