(* ===== verification/Transport.thy ===== *)
theory Transport
  imports Mysock
begin

text \<open>
  The STCP transport layer (\<^verbatim>\<open>transport.c\<close>): the connection context, the handshake of
  \<^verbatim>\<open>transport_init\<close> one packet at a time, and one iteration of \<^verbatim>\<open>control_loop\<close>. Sizes and sequence
  numbers keep their 64 bits and wrap around; the retransmission buffer is the list of its bytes and an
  access outside of it is a fault. The log files of the connection are not modelled.
\<close>

section \<open>The connection context\<close>

definition RECV_WINDOW_SIZE :: u16 where "RECV_WINDOW_SIZE = 3072"
definition MSS :: u64 where "MSS = 536"

datatype CSTATE =
    CSTATE_CLOSED | CSTATE_LISTEN | CSTATE_SYN_SENT | CSTATE_SYN_RCVD | CSTATE_ESTABLISHED
  | CSTATE_FIN_WAIT_1 | CSTATE_FIN_WAIT_2 | CSTATE_CLOSE_WAIT | CSTATE_LAST_ACK | CSTATE_CLOSING

record context_t =
  conn_done :: bool
  connection_state :: CSTATE
  initial_sequence_num :: u32
  SWND :: u64
  SWND_prev :: u64
  CWND :: u64
  RECV_WIN :: u64
  SendBase :: u64
  RecvBase :: u64
  next_seqnum :: u64
  win_rem :: u64
  buffer :: bytes
  buffer_size :: u64
  new_buffer_size :: u64
  ACK_size :: u64
  is_client :: bool

definition zero_context :: context_t where
  "zero_context = \<lparr>conn_done = False, connection_state = CSTATE_CLOSED, initial_sequence_num = 0,
     SWND = 0, SWND_prev = 0, CWND = 0, RECV_WIN = 0, SendBase = 0, RecvBase = 0, next_seqnum = 0,
     win_rem = 0, buffer = [], buffer_size = 0, new_buffer_size = 0, ACK_size = 0, is_client = False\<rparr>"

definition generate_initial_seq_num :: "context_t \<Rightarrow> context_t" where
  "generate_initial_seq_num ctx = ctx\<lparr>initial_sequence_num := 1\<rparr>"

text \<open>A packet received into a zeroed buffer of \<open>n\<close> bytes.\<close>

definition recv_buffer :: "nat \<Rightarrow> bytes \<Rightarrow> bytes" where
  "recv_buffer n dst = st_bytes (replicate n 0) 0 dst"

section \<open>The handshake\<close>

text \<open>\<^verbatim>\<open>transport_init\<close> up to its loop: the active side sends its SYN.\<close>

definition transport_open ::
  "(u32 \<Rightarrow> u32 \<times> u32) \<Rightarrow> bool \<Rightarrow> mysock_context \<Rightarrow> (context_t \<times> mysock_context) run" where
  "transport_open rand_r is_act sd =
     (let ctx = generate_initial_seq_num zero_context
      in if is_act then
           run_bind (stcp_network_send rand_r sd
               (enc_tcp (zero_tcphdr\<lparr>th_seq := initial_sequence_num ctx, th_flags := TH_SYN,
                  th_off := 5, th_win := RECV_WINDOW_SIZE\<rparr>)))
             (\<lambda>sd1. Ret (ctx\<lparr>connection_state := CSTATE_SYN_SENT\<rparr>, sd1))
         else Ret (ctx\<lparr>connection_state := CSTATE_LISTEN\<rparr>, sd))"

definition recv_header :: "mysock_context \<Rightarrow> (tcphdr \<times> mysock_context) run" where
  "recv_header sd = run_bind (stcp_network_recv sd sizeof_tcphdr)
     (\<lambda>(n, dst, sd1). Ret (dec_tcp (recv_buffer sizeof_tcphdr dst), sd1))"

text \<open>One round of the loop of the handshake; both answers reuse the received header, flags included.\<close>

definition handshake_step ::
  "(u32 \<Rightarrow> u32 \<times> u32) \<Rightarrow> context_t \<Rightarrow> mysock_context \<Rightarrow> (context_t \<times> mysock_context) run" where
  "handshake_step rand_r ctx sd =
     (case connection_state ctx of
        CSTATE_SYN_SENT \<Rightarrow>
          run_bind (recv_header sd) (\<lambda>(h, sd1).
          run_bind (stcp_network_send rand_r sd1 (enc_tcp (h\<lparr>th_ack := th_seq h + 1, th_seq := th_ack h\<rparr>)))
            (\<lambda>sd2. Ret (ctx\<lparr>connection_state := CSTATE_ESTABLISHED\<rparr>, sd2)))
      | CSTATE_LISTEN \<Rightarrow>
          run_bind (recv_header sd) (\<lambda>(h, sd1).
          run_bind (stcp_network_send rand_r sd1
              (enc_tcp (h\<lparr>th_ack := th_seq h + 1, th_seq := initial_sequence_num ctx\<rparr>)))
            (\<lambda>sd2. Ret (ctx\<lparr>connection_state := CSTATE_SYN_RCVD\<rparr>, sd2)))
      | CSTATE_SYN_RCVD \<Rightarrow>
          run_bind (recv_header sd) (\<lambda>(h, sd1). Ret (ctx\<lparr>connection_state := CSTATE_ESTABLISHED\<rparr>, sd1))
      | _ \<Rightarrow> Ret (ctx, sd))"

text \<open>What \<^verbatim>\<open>transport_init\<close> sets after the handshake, and the first statement of \<^verbatim>\<open>control_loop\<close>.\<close>

definition transport_established :: "bool \<Rightarrow> context_t \<Rightarrow> context_t" where
  "transport_established is_act ctx =
     (let isn = ucast (initial_sequence_num ctx)
      in ctx\<lparr>SWND := MSS, SWND_prev := MSS, CWND := MSS, RECV_WIN := 3072, SendBase := isn,
           RecvBase := isn, next_seqnum := isn, win_rem := MSS - (isn - isn), buffer_size := MSS,
           is_client := is_act, buffer := replicate (unat MSS) 0\<rparr>)"

section \<open>The control loop\<close>

definition set_rem :: "context_t \<Rightarrow> context_t" where
  "set_rem ctx = ctx\<lparr>win_rem := SWND ctx - (next_seqnum ctx - SendBase ctx)\<rparr>"

definition app_data ::
  "(u32 \<Rightarrow> u32 \<times> u32) \<Rightarrow> context_t \<Rightarrow> mysock_context \<Rightarrow> (context_t \<times> mysock_context) run" where
  "app_data rand_r ctx sd =
     (if win_rem ctx = 0 then Ret (ctx, sd)
      else
        let max_size = unat (min (win_rem ctx) MSS); off = unat (next_seqnum ctx - SendBase ctx)
        in run_bind (stcp_app_recv sd max_size) (\<lambda>(data_size, dst, sd1).
           if off + length dst > length (buffer ctx) then Crash OutOfBounds
           else
             let buf = st_bytes (buffer ctx) off dst;
                 header = zero_tcphdr\<lparr>th_seq := ucast (next_seqnum ctx), th_win := RECV_WINDOW_SIZE,
                   th_off := 5, th_flags := 0\<rparr>
             in run_bind (stcp_network_send rand_r sd1 (enc_tcp header @ bslice buf off data_size)) (\<lambda>sd2.
                Ret (set_rem (ctx\<lparr>buffer := buf, next_seqnum := next_seqnum ctx + of_nat data_size\<rparr>), sd2))))"

definition next_CWND :: "u64 \<Rightarrow> u64" where
  "next_CWND c = (if c < 4 * MSS then c + MSS else c + MSS * MSS div c)"

text \<open>An acknowledgement moves the window and copies the unacknowledged bytes to a new buffer.\<close>

definition handle_ack :: "context_t \<Rightarrow> tcphdr \<Rightarrow> context_t run" where
  "handle_ack ctx header =
     (let temp = SendBase ctx;
          base = ucast (th_ack header);
          ack = base - temp;
          cwnd = next_CWND (CWND ctx);
          prev = SWND ctx;
          swnd = min cwnd (RECV_WIN ctx);
          n = unat (prev - ack)
      in if n > 0 \<and> (unat ack + n > length (buffer ctx) \<or> n > unat swnd) then Crash OutOfBounds
         else Ret (set_rem (ctx\<lparr>SendBase := base, ACK_size := ack, CWND := cwnd, SWND_prev := prev,
                SWND := swnd, new_buffer_size := buffer_size ctx + swnd - prev + ack,
                buffer := st_bytes (replicate (unat swnd) 0) 0 (bslice (buffer ctx) (unat ack) n)\<rparr>)))"

definition ack_header :: "u32 \<Rightarrow> u64 \<Rightarrow> tcphdr" where
  "ack_header ack seq = zero_tcphdr\<lparr>th_flags := TH_ACK, th_ack := ack, th_seq := ucast seq\<rparr>"

definition handle_fin ::
  "(u32 \<Rightarrow> u32 \<times> u32) \<Rightarrow> context_t \<Rightarrow> mysock_context \<Rightarrow> tcphdr \<Rightarrow> (context_t \<times> mysock_context) run" where
  "handle_fin rand_r ctx sd header =
     (let base = RecvBase ctx + 1
      in run_bind (stcp_network_send rand_r sd (enc_tcp (ack_header (th_seq header + 1) base))) (\<lambda>sd1.
         Ret ((if is_client ctx then ctx\<lparr>RecvBase := base, connection_state := CSTATE_CLOSED, conn_done := True\<rparr>
               else ctx\<lparr>RecvBase := base, connection_state := CSTATE_CLOSE_WAIT\<rparr>),
              stcp_fin_received sd1)))"

definition handle_data ::
  "(u32 \<Rightarrow> u32 \<times> u32) \<Rightarrow> context_t \<Rightarrow> mysock_context \<Rightarrow> tcphdr \<Rightarrow> bytes \<Rightarrow> (context_t \<times> mysock_context) run" where
  "handle_data rand_r ctx sd header data =
     (let base = RecvBase ctx + of_nat (length data)
      in run_bind (stcp_network_send rand_r sd
             (enc_tcp (ack_header (th_seq header + of_nat (length data)) base))) (\<lambda>sd1.
         Ret (ctx\<lparr>RecvBase := base\<rparr>, stcp_app_send sd1 data)))"

definition network_data ::
  "(u32 \<Rightarrow> u32 \<times> u32) \<Rightarrow> context_t \<Rightarrow> mysock_context \<Rightarrow> (context_t \<times> mysock_context) run" where
  "network_data rand_r ctx sd =
     run_bind (stcp_network_recv sd (sizeof_tcphdr + unat MSS)) (\<lambda>(n, dst, sd1).
     run_bind (assert_run (sizeof_tcphdr \<le> n)) (\<lambda>_.
     let packet = recv_buffer (sizeof_tcphdr + unat MSS) dst;
         header = ld_struct 20 dec_tcp packet 0;
         data = bslice packet sizeof_tcphdr (n - sizeof_tcphdr)
     in if th_flags header = TH_ACK then run_bind (handle_ack ctx header) (\<lambda>ctx1. Ret (ctx1, sd1))
        else if th_flags header = TH_FIN then handle_fin rand_r ctx sd1 header
        else handle_data rand_r ctx sd1 header data))"

definition send_fin ::
  "(u32 \<Rightarrow> u32 \<times> u32) \<Rightarrow> context_t \<Rightarrow> mysock_context \<Rightarrow> (context_t \<times> mysock_context) run" where
  "send_fin rand_r ctx sd =
     run_bind (stcp_network_send rand_r sd (enc_tcp (zero_tcphdr\<lparr>th_seq := ucast (next_seqnum ctx),
         th_win := RECV_WINDOW_SIZE, th_flags := TH_FIN\<rparr>)))
       (\<lambda>sd1. Ret (set_rem (ctx\<lparr>next_seqnum := next_seqnum ctx + 1\<rparr>), sd1))"

text \<open>The code at the label \<^verbatim>\<open>close\<close>.\<close>

definition close_branch ::
  "(u32 \<Rightarrow> u32 \<times> u32) \<Rightarrow> context_t \<Rightarrow> mysock_context \<Rightarrow> (context_t \<times> mysock_context) run" where
  "close_branch rand_r ctx sd =
     (if \<not> is_client ctx then
        case connection_state ctx of
          CSTATE_CLOSE_WAIT \<Rightarrow>
            run_bind (send_fin rand_r ctx sd) (\<lambda>(ctx1, sd1).
              Ret (ctx1\<lparr>connection_state := CSTATE_LAST_ACK\<rparr>, sd1))
        | CSTATE_LAST_ACK \<Rightarrow>
            run_bind (recv_header sd) (\<lambda>(h, sd1).
              Ret (if th_flags h = TH_ACK then ctx\<lparr>connection_state := CSTATE_CLOSED, conn_done := True\<rparr>
                   else ctx, sd1))
        | _ \<Rightarrow> Ret (ctx, sd)
      else
        case connection_state ctx of
          CSTATE_ESTABLISHED \<Rightarrow>
            run_bind (send_fin rand_r ctx sd) (\<lambda>(ctx1, sd1).
              Ret (ctx1\<lparr>connection_state := CSTATE_FIN_WAIT_1\<rparr>, sd1))
        | CSTATE_FIN_WAIT_1 \<Rightarrow>
            run_bind (recv_header sd) (\<lambda>(h, sd1).
              Ret (if th_flags h = TH_ACK then ctx\<lparr>connection_state := CSTATE_FIN_WAIT_2\<rparr> else ctx, sd1))
        | _ \<Rightarrow> Ret (ctx, sd))"

text \<open>
  One iteration of the loop. A packet that arrives in \<open>CSTATE_FIN_WAIT_1\<close> or \<open>CSTATE_LAST_ACK\<close> is
  handled at the label \<^verbatim>\<open>close\<close>. When no event is pending, the iteration blocks.
\<close>

definition control_loop_iter ::
  "(u32 \<Rightarrow> u32 \<times> u32) \<Rightarrow> context_t \<Rightarrow> mysock_context \<Rightarrow> (context_t \<times> mysock_context) run" where
  "control_loop_iter rand_r ctx sd =
     run_bind (stcp_wait_for_event sd) (\<lambda>(event, sd0).
     run_bind (if ev_app_data event then app_data rand_r ctx sd0 else Ret (ctx, sd0)) (\<lambda>(ctx1, sd1).
       if ev_network_data event \<and> connection_state ctx1 \<in> {CSTATE_FIN_WAIT_1, CSTATE_LAST_ACK}
       then close_branch rand_r ctx1 sd1
       else run_bind (if ev_network_data event then network_data rand_r ctx1 sd1 else Ret (ctx1, sd1))
         (\<lambda>(ctx2, sd2). if ev_app_close event then close_branch rand_r ctx2 sd2 else Ret (ctx2, sd2))))"

text \<open>The loop itself: at most \<open>fuel\<close> iterations, until the connection is done or no event is pending.\<close>

fun control_loop ::
  "nat \<Rightarrow> (u32 \<Rightarrow> u32 \<times> u32) \<Rightarrow> context_t \<Rightarrow> mysock_context \<Rightarrow> (context_t \<times> mysock_context) run" where
  "control_loop 0 rand_r ctx sd = (if conn_done ctx then Ret (ctx, sd) else Crash OutOfFuel)"
| "control_loop (Suc fuel) rand_r ctx sd =
     (if conn_done ctx then Ret (ctx, sd)
      else case control_loop_iter rand_r ctx sd of
        Ret (ctx1, sd1) \<Rightarrow> control_loop fuel rand_r ctx1 sd1
      | Block \<Rightarrow> Ret (ctx, sd)
      | Crash e \<Rightarrow> Crash e)"

end
