(* ===== verification/Transport_Link.thy ===== *)
theory Transport_Link
  imports Transport
begin

text \<open>
  What one endpoint puts on the wire and the other one takes off it. \<open>wire\<close> is the packet that
  \<^verbatim>\<open>stcp_network_send\<close> makes of a header and a payload; \<open>seg_ok\<close> says that a packet passes the checksum
  test of the receiver.
\<close>

section \<open>Endpoints\<close>

definition own_ip :: "network_context \<Rightarrow> u32" where
  "own_ip net = interface_ip net (sin_addr (peer_addr net))"

abbreviation peer_ip :: "network_context \<Rightarrow> u32" where
  "peer_ip net \<equiv> sin_addr (peer_addr net)"

definition net_ok :: "network_context \<Rightarrow> bool" where
  "net_ok net \<longleftrightarrow> is_reliable net \<and> peer_addr_valid net \<and> peer_addr_len net > 0
     \<and> sin_port (peer_addr net) > 0 \<and> own_ip net > 0 \<and> peer_ip net > 0"

definition push_out :: "mysock_context \<Rightarrow> bytes \<Rightarrow> mysock_context" where
  "push_out sd p = sd\<lparr>network_state := (network_state sd)\<lparr>net_out := net_out (network_state sd) @ [p]\<rparr>\<rparr>"

abbreviation hdr :: "bytes \<Rightarrow> tcphdr" where
  "hdr p \<equiv> ld_struct 20 dec_tcp p 0"

definition seg_ok :: "u32 \<Rightarrow> u32 \<Rightarrow> bytes \<Rightarrow> bool" where
  "seg_ok src dst p \<longleftrightarrow> 20 \<le> length p \<and> length p \<le> 556
     \<and> mysock_tcp_checksum src dst p = Inr (th_sum (hdr p))"

definition wire_header :: "network_context \<Rightarrow> tcphdr \<Rightarrow> tcphdr" where
  "wire_header net h = h\<lparr>th_sport := net_port net, th_dport := sin_port (peer_addr net),
     th_sum := 0, th_urp := 0\<rparr>"

definition wire_sum :: "network_context \<Rightarrow> tcphdr \<Rightarrow> bytes \<Rightarrow> u16" where
  "wire_sum net h data =
     (case mysock_tcp_checksum (own_ip net) (peer_ip net) (enc_tcp (wire_header net h) @ data) of
        Inl e \<Rightarrow> 0 | Inr c \<Rightarrow> c)"

definition wire :: "network_context \<Rightarrow> tcphdr \<Rightarrow> bytes \<Rightarrow> bytes" where
  "wire net h data = enc_tcp ((wire_header net h)\<lparr>th_sum := wire_sum net h data\<rparr>) @ data"

section \<open>Overlaying a header\<close>

lemma hdr_enc [simp]: "hdr (enc_tcp h @ data) = h"
  by (simp add: ld_struct_def bslice_def dec_enc_tcp)

lemma st_header [simp]: "st_bytes (enc_tcp h @ data) 0 (enc_tcp h') = enc_tcp h' @ data"
  by (rule nth_equalityI) (auto simp: nth_st_bytes nth_append)

lemma checksum_ignores_field:
  "mysock_tcp_checksum s d (enc_tcp (h\<lparr>th_sum := c\<rparr>) @ data) = mysock_tcp_checksum s d (enc_tcp h @ data)"
proof -
  have "take 16 (enc_tcp (h\<lparr>th_sum := c\<rparr>) @ data) = take 16 (enc_tcp h @ data)"
    "drop 18 (enc_tcp (h\<lparr>th_sum := c\<rparr>) @ data) = drop 18 (enc_tcp h @ data)"
    by (simp_all add: enc_tcp_def le16_def le32_def)
  then show ?thesis
    by (simp add: mysock_tcp_checksum_def Let_def)
qed

lemma checksum_defined:
  "20 \<le> length p \<Longrightarrow> s > 0 \<Longrightarrow> d > 0 \<Longrightarrow> \<exists>c. mysock_tcp_checksum s d p = Inr c"
  by (simp add: mysock_tcp_checksum_def sizeof_tcphdr_def Let_def)

section \<open>Sending and receiving\<close>

lemma wire_fields [simp]:
  "th_flags (hdr (wire net h data)) = th_flags h"
  "th_seq (hdr (wire net h data)) = th_seq h"
  "th_ack (hdr (wire net h data)) = th_ack h"
  "drop 20 (wire net h data) = data"
  "length (wire net h data) = 20 + length data"
  by (simp_all add: wire_def wire_header_def)

lemma wire_sum_eq:
  assumes "net_ok net"
  shows "mysock_tcp_checksum (own_ip net) (peer_ip net) (enc_tcp (wire_header net h) @ data)
    = Inr (wire_sum net h data)"
proof -
  obtain c where "mysock_tcp_checksum (own_ip net) (peer_ip net) (enc_tcp (wire_header net h) @ data) = Inr c"
    using assms checksum_defined [of "enc_tcp (wire_header net h) @ data"] by (auto simp: net_ok_def)
  then show ?thesis by (simp add: wire_sum_def)
qed

lemma seg_ok_wire:
  "net_ok net \<Longrightarrow> length data \<le> 536 \<Longrightarrow> seg_ok (own_ip net) (peer_ip net) (wire net h data)"
  using wire_sum_eq [of net h data] by (simp add: seg_ok_def wire_def checksum_ignores_field)

lemma stcp_network_send_eq:
  assumes "net_ok (network_state sd)" "length data \<le> 536"
  shows "stcp_network_send r sd (enc_tcp h @ data) = Ret (push_out sd (wire (network_state sd) h data))"
proof -
  let ?net = "network_state sd"
  let ?h = "wire_header ?net h"
  have local: "network_get_local_addr ?net = Inr (own_ip ?net)"
    using assms(1) by (simp add: network_get_local_addr_def net_ok_def own_ip_def)
  have "mysock_set_checksum ?net (enc_tcp ?h @ data) = Inr (wire ?net h data)"
    using wire_sum_eq [OF assms(1), of h data]
    by (simp add: mysock_set_checksum_def sizeof_tcphdr_def local wire_def)
  then show ?thesis
    using assms
    by (simp add: stcp_network_send_def sizeof_tcphdr_def MAX_IP_PAYLOAD_LEN_def net_ok_def Let_def
      wire_header_def [symmetric] network_send_def network_send_packet_def push_out_def)
qed

lemma stcp_network_send_header_eq:
  "net_ok (network_state sd) \<Longrightarrow>
   stcp_network_send r sd (enc_tcp h) = Ret (push_out sd (wire (network_state sd) h []))"
  using stcp_network_send_eq [of sd "[]"] by simp

lemma stcp_network_recv_eq:
  assumes "network_recv_queue sd = p # q" "net_ok (network_state sd)"
    and "seg_ok (peer_ip (network_state sd)) (own_ip (network_state sd)) p" "length p \<le> n"
  shows "stcp_network_recv sd n = Ret (length p, p, sd\<lparr>network_recv_queue := q\<rparr>)"
proof -
  have "network_get_local_addr (network_state sd) = Inr (own_ip (network_state sd))"
    using assms(2) by (simp add: network_get_local_addr_def net_ok_def own_ip_def)
  then have "mysock_verify_checksum (network_state sd) p = Inr True"
    using assms(3) by (simp add: mysock_verify_checksum_def seg_ok_def sizeof_tcphdr_def)
  moreover have "length p \<noteq> 0"
    using assms(3) by (auto simp: seg_ok_def)
  ultimately show ?thesis
    using assms(1,4) by (simp add: stcp_network_recv_def network_recv_def)
qed

lemma recv_buffer_eq: "length p \<le> n \<Longrightarrow> recv_buffer n p = p @ replicate (n - length p) 0"
  unfolding recv_buffer_def by (rule nth_equalityI) (auto simp: nth_st_bytes nth_append)

lemma recv_buffer_header [simp]:
  "20 \<le> length p \<Longrightarrow> length p \<le> n \<Longrightarrow> hdr (recv_buffer n p) = hdr p"
  by (simp add: recv_buffer_eq ld_struct_def bslice_def)

lemma recv_buffer_data [simp]:
  "20 \<le> length p \<Longrightarrow> length p \<le> n \<Longrightarrow> bslice (recv_buffer n p) 20 (length p - 20) = drop 20 p"
  by (simp add: recv_buffer_eq bslice_def)

lemma recv_header_eq:
  assumes "network_recv_queue sd = p # q" "net_ok (network_state sd)"
    and "seg_ok (peer_ip (network_state sd)) (own_ip (network_state sd)) p" "length p = 20"
  shows "recv_header sd = Ret (hdr p, sd\<lparr>network_recv_queue := q\<rparr>)"
  using stcp_network_recv_eq [OF assms(1,2,3), of 20] assms(4)
  by (simp add: recv_header_def sizeof_tcphdr_def recv_buffer_eq ld_struct_def bslice_def)

lemma push_out_simps [simp]:
  "network_recv_queue (push_out sd p) = network_recv_queue sd"
  "app_send_queue (push_out sd p) = app_send_queue sd"
  "app_recv_queue (push_out sd p) = app_recv_queue sd"
  "close_requested (push_out sd p) = close_requested sd"
  "eof (push_out sd p) = eof sd" "listening (push_out sd p) = listening sd"
  "net_out (network_state (push_out sd p)) = net_out (network_state sd) @ [p]"
  "net_ok (network_state (push_out sd p)) = net_ok (network_state sd)"
  "own_ip (network_state (push_out sd p)) = own_ip (network_state sd)"
  "peer_addr (network_state (push_out sd p)) = peer_addr (network_state sd)"
  by (simp_all add: push_out_def net_ok_def own_ip_def)

end
