(* ===== verification/Transport_Window.thy ===== *)
theory Transport_Window
  imports Transport_Link
begin

text \<open>
  The sliding window of one endpoint: what \<^verbatim>\<open>control_loop\<close> maintains about \<^verbatim>\<open>SWND\<close>, \<^verbatim>\<open>CWND\<close>,
  \<^verbatim>\<open>SendBase\<close>, \<^verbatim>\<open>next_seqnum\<close>, \<^verbatim>\<open>rem\<close> and the buffer of unacknowledged bytes, and the exact effect of each
  branch of an iteration.
\<close>

section \<open>The congestion window\<close>

lemma unat_u64_le: "unat (x :: u64) \<le> k \<longleftrightarrow> x \<le> of_nat k" if "k < 2 ^ 64"
  using that by (simp add: word_le_nat_alt unat_of_nat)

lemma unat_add_u64: "unat x + unat y < 2 ^ 64 \<Longrightarrow> unat (x + y :: u64) = unat x + unat y"
  by (simp add: unat_word_ariths)

lemma unat_MSS [simp]: "unat MSS = 536"
  by (simp add: MSS_def)

lemma avoidance_bound:
  assumes "1 \<le> c" "c \<le> (m :: nat)"
  shows "c + m div c \<le> m + 1"
proof -
  have "(c - 1) * 1 \<le> (c - 1) * (m div c)"
    using assms by (intro mult_le_mono2) (simp add: div_greater_zero_iff Suc_le_eq)
  moreover have "c * (m div c) \<le> m"
    by simp
  moreover have "m div c \<le> c * (m div c)"
    using assms(1) by (cases c) auto
  moreover have "(c - 1) * (m div c) = c * (m div c) - m div c"
    by (simp add: diff_mult_distrib)
  ultimately show ?thesis
    using assms(1) by linarith
qed

lemma unat_next_CWND:
  assumes "536 \<le> unat c" "unat c \<le> 287297"
  shows "unat (next_CWND c) = (if unat c < 2144 then unat c + 536 else unat c + 287296 div unat c)"
proof -
  have d: "unat (MSS * MSS div c) = 287296 div unat c"
    by (simp add: unat_div_distrib MSS_def)
  have "287296 div unat c \<le> 287296" "(287297 :: nat) + 287296 < 2 ^ 64"
    by simp_all
  then have "unat (c + MSS * MSS div c) = unat c + 287296 div unat c"
    using assms(2) d unat_add_u64 [of c "MSS * MSS div c"] by linarith
  moreover have "unat (c + MSS) = unat c + 536"
    using assms by (simp add: unat_add_u64)
  ultimately show ?thesis
    by (simp add: next_CWND_def word_less_nat_alt MSS_def)
qed

lemma next_CWND_bounds:
  assumes "536 \<le> unat c" "unat c \<le> 287297"
  shows "unat c \<le> unat (next_CWND c)" "unat (next_CWND c) \<le> 287297"
proof -
  show "unat c \<le> unat (next_CWND c)"
    using unat_next_CWND [OF assms] by simp
  show "unat (next_CWND c) \<le> 287297"
    using unat_next_CWND [OF assms] assms avoidance_bound [of "unat c" 287296]
    by (cases "unat c = 287297") auto
qed

section \<open>The window\<close>

text \<open>Bytes in flight: sent and not yet acknowledged.\<close>

definition in_flight :: "context_t \<Rightarrow> nat" where
  "in_flight ctx = unat (next_seqnum ctx) - unat (SendBase ctx)"

definition win_ok :: "context_t \<Rightarrow> bool" where
  "win_ok ctx \<longleftrightarrow>
     536 \<le> unat (CWND ctx) \<and> unat (CWND ctx) \<le> 287297
     \<and> RECV_WIN ctx = 3072 \<and> SWND ctx = min (CWND ctx) (RECV_WIN ctx)
     \<and> SendBase ctx \<le> next_seqnum ctx \<and> in_flight ctx \<le> unat (SWND ctx)
     \<and> unat (win_rem ctx) = unat (SWND ctx) - in_flight ctx
     \<and> length (buffer ctx) = unat (SWND ctx)"

definition unacked :: "context_t \<Rightarrow> bytes" where
  "unacked ctx = take (in_flight ctx) (buffer ctx)"

lemma unat_min: "unat (min a b) = min (unat a) (unat b)"
  by (simp add: min_def word_le_nat_alt)

lemma win_ok_SWND:
  "win_ok ctx \<Longrightarrow> unat (SWND ctx) = min (unat (CWND ctx)) 3072"
  by (simp add: win_ok_def unat_min)

lemma win_ok_parts:
  assumes "win_ok ctx"
  shows "unat (SendBase ctx) \<le> unat (next_seqnum ctx)" "in_flight ctx \<le> unat (SWND ctx)"
    "unat (win_rem ctx) = unat (SWND ctx) - in_flight ctx" "length (buffer ctx) = unat (SWND ctx)"
    "536 \<le> unat (CWND ctx)" "unat (CWND ctx) \<le> 287297"
  using assms unfolding win_ok_def word_le_nat_alt by blast+

lemma win_ok_offset:
  "win_ok ctx \<Longrightarrow> unat (next_seqnum ctx - SendBase ctx) = in_flight ctx"
  by (simp add: win_ok_def in_flight_def unat_sub)

lemma win_ok_established: "win_ok (transport_established a ctx)"
proof -
  have "min MSS (3072 :: u64) = MSS" by (simp add: MSS_def min_def)
  then show ?thesis
    by (simp add: win_ok_def transport_established_def in_flight_def Let_def)
qed

section \<open>Sending application data\<close>

definition data_header :: "context_t \<Rightarrow> tcphdr" where
  "data_header ctx = zero_tcphdr\<lparr>th_seq := ucast (next_seqnum ctx), th_win := RECV_WINDOW_SIZE,
     th_off := 5, th_flags := 0\<rparr>"

definition sent_ctx :: "context_t \<Rightarrow> bytes \<Rightarrow> context_t" where
  "sent_ctx ctx chunk = set_rem (ctx\<lparr>buffer := st_bytes (buffer ctx) (in_flight ctx) chunk,
     next_seqnum := next_seqnum ctx + of_nat (length chunk)\<rparr>)"

lemma dequeue_eq:
  "queue_get q n = Some (chunk, q') \<Longrightarrow> mysock_dequeue_buffer q n True = Ret (length chunk, chunk, q')"
  by (cases q) (auto simp: queue_get_def split: if_splits)

lemma queue_get_Some: "q \<noteq> [] \<Longrightarrow> \<exists>d q'. queue_get q n = Some (d, q')"
  by (cases q) (auto simp: queue_get_def)

lemma app_data_eq:
  assumes "win_ok ctx" "win_rem ctx \<noteq> 0" "net_ok (network_state sd)" "app_recv_queue sd \<noteq> []"
  shows "\<exists>chunk q. queue_get (app_recv_queue sd) (unat (min (win_rem ctx) MSS)) = Some (chunk, q)
    \<and> app_data r ctx sd = Ret (sent_ctx ctx chunk,
        push_out (sd\<lparr>app_recv_queue := q\<rparr>) (wire (network_state sd) (data_header ctx) chunk))"
proof -
  let ?n = "unat (min (win_rem ctx) MSS)"
  obtain chunk q where get: "queue_get (app_recv_queue sd) ?n = Some (chunk, q)"
    using queue_get_Some [OF assms(4)] by blast
  have len: "length chunk \<le> 536" "length chunk \<le> unat (win_rem ctx)"
    using pq.get_length [OF get] by (auto simp: unat_min)
  then have fit: "in_flight ctx + length chunk \<le> length (buffer ctx)"
    using win_ok_parts [OF assms(1)] by simp
  have "app_data r ctx sd = Ret (sent_ctx ctx chunk,
      push_out (sd\<lparr>app_recv_queue := q\<rparr>) (wire (network_state sd) (data_header ctx) chunk))"
    using assms(2,3) fit len stcp_network_send_eq [of "sd\<lparr>app_recv_queue := q\<rparr>" chunk r "data_header ctx"]
    by (simp add: app_data_def stcp_app_recv_def dequeue_eq [OF get] win_ok_offset [OF assms(1)]
      bslice_st_bytes_same sent_ctx_def data_header_def [symmetric] Let_def)
  with get show ?thesis by blast
qed

lemma sent_ctx_simps [simp]:
  "SendBase (sent_ctx ctx chunk) = SendBase ctx" "RecvBase (sent_ctx ctx chunk) = RecvBase ctx"
  "next_seqnum (sent_ctx ctx chunk) = next_seqnum ctx + of_nat (length chunk)"
  "SWND (sent_ctx ctx chunk) = SWND ctx" "CWND (sent_ctx ctx chunk) = CWND ctx"
  "RECV_WIN (sent_ctx ctx chunk) = RECV_WIN ctx" "is_client (sent_ctx ctx chunk) = is_client ctx"
  "connection_state (sent_ctx ctx chunk) = connection_state ctx" "conn_done (sent_ctx ctx chunk) = conn_done ctx"
  "buffer (sent_ctx ctx chunk) = st_bytes (buffer ctx) (in_flight ctx) chunk"
  by (simp_all add: sent_ctx_def set_rem_def)

lemma sent_next:
  assumes "unat (next_seqnum ctx) + length chunk < 2 ^ 64"
  shows "unat (next_seqnum ctx + of_nat (length chunk)) = unat (next_seqnum ctx) + length chunk"
proof -
  have "unat (of_nat (length chunk) :: u64) = length chunk"
    using assms by (simp add: unat_of_nat)
  then show ?thesis using assms by (simp add: unat_add_u64)
qed

lemma take_st_bytes:
  "n + length xs \<le> length b \<Longrightarrow> take (n + length xs) (st_bytes b n xs) = take n b @ xs"
  by (rule nth_equalityI) (auto simp: nth_st_bytes nth_append)

lemma win_ok_sent:
  assumes w: "win_ok ctx" and len: "length chunk \<le> unat (win_rem ctx)"
    and small: "unat (next_seqnum ctx) + length chunk < 2 ^ 64"
  shows "win_ok (sent_ctx ctx chunk)" "unacked (sent_ctx ctx chunk) = unacked ctx @ chunk"
proof -
  note parts = win_ok_parts [OF w]
  have fl: "in_flight (sent_ctx ctx chunk) = in_flight ctx + length chunk"
    using parts(1) by (simp add: in_flight_def sent_next [OF small])
  have le: "SendBase ctx \<le> next_seqnum ctx + of_nat (length chunk)"
    using parts(1) by (simp add: word_le_nat_alt sent_next [OF small])
  have off: "unat (next_seqnum ctx + of_nat (length chunk) - SendBase ctx) = in_flight ctx + length chunk"
    using fl by (simp add: unat_sub [OF le] in_flight_def)
  have fit: "in_flight ctx + length chunk \<le> unat (SWND ctx)"
    using parts len by simp
  then have "next_seqnum ctx + of_nat (length chunk) - SendBase ctx \<le> SWND ctx"
    by (simp add: word_le_nat_alt off)
  then have "unat (win_rem (sent_ctx ctx chunk)) = unat (SWND ctx) - (in_flight ctx + length chunk)"
    using off by (simp add: sent_ctx_def set_rem_def unat_sub)
  with w le fl fit show "win_ok (sent_ctx ctx chunk)"
    by (simp add: win_ok_def)
  show "unacked (sent_ctx ctx chunk) = unacked ctx @ chunk"
    using fit parts by (simp add: unacked_def fl take_st_bytes)
qed

section \<open>Acknowledgements\<close>

definition acked_ctx :: "context_t \<Rightarrow> u64 \<Rightarrow> context_t" where
  "acked_ctx ctx base =
     (let cwnd = next_CWND (CWND ctx); swnd = min cwnd (RECV_WIN ctx); ack = base - SendBase ctx
      in set_rem (ctx\<lparr>SendBase := base, ACK_size := ack, CWND := cwnd, SWND_prev := SWND ctx, SWND := swnd,
           new_buffer_size := buffer_size ctx + swnd - SWND ctx + ack,
           buffer := st_bytes (replicate (unat swnd) 0) 0
             (bslice (buffer ctx) (unat ack) (unat (SWND ctx - ack)))\<rparr>))"

lemma acked_ctx_simps [simp]:
  "SendBase (acked_ctx ctx base) = base" "RecvBase (acked_ctx ctx base) = RecvBase ctx"
  "next_seqnum (acked_ctx ctx base) = next_seqnum ctx" "CWND (acked_ctx ctx base) = next_CWND (CWND ctx)"
  "SWND (acked_ctx ctx base) = min (next_CWND (CWND ctx)) (RECV_WIN ctx)"
  "RECV_WIN (acked_ctx ctx base) = RECV_WIN ctx" "is_client (acked_ctx ctx base) = is_client ctx"
  "connection_state (acked_ctx ctx base) = connection_state ctx" "conn_done (acked_ctx ctx base) = conn_done ctx"
  by (simp_all add: acked_ctx_def set_rem_def Let_def)

lemma win_grows:
  assumes "win_ok ctx"
  shows "unat (SWND ctx) \<le> unat (min (next_CWND (CWND ctx)) (RECV_WIN ctx))"
  using assms next_CWND_bounds(1) [of "CWND ctx"] by (auto simp: win_ok_def unat_min)

text \<open>An acknowledgement is valid when it lies between the oldest unacknowledged and the next byte.\<close>

definition valid_ack :: "context_t \<Rightarrow> u64 \<Rightarrow> bool" where
  "valid_ack ctx base \<longleftrightarrow> SendBase ctx \<le> base \<and> base \<le> next_seqnum ctx"

abbreviation newly_acked :: "context_t \<Rightarrow> u64 \<Rightarrow> nat" where
  "newly_acked ctx base \<equiv> unat base - unat (SendBase ctx)"

lemma ack_size: "valid_ack ctx base \<Longrightarrow> unat (base - SendBase ctx) = newly_acked ctx base"
  by (simp add: unat_sub valid_ack_def)

lemma ack_in_flight: "valid_ack ctx base \<Longrightarrow> newly_acked ctx base \<le> in_flight ctx"
  by (auto simp: in_flight_def word_le_nat_alt valid_ack_def)

lemma kept_size:
  assumes "win_ok ctx" "valid_ack ctx base"
  shows "unat (SWND ctx - (base - SendBase ctx)) = unat (SWND ctx) - newly_acked ctx base"
  using win_ok_parts(2) [OF assms(1)] ack_in_flight [OF assms(2)]
  by (subst unat_sub) (simp_all add: word_le_nat_alt ack_size [OF assms(2)])

lemma handle_ack_ok:
  assumes "win_ok ctx" "valid_ack ctx (ucast (th_ack h))"
  shows "handle_ack ctx h = Ret (acked_ctx ctx (ucast (th_ack h)))"
  using win_ok_parts(2,4) [OF assms(1)] win_grows [OF assms(1)] ack_in_flight [OF assms(2)]
  by (auto simp: handle_ack_def Let_def acked_ctx_def kept_size [OF assms] ack_size [OF assms(2)])

lemma acked_in_flight:
  "valid_ack ctx base \<Longrightarrow> in_flight (acked_ctx ctx base) = in_flight ctx - newly_acked ctx base"
  by (simp add: in_flight_def word_le_nat_alt valid_ack_def)

lemma length_acked_buffer: "length (buffer (acked_ctx ctx base)) = unat (SWND (acked_ctx ctx base))"
  by (simp add: acked_ctx_def set_rem_def Let_def)

lemma nth_acked_buffer:
  assumes "win_ok ctx" "valid_ack ctx base" "i + newly_acked ctx base < unat (SWND ctx)"
  shows "buffer (acked_ctx ctx base) ! i = buffer ctx ! (newly_acked ctx base + i)"
proof -
  have buf: "buffer (acked_ctx ctx base) = st_bytes (replicate (unat (SWND (acked_ctx ctx base))) 0) 0
      (bslice (buffer ctx) (newly_acked ctx base) (unat (SWND ctx) - newly_acked ctx base))"
    by (simp add: acked_ctx_def set_rem_def Let_def ack_size [OF assms(2)] kept_size [OF assms(1,2)])
  have "i < unat (SWND (acked_ctx ctx base))"
    using assms(3) win_grows [OF assms(1)] by simp
  moreover have "i < unat (SWND ctx) - newly_acked ctx base"
    using assms(3) by simp
  ultimately show ?thesis
    using win_ok_parts(4) [OF assms(1)] by (simp add: buf nth_st_bytes)
qed

lemma acked_unacked:
  assumes "win_ok ctx" "valid_ack ctx base"
  shows "unacked (acked_ctx ctx base) = drop (newly_acked ctx base) (unacked ctx)"
proof (rule nth_equalityI)
  note parts = win_ok_parts [OF assms(1)] and fl = acked_in_flight [OF assms(2)]
  show "length (unacked (acked_ctx ctx base)) = length (drop (newly_acked ctx base) (unacked ctx))"
    using parts win_grows [OF assms(1)] by (simp add: unacked_def fl length_acked_buffer)
  fix i assume "i < length (unacked (acked_ctx ctx base))"
  then have "i < in_flight ctx - newly_acked ctx base"
    by (simp add: unacked_def fl)
  with parts show "unacked (acked_ctx ctx base) ! i = drop (newly_acked ctx base) (unacked ctx) ! i"
    by (simp add: unacked_def fl nth_acked_buffer [OF assms])
qed

lemma win_ok_acked:
  assumes "win_ok ctx" "valid_ack ctx base"
  shows "win_ok (acked_ctx ctx base)"
proof -
  have b: "536 \<le> unat (next_CWND (CWND ctx))" "unat (next_CWND (CWND ctx)) \<le> 287297"
    using win_ok_parts(5,6) [OF assms(1)] next_CWND_bounds [of "CWND ctx"] by auto
  have fl: "in_flight (acked_ctx ctx base) \<le> unat (SWND (acked_ctx ctx base))"
    using win_ok_parts(2) [OF assms(1)] win_grows [OF assms(1)] by (simp add: acked_in_flight [OF assms(2)])
  have hi: "base \<le> next_seqnum ctx" using assms(2) by (simp add: valid_ack_def)
  have off: "unat (next_seqnum ctx - base) = in_flight (acked_ctx ctx base)"
    using hi by (simp add: unat_sub in_flight_def)
  then have "next_seqnum ctx - base \<le> min (next_CWND (CWND ctx)) (RECV_WIN ctx)"
    using fl by (simp add: word_le_nat_alt)
  then have "unat (win_rem (acked_ctx ctx base)) = unat (SWND (acked_ctx ctx base)) - in_flight (acked_ctx ctx base)"
    using off by (simp add: acked_ctx_def set_rem_def Let_def unat_sub)
  with assms(1) b fl hi show ?thesis
    by (simp add: win_ok_def length_acked_buffer)
qed

end
