(* ===== verification/Transport_Flow.thy ===== *)
theory Transport_Flow
  imports Transport_Window
begin

text \<open>
  One direction of an STCP connection: the bytes on their way from the sending application to the
  receiving one, and the acknowledgements on their way back. \<open>flow_ok\<close> is the invariant; each lemma of
  this theory is one thing that can happen to the direction.
\<close>

section \<open>The invariant of one direction\<close>

abbreviation is_ack :: "bytes \<Rightarrow> bool" where
  "is_ack p \<equiv> th_flags (hdr p) = TH_ACK"

abbreviation is_data :: "bytes \<Rightarrow> bool" where
  "is_data p \<equiv> th_flags (hdr p) \<noteq> TH_ACK"

definition payload :: "bytes list \<Rightarrow> bytes" where
  "payload ps = concat (map (drop 20) (filter is_data ps))"

text \<open>Data segments with consecutive sequence numbers from \<open>s\<close> up to \<open>e\<close>.\<close>

fun seg_chain :: "nat \<Rightarrow> bytes list \<Rightarrow> nat \<Rightarrow> bool" where
  "seg_chain s [] e \<longleftrightarrow> s = e"
| "seg_chain s (p # ps) e \<longleftrightarrow> unat (th_seq (hdr p)) = s \<and> seg_chain (s + length (drop 20 p)) ps e"

text \<open>Acknowledgement numbers that grow from \<open>s\<close> to the last one, \<open>e\<close>.\<close>

fun ack_chain :: "nat \<Rightarrow> bytes list \<Rightarrow> nat \<Rightarrow> bool" where
  "ack_chain s [] e \<longleftrightarrow> s = e"
| "ack_chain s (p # ps) e \<longleftrightarrow> s \<le> unat (th_ack (hdr p)) \<and> ack_chain (unat (th_ack (hdr p))) ps e"

text \<open>
  \<open>W\<close> are the bytes written so far, \<open>R\<close> those read, \<open>A\<close> the context of the sender, \<open>rb\<close> the
  \<^verbatim>\<open>RecvBase\<close> of the receiver, \<open>appq\<close> the queue the sender reads from, \<open>upq\<close> the one the receiver fills,
  \<open>ch\<close> the packets towards the receiver, \<open>back\<close> those towards the sender.
\<close>

definition flow_ok ::
  "u32 \<Rightarrow> u32 \<Rightarrow> bytes \<Rightarrow> bytes \<Rightarrow> context_t \<Rightarrow> u64 \<Rightarrow> packet_queue \<Rightarrow> packet_queue \<Rightarrow> bytes list \<Rightarrow> bytes list \<Rightarrow> bool"
where
  "flow_ok src dst W R A rb appq upq ch back \<longleftrightarrow>
     (\<forall>p\<in>set ch. seg_ok src dst p \<and> th_flags (hdr p) \<in> {0, TH_ACK})
     \<and> W = R @ concat upq @ payload ch @ concat appq
     \<and> seg_chain (unat rb) (filter is_data ch) (unat (next_seqnum A))
     \<and> ack_chain (unat (SendBase A)) (filter is_ack back) (unat rb)
     \<and> unat (next_seqnum A) + length (concat appq) = 1 + length W
     \<and> 1 \<le> unat (SendBase A)
     \<and> unacked A = drop (unat (SendBase A) - 1) (take (unat (next_seqnum A) - 1) W)
     \<and> win_ok A"

lemma flow_okD:
  assumes "flow_ok src dst W R A rb appq upq ch back"
  shows "\<And>p. p \<in> set ch \<Longrightarrow> seg_ok src dst p \<and> th_flags (hdr p) \<in> {0, TH_ACK}"
    and "W = R @ concat upq @ payload ch @ concat appq"
    and "seg_chain (unat rb) (filter is_data ch) (unat (next_seqnum A))"
    and "ack_chain (unat (SendBase A)) (filter is_ack back) (unat rb)"
    and "unat (next_seqnum A) + length (concat appq) = 1 + length W"
    and "1 \<le> unat (SendBase A)"
    and "unacked A = drop (unat (SendBase A) - 1) (take (unat (next_seqnum A) - 1) W)"
    and "win_ok A"
  using assms unfolding flow_ok_def by blast+

lemma flow_okI:
  assumes "\<And>p. p \<in> set ch \<Longrightarrow> seg_ok src dst p \<and> th_flags (hdr p) \<in> {0, TH_ACK}"
    and "W = R @ concat upq @ payload ch @ concat appq"
    and "seg_chain (unat rb) (filter is_data ch) (unat (next_seqnum A))"
    and "ack_chain (unat (SendBase A)) (filter is_ack back) (unat rb)"
    and "unat (next_seqnum A) + length (concat appq) = 1 + length W"
    and "1 \<le> unat (SendBase A)"
    and "unacked A = drop (unat (SendBase A) - 1) (take (unat (next_seqnum A) - 1) W)"
    and "win_ok A"
  shows "flow_ok src dst W R A rb appq upq ch back"
  unfolding flow_ok_def using assms by blast

lemma payload_simps [simp]:
  "payload [] = []" "is_data p \<Longrightarrow> payload (p # ps) = drop 20 p @ payload ps"
  "is_ack p \<Longrightarrow> payload (p # ps) = payload ps" "payload (ps @ qs) = payload ps @ payload qs"
  by (simp_all add: payload_def)

lemma seg_chain_append: "seg_chain s (xs @ ys) e \<longleftrightarrow> (\<exists>m. seg_chain s xs m \<and> seg_chain m ys e)"
  by (induction xs arbitrary: s) auto

lemma ack_chain_append: "ack_chain s (xs @ ys) e \<longleftrightarrow> (\<exists>m. ack_chain s xs m \<and> ack_chain m ys e)"
  by (induction xs arbitrary: s) auto

lemma seg_chain_le: "seg_chain s xs e \<Longrightarrow> s \<le> e"
  by (induction xs arbitrary: s) fastforce+

lemma ack_chain_le: "ack_chain s xs e \<Longrightarrow> s \<le> e"
  by (induction xs arbitrary: s) fastforce+

lemma unat_ucast_u64 [simp]: "unat (ucast (x :: u32) :: u64) = unat x"
proof -
  have "unat x < 2 ^ 32" using unsigned_less [of x] by simp
  then have "unat x < 2 ^ 64" by simp
  then show ?thesis by (simp add: unsigned_ucast_eq take_bit_nat_eq_self)
qed

lemma flow_order:
  assumes "flow_ok src dst W R A rb appq upq ch back"
  shows "unat (SendBase A) \<le> unat rb" "unat rb \<le> unat (next_seqnum A)" "unat (next_seqnum A) \<le> 1 + length W"
  using assms by (auto simp: flow_ok_def dest: ack_chain_le seg_chain_le)

lemma flow_quiet:
  assumes "flow_ok src dst W R A rb appq upq [] []"
  shows "SendBase A = next_seqnum A" "in_flight A = 0" "win_rem A \<noteq> 0" "W = R @ concat upq @ concat appq"
proof -
  from assms have "unat (SendBase A) = unat (next_seqnum A)" "win_ok A" "W = R @ concat upq @ concat appq"
    by (simp_all add: flow_ok_def)
  then show "SendBase A = next_seqnum A" by (simp only: word_unat_eq_iff)
  with \<open>W = R @ concat upq @ concat appq\<close> show "in_flight A = 0" "W = R @ concat upq @ concat appq"
    by (simp_all add: in_flight_def)
  with win_ok_parts(3,5) [OF \<open>win_ok A\<close>] win_ok_SWND [OF \<open>win_ok A\<close>] have "unat (win_rem A) \<noteq> 0"
    by simp
  then show "win_rem A \<noteq> 0" by auto
qed

section \<open>Sender\<close>

lemma flow_write:
  "flow_ok src dst W R A rb appq upq ch back \<Longrightarrow>
   flow_ok src dst (W @ buf) R A rb (appq @ [buf]) upq ch back"
  by (auto simp: flow_ok_def)

lemma take_prefix_extend:
  "n \<le> k \<Longrightarrow> k \<le> length w \<Longrightarrow> drop n (take k w) @ bslice w k m = drop n (take (k + m) w)"
  by (simp add: bslice_def take_add)

lemma flow_send:
  assumes f: "flow_ok src dst W R A rb appq upq ch back"
    and q: "concat appq = chunk @ concat appq'" and len: "length chunk \<le> unat (win_rem A)"
    and p: "seg_ok src dst p" "th_flags (hdr p) = 0" "th_seq (hdr p) = ucast (next_seqnum A)" "drop 20 p = chunk"
    and small: "1 + length W < 2 ^ 32"
  shows "flow_ok src dst W R (sent_ctx A chunk) rb appq' upq (ch @ [p]) back"
proof -
  let ?n = "unat (next_seqnum A)"
  note D = flow_okD [OF f] and parts = win_ok_parts [OF flow_okD(8) [OF f]]
  have tot: "?n + length chunk + length (concat appq') = 1 + length W"
    using D(5) by (simp add: q)
  then have small64: "?n + length chunk < 2 ^ 64" using small by simp
  note nxt = sent_next [OF small64] and sent = win_ok_sent [OF D(8) len small64]
  have seq: "unat (ucast (next_seqnum A) :: u32) = ?n"
    using tot small by (simp add: unsigned_ucast_eq take_bit_nat_eq_self)
  have data: "is_data p" using p(2) by (simp add: TH_ACK_def)
  have W: "W = R @ concat upq @ payload ch @ chunk @ concat appq'"
    using D(2) q by simp
  show ?thesis
  proof (rule flow_okI)
    show "seg_ok src dst x \<and> th_flags (hdr x) \<in> {0, TH_ACK}" if "x \<in> set (ch @ [p])" for x
      using that D(1) p(1,2) by auto
    show "W = R @ concat upq @ payload (ch @ [p]) @ concat appq'"
      using W data p(4) by simp
    show "seg_chain (unat rb) (filter is_data (ch @ [p])) (unat (next_seqnum (sent_ctx A chunk)))"
      using D(3) data p(3,4) by (auto simp: nxt seg_chain_append seq)
    have "length (R @ concat upq @ payload ch) = ?n - 1"
      using W tot by simp
    then have "bslice W (?n - 1) (length chunk) = chunk"
      by (simp add: W bslice_def)
    moreover have "unat (SendBase A) - 1 \<le> ?n - 1" "?n - 1 \<le> length W" "1 \<le> ?n"
      using parts(1) tot D(6) by linarith+
    ultimately show "unacked (sent_ctx A chunk)
        = drop (unat (SendBase (sent_ctx A chunk)) - 1) (take (unat (next_seqnum (sent_ctx A chunk)) - 1) W)"
      using take_prefix_extend [of "unat (SendBase A) - 1" "?n - 1" W "length chunk"] sent(2) D(7)
      by (simp add: nxt)
  qed (use D(4,6) tot sent(1) in \<open>simp_all add: nxt\<close>)
qed

lemma flow_valid_ack:
  assumes f: "flow_ok src dst W R A rb appq upq ch (p # back)" and p: "is_ack p"
  shows "valid_ack A (ucast (th_ack (hdr p)))"
proof -
  have "unat (SendBase A) \<le> unat (th_ack (hdr p))"
    "ack_chain (unat (th_ack (hdr p))) (filter is_ack back) (unat rb)"
    using f p by (simp_all add: flow_ok_def)
  then show ?thesis
    using flow_order(2) [OF f] ack_chain_le [of "unat (th_ack (hdr p))"]
    by (simp add: valid_ack_def word_le_nat_alt del: ack_chain.simps) (meson le_trans)
qed

lemma flow_ack:
  assumes f: "flow_ok src dst W R A rb appq upq ch (p # back)" and p: "is_ack p"
  shows "flow_ok src dst W R (acked_ctx A (ucast (th_ack (hdr p)))) rb appq upq ch back"
proof -
  let ?b = "ucast (th_ack (hdr p)) :: u64"
  have w: "win_ok A" using f by (simp add: flow_ok_def)
  note v = flow_valid_ack [OF f p]
  have ge: "unat (SendBase A) \<le> unat ?b" "1 \<le> unat (SendBase A)"
    using v f by (simp_all add: valid_ack_def word_le_nat_alt flow_ok_def)
  have "unacked A = drop (unat (SendBase A) - 1) (take (unat (next_seqnum A) - 1) W)"
    using f by (simp add: flow_ok_def)
  then have "unacked (acked_ctx A ?b)
      = drop (newly_acked A ?b + (unat (SendBase A) - 1)) (take (unat (next_seqnum A) - 1) W)"
    using acked_unacked [OF w v] by simp
  moreover have "newly_acked A ?b + (unat (SendBase A) - 1) = unat ?b - 1"
    using ge by linarith
  ultimately have "unacked (acked_ctx A ?b) = drop (unat ?b - 1) (take (unat (next_seqnum A) - 1) W)"
    by (simp only:)
  moreover have "1 \<le> unat ?b"
    using ge by linarith
  ultimately show ?thesis
    using flow_okD [OF f] p win_ok_acked [OF w v] by (intro flow_okI) simp_all
qed

section \<open>Receiver\<close>

lemma flow_read:
  "flow_ok src dst W R A rb appq upq ch back \<Longrightarrow> concat upq = d @ concat upq' \<Longrightarrow>
   flow_ok src dst W (R @ d) A rb appq upq' ch back"
  by (simp add: flow_ok_def)

lemma flow_recv:
  assumes f: "flow_ok src dst W R A rb appq upq (p # ch) back"
    and p: "is_data p" and d: "d = drop 20 p"
    and q: "is_ack q" "th_ack (hdr q) = th_seq (hdr p) + of_nat (length d)"
    and u: "concat upq' = concat upq @ d" and small: "1 + length W < 2 ^ 32"
  shows "flow_ok src dst W R A (rb + of_nat (length d)) appq upq' ch (back @ [q])"
proof -
  have ch: "unat (th_seq (hdr p)) = unat rb"
    "seg_chain (unat rb + length d) (filter is_data ch) (unat (next_seqnum A))"
    using f p d by (simp_all add: flow_ok_def)
  have le: "unat rb + length d < 2 ^ 32"
    using seg_chain_le [OF ch(2)] flow_order(3) [OF f] small by linarith
  then have "unat (of_nat (length d) :: u64) = length d" "unat (of_nat (length d) :: u32) = length d"
    by (simp_all add: unat_of_nat)
  then have rb: "unat (rb + of_nat (length d)) = unat rb + length d"
    and ack: "unat (th_seq (hdr p) + of_nat (length d)) = unat rb + length d"
    using le ch(1) by (simp_all add: unat_add_u64 unat_word_ariths)
  show ?thesis
  proof (rule flow_okI)
    show "W = R @ concat upq' @ payload ch @ concat appq"
      using flow_okD(2) [OF f] p d u by simp
    show "ack_chain (unat (SendBase A)) (filter is_ack (back @ [q])) (unat (rb + of_nat (length d)))"
      using flow_okD(4) [OF f] q by (auto simp: rb ack ack_chain_append)
  qed (use flow_okD [OF f] ch(2) rb in simp_all)
qed

section \<open>Packets that belong to the other direction\<close>

lemma flow_other:
  "is_data p \<Longrightarrow> flow_ok src dst W R A rb appq upq ch (back @ [p]) = flow_ok src dst W R A rb appq upq ch back"
  "is_data p \<Longrightarrow> flow_ok src dst W R A rb appq upq ch (p # back) = flow_ok src dst W R A rb appq upq ch back"
  "is_ack p \<Longrightarrow> flow_ok src dst W R A rb appq upq (p # ch) back \<Longrightarrow> flow_ok src dst W R A rb appq upq ch back"
  "is_ack p \<Longrightarrow> seg_ok src dst p \<Longrightarrow> flow_ok src dst W R A rb appq upq ch back \<Longrightarrow>
   flow_ok src dst W R A rb appq upq (ch @ [p]) back"
  by (simp_all add: flow_ok_def)

lemma flow_RecvBase [simp]:
  "flow_ok src dst W R (A\<lparr>RecvBase := x\<rparr>) rb appq upq ch back = flow_ok src dst W R A rb appq upq ch back"
  by (simp add: flow_ok_def win_ok_def unacked_def in_flight_def)

end
