(* ===== verification/Transport_Stream.thy ===== *)
theory Transport_Stream
  imports Transport_Flow
begin

text \<open>
  Two endpoints connected by a network that delivers packets reliably and in order, as the TCP-backed
  network layer does: the transport threads iterate, the network threads deliver packets and the
  applications write and read, in any interleaving. The ghost fields record what each application has
  written and read.
\<close>

section \<open>The system\<close>

record endpoint =
  ep_ctx :: context_t
  ep_sd :: mysock_context
  ep_written :: bytes
  ep_read :: bytes

definition deliver_to :: "mysock_context \<Rightarrow> bytes \<Rightarrow> mysock_context" where
  "deliver_to sd p = sd\<lparr>network_recv_queue := mysock_enqueue_buffer (network_recv_queue sd) p\<rparr>"

definition set_out :: "mysock_context \<Rightarrow> bytes list \<Rightarrow> mysock_context" where
  "set_out sd ps = sd\<lparr>network_state := (network_state sd)\<lparr>net_out := ps\<rparr>\<rparr>"

abbreviation ep_out :: "endpoint \<Rightarrow> bytes list" where
  "ep_out a \<equiv> net_out (network_state (ep_sd a))"

inductive ep_step ::
  "(u32 \<Rightarrow> u32 \<times> u32) \<Rightarrow> endpoint \<times> endpoint \<Rightarrow> endpoint \<times> endpoint \<Rightarrow> bool" for rand_r where
  iterate: "control_loop_iter rand_r (ep_ctx a) (ep_sd a) = Ret (c, s) \<Longrightarrow> \<not> conn_done (ep_ctx a) \<Longrightarrow>
    ep_step rand_r (a, b) (a\<lparr>ep_ctx := c, ep_sd := s\<rparr>, b)"
| app_write: "mywrite_ctx (ep_sd a) buf = Ret (Inr n, s) \<Longrightarrow>
    ep_step rand_r (a, b) (a\<lparr>ep_sd := s, ep_written := ep_written a @ buf\<rparr>, b)"
| app_read: "myread_ctx (ep_sd a) buf_len = Ret (Inr (n, d), s) \<Longrightarrow> 0 < buf_len \<Longrightarrow>
    ep_step rand_r (a, b) (a\<lparr>ep_sd := s, ep_read := ep_read a @ d\<rparr>, b)"
| deliver: "ep_out a = p # ps \<Longrightarrow>
    ep_step rand_r (a, b) (a\<lparr>ep_sd := set_out (ep_sd a) ps\<rparr>, b\<lparr>ep_sd := deliver_to (ep_sd b) p\<rparr>)"

inductive_cases ep_stepE: "ep_step rand_r (a, b) ab'"

definition sys_step ::
  "(u32 \<Rightarrow> u32 \<times> u32) \<Rightarrow> endpoint \<times> endpoint \<Rightarrow> endpoint \<times> endpoint \<Rightarrow> bool" where
  "sys_step rand_r s t \<longleftrightarrow> ep_step rand_r s t \<or> ep_step rand_r (prod.swap s) (prod.swap t)"

section \<open>The invariant\<close>

definition flow_between :: "endpoint \<Rightarrow> endpoint \<Rightarrow> bool" where
  "flow_between a b \<longleftrightarrow>
     flow_ok (own_ip (network_state (ep_sd a))) (peer_ip (network_state (ep_sd a)))
       (ep_written a) (ep_read b) (ep_ctx a) (RecvBase (ep_ctx b))
       (app_recv_queue (ep_sd a)) (app_send_queue (ep_sd b))
       (network_recv_queue (ep_sd b) @ ep_out a) (network_recv_queue (ep_sd a) @ ep_out b)"

definition ep_open :: "endpoint \<Rightarrow> bool" where
  "ep_open a \<longleftrightarrow> net_ok (network_state (ep_sd a)) \<and> connection_state (ep_ctx a) = CSTATE_ESTABLISHED
     \<and> \<not> conn_done (ep_ctx a) \<and> \<not> close_requested (ep_sd a) \<and> \<not> listening (ep_sd a)
     \<and> \<not> eof (ep_sd a) \<and> [] \<notin> set (app_send_queue (ep_sd a))"

definition linked :: "endpoint \<Rightarrow> endpoint \<Rightarrow> bool" where
  "linked a b \<longleftrightarrow> own_ip (network_state (ep_sd a)) = peer_ip (network_state (ep_sd b))
     \<and> own_ip (network_state (ep_sd b)) = peer_ip (network_state (ep_sd a))"

definition sys_inv :: "endpoint \<Rightarrow> endpoint \<Rightarrow> bool" where
  "sys_inv a b \<longleftrightarrow> ep_open a \<and> ep_open b \<and> linked a b \<and> flow_between a b \<and> flow_between b a"

definition short_enough :: "endpoint \<Rightarrow> bool" where
  "short_enough a \<longleftrightarrow> 1 + length (ep_written a) < 2 ^ 32"

lemma sys_inv_swap: "sys_inv a b \<longleftrightarrow> sys_inv b a"
  by (auto simp: sys_inv_def linked_def)

text \<open>A measure of the work left before all bytes written have been read.\<close>

definition packet_work :: "nat \<Rightarrow> bytes list \<Rightarrow> nat" where
  "packet_work k ps = (\<Sum>p\<leftarrow>ps. if is_ack p then k else k + 4)"

definition work_left :: "endpoint \<Rightarrow> nat" where
  "work_left a = 10 * (\<Sum>d\<leftarrow>app_recv_queue (ep_sd a). length d + 1)
     + packet_work 1 (network_recv_queue (ep_sd a)) + packet_work 2 (ep_out a)
     + length (app_send_queue (ep_sd a))"

lemma packet_work_simps [simp]:
  "packet_work k [] = 0" "packet_work k (p # ps) = (if is_ack p then k else k + 4) + packet_work k ps"
  "packet_work k (ps @ qs) = packet_work k ps + packet_work k qs"
  by (simp_all add: packet_work_def)

lemma queue_get_work:
  assumes "queue_get q n = Some (d, q')" "0 < n"
  shows "(\<Sum>d\<leftarrow>q'. length d + 1) < (\<Sum>d\<leftarrow>q. length d + 1)"
  using assms by (cases q) (auto simp: queue_get_def split: if_splits)

section \<open>An iteration keeps the invariant\<close>

lemma app_part:
  assumes inv: "sys_inv a b" and small: "short_enough a"
  shows "\<exists>c s. (if app_recv_queue (ep_sd a) \<noteq> [] then app_data r (ep_ctx a) (ep_sd a) else Ret (ep_ctx a, ep_sd a)) = Ret (c, s)
    \<and> sys_inv (a\<lparr>ep_ctx := c, ep_sd := s\<rparr>) b \<and> network_recv_queue s = network_recv_queue (ep_sd a)
    \<and> (if app_recv_queue (ep_sd a) \<noteq> [] \<and> win_rem (ep_ctx a) \<noteq> 0
       then work_left (a\<lparr>ep_ctx := c, ep_sd := s\<rparr>) < work_left a else a\<lparr>ep_ctx := c, ep_sd := s\<rparr> = a)"
proof (cases "app_recv_queue (ep_sd a) \<noteq> [] \<and> win_rem (ep_ctx a) \<noteq> 0")
  case False
  then have "(if app_recv_queue (ep_sd a) \<noteq> [] then app_data r (ep_ctx a) (ep_sd a) else Ret (ep_ctx a, ep_sd a))
      = Ret (ep_ctx a, ep_sd a)"
    by (auto simp: app_data_def)
  moreover have "a\<lparr>ep_ctx := ep_ctx a, ep_sd := ep_sd a\<rparr> = a" by simp
  ultimately show ?thesis using inv False by auto
next
  case True
  from inv have ab: "flow_between a b" and ba: "flow_between b a" and op: "ep_open a"
    by (simp_all add: sys_inv_def)
  have w: "win_ok (ep_ctx a)" using ab by (simp add: flow_between_def flow_okD(8))
  have net: "net_ok (network_state (ep_sd a))" using op by (simp add: ep_open_def)
  obtain chunk q where get: "queue_get (app_recv_queue (ep_sd a)) (unat (min (win_rem (ep_ctx a)) MSS)) = Some (chunk, q)"
    and eq: "app_data r (ep_ctx a) (ep_sd a) = Ret (sent_ctx (ep_ctx a) chunk,
      push_out (ep_sd a\<lparr>app_recv_queue := q\<rparr>) (wire (network_state (ep_sd a)) (data_header (ep_ctx a)) chunk))"
    using app_data_eq [OF w _ net] True by blast
  let ?p = "wire (network_state (ep_sd a)) (data_header (ep_ctx a)) chunk"
  have len: "length chunk \<le> 536" "length chunk \<le> unat (win_rem (ep_ctx a))"
    using pq.get_length [OF get] by (auto simp: unat_min)
  have p: "seg_ok (own_ip (network_state (ep_sd a))) (peer_ip (network_state (ep_sd a))) ?p"
    "th_flags (hdr ?p) = 0" "th_seq (hdr ?p) = ucast (next_seqnum (ep_ctx a))" "drop 20 ?p = chunk"
    using seg_ok_wire [OF net len(1)] by (simp_all add: data_header_def)
  let ?a = "a\<lparr>ep_ctx := sent_ctx (ep_ctx a) chunk, ep_sd := push_out (ep_sd a\<lparr>app_recv_queue := q\<rparr>) ?p\<rparr>"
  have "flow_between ?a b"
    using flow_send [OF ab [unfolded flow_between_def] pq.contents_get [OF get] len(2) p]
      small by (simp add: flow_between_def short_enough_def)
  moreover have "flow_between b ?a"
    using ba p(2) flow_other(1) [of ?p]
    by (simp add: flow_between_def TH_ACK_def append_assoc [symmetric] del: append_assoc)
  moreover have "ep_open ?a" "linked ?a b"
    using inv by (simp_all add: sys_inv_def ep_open_def linked_def)
  moreover have "0 < unat (min (win_rem (ep_ctx a)) MSS)"
    using True unat_gt_0 [of "win_rem (ep_ctx a)"] by (simp add: unat_min)
  then have "work_left ?a < work_left a"
    using queue_get_work [OF get] p(2) by (simp add: work_left_def TH_ACK_def)
  ultimately show ?thesis
    using eq True inv by (auto simp: sys_inv_def)
qed

lemma network_data_eq:
  assumes "network_recv_queue sd = p # q" "net_ok (network_state sd)"
    and "seg_ok (peer_ip (network_state sd)) (own_ip (network_state sd)) p"
  shows "network_data r ctx sd =
    (let sd1 = sd\<lparr>network_recv_queue := q\<rparr> in
     if is_ack p then run_bind (handle_ack ctx (hdr p)) (\<lambda>ctx1. Ret (ctx1, sd1))
     else if th_flags (hdr p) = TH_FIN then handle_fin r ctx sd1 (hdr p)
     else handle_data r ctx sd1 (hdr p) (drop 20 p))"
proof -
  have len: "20 \<le> length p" "length p \<le> 556" using assms(3) by (simp_all add: seg_ok_def)
  then show ?thesis
    using stcp_network_recv_eq [OF assms, of 556]
    by (simp add: network_data_def sizeof_tcphdr_def Let_def)
qed

lemma handle_data_eq:
  assumes "net_ok (network_state sd)"
  shows "handle_data r ctx sd h d = Ret (ctx\<lparr>RecvBase := RecvBase ctx + of_nat (length d)\<rparr>,
    stcp_app_send (push_out sd (wire (network_state sd)
      (ack_header (th_seq h + of_nat (length d)) (RecvBase ctx + of_nat (length d))) [])) d)"
  using stcp_network_send_header_eq [OF assms] by (simp add: handle_data_def Let_def)

lemma stcp_app_send_simps [simp]:
  "network_state (stcp_app_send sd d) = network_state sd"
  "network_recv_queue (stcp_app_send sd d) = network_recv_queue sd"
  "app_recv_queue (stcp_app_send sd d) = app_recv_queue sd"
  "close_requested (stcp_app_send sd d) = close_requested sd"
  "concat (app_send_queue (stcp_app_send sd d)) = concat (app_send_queue sd) @ d"
  "eof (stcp_app_send sd d) = eof sd" "listening (stcp_app_send sd d) = listening sd"
  "[] \<in> set (app_send_queue (stcp_app_send sd d)) \<longleftrightarrow> [] \<in> set (app_send_queue sd)"
  by (auto simp: stcp_app_send_def)

lemma length_stcp_app_send: "length (app_send_queue (stcp_app_send sd d)) \<le> length (app_send_queue sd) + 1"
  by (simp add: stcp_app_send_def)

lemma data_part:
  assumes inv: "sys_inv a b" and small: "short_enough b"
    and q: "network_recv_queue (ep_sd a) = p # q" and p: "is_data p"
  shows "\<exists>c s. network_data r (ep_ctx a) (ep_sd a) = Ret (c, s) \<and> sys_inv (a\<lparr>ep_ctx := c, ep_sd := s\<rparr>) b
    \<and> work_left (a\<lparr>ep_ctx := c, ep_sd := s\<rparr>) < work_left a"
proof -
  let ?sd = "ep_sd a\<lparr>network_recv_queue := q\<rparr>" and ?c = "ep_ctx a"
  from inv have ab: "flow_between a b" and ba: "flow_between b a" and op: "ep_open a" and l: "linked a b"
    by (simp_all add: sys_inv_def)
  have net: "net_ok (network_state (ep_sd a))" using op by (simp add: ep_open_def)
  have seg: "seg_ok (peer_ip (network_state (ep_sd a))) (own_ip (network_state (ep_sd a))) p"
    and fl: "th_flags (hdr p) = 0"
    using flow_okD(1) [OF ba [unfolded flow_between_def], of p] l p by (auto simp: q linked_def)
  let ?d = "drop 20 p"
  let ?base = "RecvBase ?c + of_nat (length ?d)"
  let ?k = "wire (network_state ?sd) (ack_header (th_seq (hdr p) + of_nat (length ?d)) ?base) []"
  let ?a = "a\<lparr>ep_ctx := ?c\<lparr>RecvBase := ?base\<rparr>, ep_sd := stcp_app_send (push_out ?sd ?k) ?d\<rparr>"
  have eq: "network_data r ?c (ep_sd a) = Ret (ep_ctx ?a, ep_sd ?a)"
    using network_data_eq [OF q net seg] p fl handle_data_eq [of ?sd] net
    by (simp add: TH_FIN_def)
  have k: "is_ack ?k" "th_ack (hdr ?k) = th_seq (hdr p) + of_nat (length ?d)"
    by (simp_all add: ack_header_def)
  have kseg: "seg_ok (own_ip (network_state (ep_sd a))) (peer_ip (network_state (ep_sd a))) ?k"
    using seg_ok_wire [OF net, of "[]"] by simp
  have "flow_between b ?a"
    using flow_recv [OF ba [unfolded flow_between_def q append_Cons] p refl k, of "app_send_queue (ep_sd ?a)"] small
    by (simp add: flow_between_def short_enough_def)
  moreover have "flow_between ?a b"
    using flow_other(4) [OF k(1) kseg] flow_other(2) [OF p] ab
    by (simp add: flow_between_def q append_assoc [symmetric] del: append_assoc)
  moreover have "ep_open ?a" "linked ?a b"
    using op l by (simp_all add: ep_open_def linked_def)
  moreover have "work_left ?a < work_left a"
    using p k(1) length_stcp_app_send [of "push_out ?sd ?k" ?d] by (simp add: work_left_def q)
  ultimately show ?thesis using eq inv by (auto simp: sys_inv_def)
qed

lemma ack_part:
  assumes inv: "sys_inv a b" and q: "network_recv_queue (ep_sd a) = p # q" and p: "is_ack p"
  shows "\<exists>c s. network_data r (ep_ctx a) (ep_sd a) = Ret (c, s) \<and> sys_inv (a\<lparr>ep_ctx := c, ep_sd := s\<rparr>) b
    \<and> work_left (a\<lparr>ep_ctx := c, ep_sd := s\<rparr>) < work_left a"
proof -
  let ?sd = "ep_sd a\<lparr>network_recv_queue := q\<rparr>" and ?b = "ucast (th_ack (hdr p))"
  let ?a = "a\<lparr>ep_ctx := acked_ctx (ep_ctx a) ?b, ep_sd := ?sd\<rparr>"
  from inv have ab: "flow_between a b" and ba: "flow_between b a" and op: "ep_open a" and l: "linked a b"
    by (simp_all add: sys_inv_def)
  have net: "net_ok (network_state (ep_sd a))" using op by (simp add: ep_open_def)
  have seg: "seg_ok (peer_ip (network_state (ep_sd a))) (own_ip (network_state (ep_sd a))) p"
    using flow_okD(1) [OF ba [unfolded flow_between_def], of p] l by (auto simp: q linked_def)
  note f = ab [unfolded flow_between_def q append_Cons]
  have "network_data r (ep_ctx a) (ep_sd a) = Ret (acked_ctx (ep_ctx a) ?b, ?sd)"
    using network_data_eq [OF q net seg] p handle_ack_ok [OF flow_okD(8) [OF f] flow_valid_ack [OF f p]]
    by simp
  moreover have "flow_between ?a b"
    using flow_ack [OF f p] by (simp add: flow_between_def)
  moreover have "flow_between b ?a"
    using flow_other(3) [OF p ba [unfolded flow_between_def q append_Cons]] by (simp add: flow_between_def)
  moreover have "ep_open ?a" "linked ?a b"
    using op l by (simp_all add: ep_open_def linked_def)
  moreover have "work_left ?a < work_left a"
    using p by (simp add: work_left_def q)
  ultimately show ?thesis using inv by (auto simp: sys_inv_def)
qed

lemma iter_eq:
  assumes "ep_open a"
  shows "control_loop_iter r (ep_ctx a) (ep_sd a) =
    (if app_recv_queue (ep_sd a) = [] \<and> network_recv_queue (ep_sd a) = [] then Block
     else run_bind (if app_recv_queue (ep_sd a) \<noteq> [] then app_data r (ep_ctx a) (ep_sd a) else Ret (ep_ctx a, ep_sd a))
       (\<lambda>(c1, s1). if network_recv_queue (ep_sd a) \<noteq> [] \<and> connection_state c1 \<in> {CSTATE_FIN_WAIT_1, CSTATE_LAST_ACK}
          then close_branch r c1 s1
          else if network_recv_queue (ep_sd a) \<noteq> [] then network_data r c1 s1 else Ret (c1, s1)))"
  using assms
  by (auto simp: control_loop_iter_def stcp_wait_for_event_def ep_open_def Let_def
      intro!: arg_cong2 [where f = run_bind] ext split: prod.splits)

lemma iteration_keeps_inv:
  assumes inv: "sys_inv a b" and small: "short_enough a" "short_enough b"
  shows "app_recv_queue (ep_sd a) = [] \<and> network_recv_queue (ep_sd a) = []
      \<and> control_loop_iter r (ep_ctx a) (ep_sd a) = Block
    \<or> (\<exists>c s. control_loop_iter r (ep_ctx a) (ep_sd a) = Ret (c, s) \<and> sys_inv (a\<lparr>ep_ctx := c, ep_sd := s\<rparr>) b
      \<and> (network_recv_queue (ep_sd a) \<noteq> [] \<or> app_recv_queue (ep_sd a) \<noteq> [] \<and> win_rem (ep_ctx a) \<noteq> 0
         \<longrightarrow> work_left (a\<lparr>ep_ctx := c, ep_sd := s\<rparr>) < work_left a))"
proof -
  have op: "ep_open a" using inv by (simp add: sys_inv_def)
  obtain c s where app: "(if app_recv_queue (ep_sd a) \<noteq> [] then app_data r (ep_ctx a) (ep_sd a) else Ret (ep_ctx a, ep_sd a)) = Ret (c, s)"
    and inv1: "sys_inv (a\<lparr>ep_ctx := c, ep_sd := s\<rparr>) b" and q: "network_recv_queue s = network_recv_queue (ep_sd a)"
    and w: "if app_recv_queue (ep_sd a) \<noteq> [] \<and> win_rem (ep_ctx a) \<noteq> 0
       then work_left (a\<lparr>ep_ctx := c, ep_sd := s\<rparr>) < work_left a else a\<lparr>ep_ctx := c, ep_sd := s\<rparr> = a"
    using app_part [OF inv small(1), of r] by blast
  have est: "connection_state c = CSTATE_ESTABLISHED"
    using inv1 by (simp add: sys_inv_def ep_open_def)
  show ?thesis
  proof (cases "network_recv_queue (ep_sd a)")
    case Nil
    then show ?thesis using iter_eq [OF op] app inv1 w by (auto split: if_splits)
  next
    case (Cons p ps)
    then have "\<exists>c' s'. network_data r c s = Ret (c', s') \<and> sys_inv (a\<lparr>ep_ctx := c', ep_sd := s'\<rparr>) b
        \<and> work_left (a\<lparr>ep_ctx := c', ep_sd := s'\<rparr>) < work_left (a\<lparr>ep_ctx := c, ep_sd := s\<rparr>)"
      using ack_part [OF inv1, of p ps] data_part [OF inv1 small(2), of p ps] q by (cases "is_ack p") auto
    moreover have "work_left (a\<lparr>ep_ctx := c, ep_sd := s\<rparr>) \<le> work_left a"
      using w by (auto split: if_splits)
    ultimately show ?thesis using Cons iter_eq [OF op] app est by (auto intro: order_less_le_trans)
  qed
qed

section \<open>Every step keeps the invariant\<close>

lemma myread_cases:
  assumes "myread_ctx sd n = Ret (Inr (k, d), s)" "\<not> eof sd"
  obtains q where "queue_get (app_send_queue sd) n = Some (d, q)"
    "s = (if d = [] then sd\<lparr>app_send_queue := q, eof := True\<rparr> else sd\<lparr>app_send_queue := q\<rparr>)"
proof -
  obtain q where "mysock_dequeue_buffer (app_send_queue sd) n True = Ret (k, d, q)"
    and s: "s = (if k = 0 then sd\<lparr>app_send_queue := q, eof := True\<rparr> else sd\<lparr>app_send_queue := q\<rparr>)"
    using assms by (cases "mysock_dequeue_buffer (app_send_queue sd) n True")
      (simp_all add: myread_ctx_def run_bind_eq_Ret_iff split_beta Let_def split: if_splits, force+)
  then have get: "queue_get (app_send_queue sd) n = Some (d, q)"
    by (simp add: queue_get_def)
  with s dequeue_eq [OF get] \<open>mysock_dequeue_buffer _ n True = _\<close> that [OF get] show ?thesis by auto
qed

lemma queue_get_nonempty:
  "queue_get q n = Some (d, q') \<Longrightarrow> 0 < n \<Longrightarrow> [] \<notin> set q \<Longrightarrow> d \<noteq> [] \<and> [] \<notin> set q'"
  by (cases q) (auto simp: queue_get_def split: if_splits)

lemma read_keeps_inv:
  assumes inv: "sys_inv a b" and rd: "myread_ctx (ep_sd a) n = Ret (Inr (k, d), s)" "0 < n"
  shows "sys_inv (a\<lparr>ep_sd := s, ep_read := ep_read a @ d\<rparr>) b"
proof -
  have op: "\<not> eof (ep_sd a)" "[] \<notin> set (app_send_queue (ep_sd a))" using inv by (simp_all add: sys_inv_def ep_open_def)
  obtain q where q: "queue_get (app_send_queue (ep_sd a)) n = Some (d, q)"
    and s: "s = (if d = [] then ep_sd a\<lparr>app_send_queue := q, eof := True\<rparr> else ep_sd a\<lparr>app_send_queue := q\<rparr>)"
    using rd(1) op(1) by (rule myread_cases)
  with queue_get_nonempty [OF q rd(2) op(2)] pq.contents_get [OF q] inv show ?thesis
    by (auto simp: sys_inv_def ep_open_def linked_def flow_between_def intro: flow_read)
qed

lemma set_out_simps [simp]:
  "network_recv_queue (set_out sd ps) = network_recv_queue sd" "app_send_queue (set_out sd ps) = app_send_queue sd"
  "app_recv_queue (set_out sd ps) = app_recv_queue sd" "close_requested (set_out sd ps) = close_requested sd"
  "eof (set_out sd ps) = eof sd" "listening (set_out sd ps) = listening sd"
  "net_out (network_state (set_out sd ps)) = ps" "net_ok (network_state (set_out sd ps)) = net_ok (network_state sd)"
  "own_ip (network_state (set_out sd ps)) = own_ip (network_state sd)"
  "peer_addr (network_state (set_out sd ps)) = peer_addr (network_state sd)"
  by (simp_all add: set_out_def net_ok_def own_ip_def)

lemma deliver_to_simps [simp]:
  "network_recv_queue (deliver_to sd p) = network_recv_queue sd @ [p]"
  "app_send_queue (deliver_to sd p) = app_send_queue sd" "app_recv_queue (deliver_to sd p) = app_recv_queue sd"
  "close_requested (deliver_to sd p) = close_requested sd" "eof (deliver_to sd p) = eof sd"
  "listening (deliver_to sd p) = listening sd" "network_state (deliver_to sd p) = network_state sd"
  by (simp_all add: deliver_to_def)

lemma deliver_keeps_inv:
  assumes "sys_inv a b" "ep_out a = p # ps"
  shows "sys_inv (a\<lparr>ep_sd := set_out (ep_sd a) ps\<rparr>) (b\<lparr>ep_sd := deliver_to (ep_sd b) p\<rparr>)"
  using assms unfolding sys_inv_def ep_open_def linked_def flow_between_def by auto

lemma ep_step_keeps_inv:
  assumes "ep_step r (a, b) (a', b')" "sys_inv a b" "short_enough a" "short_enough b"
  shows "sys_inv a' b'"
  using assms(1)
proof (cases rule: ep_step.cases)
  case (iterate c s)
  with iteration_keeps_inv [OF assms(2-4), of r] show ?thesis by auto
next
  case (app_write buf n s)
  then have "s = ep_sd a\<lparr>app_recv_queue := app_recv_queue (ep_sd a) @ [buf]\<rparr>"
    by (auto simp: mywrite_ctx_def run_bind_eq_Ret_iff split: if_splits)
  with app_write assms(2) show ?thesis
    by (auto simp: sys_inv_def ep_open_def linked_def flow_between_def intro: flow_write)
next
  case (app_read buf_len n d s)
  then show ?thesis using read_keeps_inv [OF assms(2) app_read(3,4)] by simp
next
  case (deliver p ps)
  then show ?thesis using deliver_keeps_inv [OF assms(2) deliver(3)] by simp
qed

lemma ep_step_written: "ep_step r (a, b) (a', b') \<Longrightarrow> short_enough a' \<and> short_enough b' \<Longrightarrow> short_enough a \<and> short_enough b"
  by (erule ep_stepE) (auto simp: short_enough_def)

lemma sys_steps_keep_inv:
  assumes "(sys_step r)\<^sup>*\<^sup>* (a, b) (a', b')" "sys_inv a b" "short_enough a'" "short_enough b'"
  shows "sys_inv a' b'"
proof -
  from assms(1) have "short_enough a' \<and> short_enough b' \<longrightarrow> sys_inv a' b'"
  proof (induction rule: rtranclp_induct2)
    case refl
    then show ?case using assms(2) by simp
  next
    case (step a1 b1 a2 b2)
    then consider "ep_step r (a1, b1) (a2, b2)" | "ep_step r (b1, a1) (b2, a2)"
      by (auto simp: sys_step_def)
    then show ?case
    proof cases
      case 1
      with step.IH show ?thesis using ep_step_keeps_inv ep_step_written by blast
    next
      case 2
      with step.IH show ?thesis
        using ep_step_keeps_inv [OF 2] ep_step_written [OF 2] sys_inv_swap by blast
    qed
  qed
  with assms(3,4) show ?thesis by simp
qed

section \<open>Progress\<close>

definition has_work :: "endpoint \<Rightarrow> bool" where
  "has_work a \<longleftrightarrow> app_send_queue (ep_sd a) \<noteq> [] \<or> ep_out a \<noteq> [] \<or> network_recv_queue (ep_sd a) \<noteq> []
     \<or> app_recv_queue (ep_sd a) \<noteq> [] \<and> win_rem (ep_ctx a) \<noteq> 0"

lemma read_progress:
  assumes "sys_inv a b" "app_send_queue (ep_sd a) = d # q"
  shows "ep_step r (a, b) (a\<lparr>ep_sd := ep_sd a\<lparr>app_send_queue := q\<rparr>, ep_read := ep_read a @ d\<rparr>, b)"
    and "work_left (a\<lparr>ep_sd := ep_sd a\<lparr>app_send_queue := q\<rparr>, ep_read := ep_read a @ d\<rparr>) < work_left a"
proof -
  have op: "\<not> eof (ep_sd a)" "\<not> listening (ep_sd a)" "\<not> close_requested (ep_sd a)" "d \<noteq> []"
    using assms by (auto simp: sys_inv_def ep_open_def)
  then have "myread_ctx (ep_sd a) (length d) = Ret (Inr (length d, d), ep_sd a\<lparr>app_send_queue := q\<rparr>)"
    by (simp add: myread_ctx_def assms(2))
  with op(4) show "ep_step r (a, b) (a\<lparr>ep_sd := ep_sd a\<lparr>app_send_queue := q\<rparr>, ep_read := ep_read a @ d\<rparr>, b)"
    by (intro ep_step.app_read) auto
  show "work_left (a\<lparr>ep_sd := ep_sd a\<lparr>app_send_queue := q\<rparr>, ep_read := ep_read a @ d\<rparr>) < work_left a"
    by (simp add: work_left_def assms(2))
qed

lemma progress_left:
  assumes inv: "sys_inv a b" and small: "short_enough a" "short_enough b" and work: "has_work a"
  shows "\<exists>a' b'. ep_step r (a, b) (a', b') \<and> work_left a' + work_left b' < work_left a + work_left b
    \<and> ep_written a' = ep_written a \<and> ep_written b' = ep_written b"
proof -
  consider (rd) d q where "app_send_queue (ep_sd a) = d # q" | (dl) p ps where "ep_out a = p # ps"
    | (it) "network_recv_queue (ep_sd a) \<noteq> [] \<or> app_recv_queue (ep_sd a) \<noteq> [] \<and> win_rem (ep_ctx a) \<noteq> 0"
    using work by (auto simp: has_work_def neq_Nil_conv)
  then show ?thesis
  proof cases
    case rd
    from read_progress [OF inv rd] show ?thesis by fastforce
  next
    case dl
    from ep_step.deliver [OF dl, of r b] dl show ?thesis by (fastforce simp: work_left_def)
  next
    case it
    then obtain c s where "control_loop_iter r (ep_ctx a) (ep_sd a) = Ret (c, s)"
      and "work_left (a\<lparr>ep_ctx := c, ep_sd := s\<rparr>) < work_left a"
      using iteration_keeps_inv [OF inv small, of r] by blast
    with ep_step.iterate [of r a c s b] inv show ?thesis by (fastforce simp: sys_inv_def ep_open_def)
  qed
qed

lemma no_work_done:
  assumes inv: "sys_inv a b" and "\<not> has_work a" "\<not> has_work b"
  shows "ep_read b = ep_written a" "ep_read a = ep_written b"
proof -
  have e: "app_send_queue (ep_sd a) = []" "ep_out a = []" "network_recv_queue (ep_sd a) = []"
    "app_send_queue (ep_sd b) = []" "ep_out b = []" "network_recv_queue (ep_sd b) = []"
    using assms(2,3) by (auto simp: has_work_def)
  have "win_rem (ep_ctx a) \<noteq> 0" "win_rem (ep_ctx b) \<noteq> 0"
    "ep_written a = ep_read b @ concat (app_recv_queue (ep_sd a))"
    "ep_written b = ep_read a @ concat (app_recv_queue (ep_sd b))"
    using inv flow_quiet(3,4) by (fastforce simp: sys_inv_def flow_between_def e)+
  then show "ep_read b = ep_written a" "ep_read a = ep_written b"
    using assms(2,3) by (auto simp: has_work_def)
qed

lemma eventually_delivered:
  assumes "sys_inv a b" "short_enough a" "short_enough b"
  shows "\<exists>a' b'. (sys_step r)\<^sup>*\<^sup>* (a, b) (a', b') \<and> ep_written a' = ep_written a \<and> ep_written b' = ep_written b
    \<and> ep_read b' = ep_written a \<and> ep_read a' = ep_written b"
  using assms
proof (induction "work_left a + work_left b" arbitrary: a b rule: less_induct)
  case less
  show ?case
  proof (cases "has_work a \<or> has_work b")
    case False
    with no_work_done [OF less.prems(1)] show ?thesis by auto
  next
    case True
    then obtain a1 b1 where st: "sys_step r (a, b) (a1, b1)"
      and wk: "work_left a1 + work_left b1 < work_left a + work_left b"
      and wr: "ep_written a1 = ep_written a" "ep_written b1 = ep_written b"
      using progress_left [OF less.prems, of r] progress_left [of b a r] less.prems sys_inv_swap [of a b]
      by (fastforce simp: sys_step_def)
    have sm: "short_enough a1" "short_enough b1"
      using less.prems(2,3) wr by (simp_all add: short_enough_def)
    have "sys_inv a1 b1"
      using sys_steps_keep_inv [OF r_into_rtranclp [of "sys_step r", OF st] less.prems(1) sm] .
    from less.hyps [OF wk this sm] wr show ?thesis
      using converse_rtranclp_into_rtranclp [of "sys_step r", OF st] by metis
  qed
qed

end
