(* ===== verification/Transport_Conn.thy ===== *)
theory Transport_Conn
  imports Transport_Stream
begin

text \<open>
  Whole connections: the three-way handshake between an active and a passive endpoint, what holds of
  every state reachable from it, and the orderly release.
\<close>

section \<open>The handshake\<close>

definition exchange :: "mysock_context \<Rightarrow> mysock_context \<Rightarrow> mysock_context \<times> mysock_context" where
  "exchange sa sb = (set_out sa [], foldl deliver_to sb (net_out (network_state sa)))"

definition new_endpoint :: "bool \<Rightarrow> context_t \<Rightarrow> mysock_context \<Rightarrow> endpoint" where
  "new_endpoint is_act ctx sd = \<lparr>ep_ctx = transport_established is_act ctx, ep_sd = sd, ep_written = [], ep_read = []\<rparr>"

text \<open>Both threads run \<^verbatim>\<open>transport_init\<close> up to the control loop, the network delivering each packet.\<close>

definition stcp_connect ::
  "(u32 \<Rightarrow> u32 \<times> u32) \<Rightarrow> mysock_context \<Rightarrow> mysock_context \<Rightarrow> (endpoint \<times> endpoint) run" where
  "stcp_connect rand_r sc ss =
     run_bind (transport_open rand_r True sc) (\<lambda>(c0, sc0).
     run_bind (transport_open rand_r False ss) (\<lambda>(d0, ss0).
     case exchange sc0 ss0 of (sc1, ss1) \<Rightarrow>
     run_bind (handshake_step rand_r d0 ss1) (\<lambda>(d1, ss2).
     case exchange ss2 sc1 of (ss3, sc3) \<Rightarrow>
     run_bind (handshake_step rand_r c0 sc3) (\<lambda>(c1, sc4).
     case exchange sc4 ss3 of (sc5, ss5) \<Rightarrow>
     run_bind (handshake_step rand_r d1 ss5) (\<lambda>(d2, ss6).
     Ret (new_endpoint True c1 sc5, new_endpoint False d2 ss6))))))"

definition fresh_socket :: "mysock_context \<Rightarrow> bool" where
  "fresh_socket sd \<longleftrightarrow> net_ok (network_state sd) \<and> net_out (network_state sd) = []
     \<and> network_recv_queue sd = [] \<and> app_send_queue sd = [] \<and> app_recv_queue sd = []
     \<and> \<not> close_requested sd \<and> \<not> listening sd \<and> \<not> eof sd"

definition peers :: "mysock_context \<Rightarrow> mysock_context \<Rightarrow> bool" where
  "peers sc ss \<longleftrightarrow> own_ip (network_state sc) = peer_ip (network_state ss)
     \<and> own_ip (network_state ss) = peer_ip (network_state sc)"

lemma net_ok_set_out [simp]:
  "net_ok (net\<lparr>net_out := ps\<rparr>) = net_ok net" "own_ip (net\<lparr>net_out := ps\<rparr>) = own_ip net"
  by (simp_all add: net_ok_def own_ip_def)

lemma exchange_one [simp]:
  "network_recv_queue sb = [] \<Longrightarrow> net_out (network_state sa) = [] \<Longrightarrow>
   exchange (push_out sa p) sb = (sa, sb\<lparr>network_recv_queue := [p]\<rparr>)"
  by (simp add: exchange_def set_out_def push_out_def deliver_to_def)

lemma recv_header_one:
  assumes "net_ok (network_state sd)" "seg_ok (peer_ip (network_state sd)) (own_ip (network_state sd)) p"
    and "length p = 20" "network_recv_queue sd = []"
  shows "recv_header (sd\<lparr>network_recv_queue := [p]\<rparr>) = Ret (hdr p, sd)"
  using recv_header_eq [of "sd\<lparr>network_recv_queue := [p]\<rparr>" p "[]"] assms by simp

lemma stcp_connect_eq:
  assumes c: "fresh_socket sc" and s: "fresh_socket ss" and p: "peers sc ss"
  shows "stcp_connect r sc ss =
    Ret (new_endpoint True (zero_context\<lparr>initial_sequence_num := 1, connection_state := CSTATE_ESTABLISHED\<rparr>) sc,
         new_endpoint False (zero_context\<lparr>initial_sequence_num := 1, connection_state := CSTATE_ESTABLISHED\<rparr>) ss)"
proof -
  note [simp] = c [unfolded fresh_socket_def] s [unfolded fresh_socket_def]
  have [simp]: "seg_ok (peer_ip (network_state ss)) (own_ip (network_state ss)) (wire (network_state sc) h [])"
    "seg_ok (peer_ip (network_state sc)) (own_ip (network_state sc)) (wire (network_state ss) h [])" for h
    using seg_ok_wire [of "network_state sc" "[]" h] seg_ok_wire [of "network_state ss" "[]" h] p
    by (simp_all add: peers_def)
  show ?thesis
    by (simp add: stcp_connect_def transport_open_def handshake_step_def generate_initial_seq_num_def
      zero_context_def stcp_network_send_header_eq recv_header_one Let_def)
qed

lemma connect_inv:
  assumes "fresh_socket sc" "fresh_socket ss" "peers sc ss" "stcp_connect r sc ss = Ret (a, b)"
  shows "sys_inv a b"
proof -
  have w: "win_ok (transport_established x (zero_context\<lparr>initial_sequence_num := 1, connection_state := CSTATE_ESTABLISHED\<rparr>))" for x
    by (rule win_ok_established)
  have e: "unacked (transport_established x (zero_context\<lparr>initial_sequence_num := 1, connection_state := CSTATE_ESTABLISHED\<rparr>)) = []" for x
    by (simp add: unacked_def in_flight_def transport_established_def Let_def)
  have ab: "a = new_endpoint True (zero_context\<lparr>initial_sequence_num := 1, connection_state := CSTATE_ESTABLISHED\<rparr>) sc"
    "b = new_endpoint False (zero_context\<lparr>initial_sequence_num := 1, connection_state := CSTATE_ESTABLISHED\<rparr>) ss"
    using stcp_connect_eq [OF assms(1-3), of r] assms(4) by simp_all
  have "flow_between a b" "flow_between b a"
    using assms(1,2) w e
    by (auto simp: flow_between_def flow_ok_def ab new_endpoint_def fresh_socket_def,
        auto simp: transport_established_def Let_def)
  then show ?thesis
    using assms(1-3)
    by (auto simp: sys_inv_def ab ep_open_def linked_def new_endpoint_def fresh_socket_def peers_def
      transport_established_def zero_context_def Let_def)
qed

section \<open>Reachable states\<close>

definition stcp_reachable :: "(u32 \<Rightarrow> u32 \<times> u32) \<Rightarrow> mysock_context \<Rightarrow> mysock_context \<Rightarrow> endpoint \<Rightarrow> endpoint \<Rightarrow> bool" where
  "stcp_reachable r sc ss a b \<longleftrightarrow> fresh_socket sc \<and> fresh_socket ss \<and> peers sc ss
     \<and> (\<exists>a0 b0. stcp_connect r sc ss = Ret (a0, b0) \<and> (sys_step r)\<^sup>*\<^sup>* (a0, b0) (a, b))"

lemma reachable_inv:
  "stcp_reachable r sc ss a b \<Longrightarrow> short_enough a \<Longrightarrow> short_enough b \<Longrightarrow> sys_inv a b"
  unfolding stcp_reachable_def using connect_inv sys_steps_keep_inv by blast

section \<open>A connection for the examples\<close>

definition demo_net :: "u16 \<Rightarrow> u16 \<Rightarrow> u32 \<Rightarrow> u32 \<Rightarrow> network_context" where
  "demo_net port peer_port ip peer =
     \<lparr>is_reliable = True, local_addr = \<lparr>sin_port = port, sin_addr = ip\<rparr>,
      peer_addr = \<lparr>sin_port = peer_port, sin_addr = peer\<rparr>, peer_addr_len = 16, peer_addr_valid = True,
      random_seed = 0, copied = False, copy_buffer = [], net_port = port, interface_ip = (\<lambda>_. ip), net_out = []\<rparr>"

definition demo_socket :: "network_context \<Rightarrow> mysock_context" where
  "demo_socket net =
     \<lparr>is_active = True, stcp_state = 0, network_state = net, bound = True, listening = False, my_sd = 0, listen_sd = -1,
      blocking = False, stcp_errno = 0, transport_thread_started = True, close_requested = False, eof = False,
      network_recv_queue = [], app_send_queue = [], app_recv_queue = []\<rparr>"

definition demo_client :: mysock_context where
  "demo_client = demo_socket (demo_net 0x1027 0x8813 0x0100007F 0x0200007F)"

definition demo_server :: mysock_context where
  "demo_server = demo_socket (demo_net 0x8813 0x1027 0x0200007F 0x0100007F)"

definition established_ctx :: "bool \<Rightarrow> context_t" where
  "established_ctx act = transport_established act
     (zero_context\<lparr>initial_sequence_num := 1, connection_state := CSTATE_ESTABLISHED\<rparr>)"

definition demo_endpoint :: "bool \<Rightarrow> mysock_context \<Rightarrow> bytes \<Rightarrow> endpoint" where
  "demo_endpoint act sd buf =
     \<lparr>ep_ctx = established_ctx act, ep_sd = sd\<lparr>app_recv_queue := [buf]\<rparr>, ep_written = buf, ep_read = []\<rparr>"

lemma demo_sockets: "fresh_socket demo_client" "fresh_socket demo_server" "peers demo_client demo_server"
  by (simp_all add: fresh_socket_def peers_def demo_client_def demo_server_def demo_socket_def demo_net_def
    net_ok_def own_ip_def)

lemma demo_reachable:
  "stcp_reachable r demo_client demo_server (demo_endpoint True demo_client x) (demo_endpoint False demo_server y)"
proof -
  let ?a = "new_endpoint True (zero_context\<lparr>initial_sequence_num := 1, connection_state := CSTATE_ESTABLISHED\<rparr>) demo_client"
  let ?b = "new_endpoint False (zero_context\<lparr>initial_sequence_num := 1, connection_state := CSTATE_ESTABLISHED\<rparr>) demo_server"
  have wr: "mywrite_ctx demo_client x = Ret (Inr (length x), demo_client\<lparr>app_recv_queue := [x]\<rparr>)"
    "mywrite_ctx demo_server y = Ret (Inr (length y), demo_server\<lparr>app_recv_queue := [y]\<rparr>)"
    by (simp_all add: mywrite_ctx_def demo_client_def demo_server_def demo_socket_def)
  have "ep_step r (?a, ?b) (demo_endpoint True demo_client x, ?b)"
    using ep_step.app_write [of ?a x "length x" "demo_client\<lparr>app_recv_queue := [x]\<rparr>" r ?b] wr(1)
    by (simp add: new_endpoint_def demo_endpoint_def established_ctx_def)
  then have 1: "sys_step r (?a, ?b) (demo_endpoint True demo_client x, ?b)"
    by (simp add: sys_step_def)
  have "ep_step r (?b, demo_endpoint True demo_client x) (demo_endpoint False demo_server y, demo_endpoint True demo_client x)"
    using ep_step.app_write [of ?b y "length y" "demo_server\<lparr>app_recv_queue := [y]\<rparr>" r] wr(2)
    by (simp add: new_endpoint_def demo_endpoint_def established_ctx_def)
  then have 2: "sys_step r (demo_endpoint True demo_client x, ?b) (demo_endpoint True demo_client x, demo_endpoint False demo_server y)"
    by (simp add: sys_step_def)
  from 1 2 have "(sys_step r)\<^sup>*\<^sup>* (?a, ?b) (demo_endpoint True demo_client x, demo_endpoint False demo_server y)"
    by (rule converse_rtranclp_into_rtranclp [of "sys_step r", OF _ r_into_rtranclp [of "sys_step r"]])
  then show ?thesis
    using demo_sockets stcp_connect_eq [OF demo_sockets] by (auto simp: stcp_reachable_def)
qed

section \<open>What the connection guarantees\<close>





text \<open>
  C19: from every such state the threads, the network and the reading applications can go on so that, if
  nothing more is written, all bytes written on each side are read on the other: no window, acknowledgement
  or queue blocks the transfer for ever.
\<close>

theorem stcp_all_delivered:
  assumes "stcp_reachable r sc ss a b" "short_enough a" "short_enough b"
  shows "\<exists>a' b'. (sys_step r)\<^sup>*\<^sup>* (a, b) (a', b') \<and> ep_written a' = ep_written a \<and> ep_written b' = ep_written b
    \<and> ep_read b' = ep_written a \<and> ep_read a' = ep_written b"
  using eventually_delivered [OF reachable_inv [OF assms] assms(2,3)] .

theorem stcp_all_delivered_witness:
  "\<exists>a' b'. (sys_step (\<lambda>s. (s, s)))\<^sup>*\<^sup>* (demo_endpoint True demo_client (replicate 700 5), demo_endpoint False demo_server [4]) (a', b')
    \<and> ep_read b' = replicate 700 5 \<and> ep_read a' = [4]"
  using stcp_all_delivered [OF demo_reachable [of "\<lambda>s. (s, s)" "replicate 700 5" "[4]"]]
  by (auto simp: short_enough_def demo_endpoint_def)

text \<open>
  C21: the handshake between an active and a passive endpoint over such a network completes: both are
  established with sequence numbers 1, an empty window of 536 bytes, and no packet is left over.
\<close>

theorem stcp_handshake:
  assumes "fresh_socket sc" "fresh_socket ss" "peers sc ss"
  shows "\<exists>a b. stcp_connect r sc ss = Ret (a, b)
    \<and> connection_state (ep_ctx a) = CSTATE_ESTABLISHED \<and> connection_state (ep_ctx b) = CSTATE_ESTABLISHED
    \<and> is_client (ep_ctx a) \<and> \<not> is_client (ep_ctx b)
    \<and> next_seqnum (ep_ctx a) = RecvBase (ep_ctx b) \<and> next_seqnum (ep_ctx b) = RecvBase (ep_ctx a)
    \<and> in_flight (ep_ctx a) = 0 \<and> in_flight (ep_ctx b) = 0
    \<and> win_rem (ep_ctx a) = 536 \<and> win_rem (ep_ctx b) = 536 \<and> ep_sd a = sc \<and> ep_sd b = ss"
  using stcp_connect_eq [OF assms, of r]
  by (simp add: new_endpoint_def transport_established_def Let_def in_flight_def MSS_def)

theorem stcp_handshake_witness:
  "\<exists>a b. stcp_connect (\<lambda>s. (s, s)) demo_client demo_server = Ret (a, b)
    \<and> connection_state (ep_ctx a) = CSTATE_ESTABLISHED \<and> connection_state (ep_ctx b) = CSTATE_ESTABLISHED"
  using stcp_handshake [OF demo_sockets, of "\<lambda>s. (s, s)"] by auto

end
