(* ===== verification/Transport_Close.thy ===== *)
theory Transport_Close
  imports Transport_Conn
begin

text \<open>
  Connection release: the exchange of FINs that closes both endpoints once all data has been
  acknowledged, and what happens when a client closes while its window is full.
\<close>

section \<open>Single iterations\<close>

definition request_close :: "mysock_context \<Rightarrow> mysock_context" where
  "request_close sd = sd\<lparr>close_requested := True\<rparr>"

lemma iter_close:
  assumes "app_recv_queue sd = []" "network_recv_queue sd = []"
  shows "control_loop_iter r ctx (request_close sd) = close_branch r ctx (sd\<lparr>close_requested := False\<rparr>)"
  using assms by (simp add: control_loop_iter_def stcp_wait_for_event_def request_close_def Let_def)

lemma iter_packet:
  assumes "app_recv_queue sd = []" "network_recv_queue sd = p # q" "\<not> close_requested sd"
  shows "control_loop_iter r ctx sd =
    (if connection_state ctx \<in> {CSTATE_FIN_WAIT_1, CSTATE_LAST_ACK} then close_branch r ctx sd
     else network_data r ctx sd)"
  using assms by (simp add: control_loop_iter_def stcp_wait_for_event_def Let_def)

definition fin_header :: "context_t \<Rightarrow> tcphdr" where
  "fin_header ctx = zero_tcphdr\<lparr>th_seq := ucast (next_seqnum ctx), th_win := RECV_WINDOW_SIZE, th_flags := TH_FIN\<rparr>"

lemma send_fin_eq:
  "net_ok (network_state sd) \<Longrightarrow>
   send_fin r ctx sd = Ret (set_rem (ctx\<lparr>next_seqnum := next_seqnum ctx + 1\<rparr>), push_out sd (wire (network_state sd) (fin_header ctx) []))"
  by (simp add: send_fin_def stcp_network_send_header_eq fin_header_def)

lemma handle_fin_eq:
  "net_ok (network_state sd) \<Longrightarrow>
   handle_fin r ctx sd h =
     Ret (if is_client ctx then ctx\<lparr>RecvBase := RecvBase ctx + 1, connection_state := CSTATE_CLOSED, conn_done := True\<rparr>
          else ctx\<lparr>RecvBase := RecvBase ctx + 1, connection_state := CSTATE_CLOSE_WAIT\<rparr>,
          stcp_fin_received (push_out sd (wire (network_state sd) (ack_header (th_seq h + 1) (RecvBase ctx + 1)) [])))"
  by (simp add: handle_fin_def stcp_network_send_header_eq Let_def)

section \<open>Orderly release\<close>

text \<open>
  The client closes, its FIN is answered, the server closes in turn, its FIN is answered; each packet is
  delivered as soon as it has been sent.
\<close>

definition stcp_release ::
  "(u32 \<Rightarrow> u32 \<times> u32) \<Rightarrow> context_t \<times> mysock_context \<Rightarrow> context_t \<times> mysock_context
    \<Rightarrow> ((context_t \<times> mysock_context) \<times> (context_t \<times> mysock_context)) run" where
  "stcp_release r a b =
     run_bind (control_loop_iter r (fst a) (request_close (snd a))) (\<lambda>(ca1, sa1).
     case exchange sa1 (snd b) of (sa2, sb1) \<Rightarrow>
     run_bind (control_loop_iter r (fst b) sb1) (\<lambda>(cb1, sb2).
     case exchange sb2 sa2 of (sb3, sa3) \<Rightarrow>
     run_bind (control_loop_iter r ca1 sa3) (\<lambda>(ca2, sa4).
     run_bind (control_loop_iter r cb1 (request_close sb3)) (\<lambda>(cb2, sb4).
     case exchange sb4 sa4 of (sb5, sa5) \<Rightarrow>
     run_bind (control_loop_iter r ca2 sa5) (\<lambda>(ca3, sa6).
     case exchange sa6 sb5 of (sa7, sb6) \<Rightarrow>
     run_bind (control_loop_iter r cb2 sb6) (\<lambda>(cb3, sb7). Ret ((ca3, sa7), (cb3, sb7))))))))"

lemma fin_received_simps [simp]:
  "network_state (stcp_fin_received sd) = network_state sd"
  "network_recv_queue (stcp_fin_received sd) = network_recv_queue sd"
  "app_recv_queue (stcp_fin_received sd) = app_recv_queue sd"
  "close_requested (stcp_fin_received sd) = close_requested sd"
  "app_send_queue (stcp_fin_received sd) = app_send_queue sd @ [[]]"
  by (simp_all add: stcp_fin_received_def)

definition idle :: "mysock_context \<Rightarrow> bool" where
  "idle sd \<longleftrightarrow> net_ok (network_state sd) \<and> net_out (network_state sd) = [] \<and> network_recv_queue sd = []
     \<and> app_recv_queue sd = [] \<and> \<not> close_requested sd"

lemma idle_fin_received [simp]: "idle (stcp_fin_received sd) = idle sd"
  by (simp add: idle_def)

lemma fin_received_push_out: "stcp_fin_received (push_out sd p) = push_out (stcp_fin_received sd) p"
  by (simp add: stcp_fin_received_def push_out_def)

lemma exchange_push: "idle sa \<Longrightarrow> exchange (push_out sa p) sb = (sa, deliver_to sb p)"
  by (simp add: exchange_def set_out_def push_out_def idle_def)

lemma idle_unchanged:
  "idle sd \<Longrightarrow> sd\<lparr>close_requested := False\<rparr> = sd" "idle sd \<Longrightarrow> (deliver_to sd p)\<lparr>network_recv_queue := []\<rparr> = sd"
  by (simp_all add: idle_def deliver_to_def)

lemma iter_send_fin:
  assumes "idle sd" "connection_state ctx = (if is_client ctx then CSTATE_ESTABLISHED else CSTATE_CLOSE_WAIT)"
  shows "control_loop_iter r ctx (request_close sd) =
    Ret ((set_rem (ctx\<lparr>next_seqnum := next_seqnum ctx + 1\<rparr>))\<lparr>connection_state :=
           if is_client ctx then CSTATE_FIN_WAIT_1 else CSTATE_LAST_ACK\<rparr>,
         push_out sd (wire (network_state sd) (fin_header ctx) []))"
  using iter_close [of sd r ctx] send_fin_eq [of sd r ctx] assms idle_unchanged(1) [OF assms(1)]
  by (simp add: close_branch_def idle_def)

lemma iter_receive_fin:
  assumes "idle sd" "connection_state ctx \<notin> {CSTATE_FIN_WAIT_1, CSTATE_LAST_ACK}"
    and "seg_ok (peer_ip (network_state sd)) (own_ip (network_state sd)) p" "th_flags (hdr p) = TH_FIN"
  shows "control_loop_iter r ctx (deliver_to sd p) =
    Ret (if is_client ctx then ctx\<lparr>RecvBase := RecvBase ctx + 1, connection_state := CSTATE_CLOSED, conn_done := True\<rparr>
          else ctx\<lparr>RecvBase := RecvBase ctx + 1, connection_state := CSTATE_CLOSE_WAIT\<rparr>,
         push_out (stcp_fin_received sd) (wire (network_state sd) (ack_header (th_seq (hdr p) + 1) (RecvBase ctx + 1)) []))"
  using iter_packet [of "deliver_to sd p" p "[]" r ctx] network_data_eq [of "deliver_to sd p" p "[]" r ctx]
    handle_fin_eq [of sd r ctx] assms idle_unchanged(2) [OF assms(1), of p]
  by (simp add: idle_def fin_received_push_out TH_FIN_def TH_ACK_def)

lemma iter_receive_last_ack:
  assumes "idle sd" "connection_state ctx = (if is_client ctx then CSTATE_FIN_WAIT_1 else CSTATE_LAST_ACK)"
    and "seg_ok (peer_ip (network_state sd)) (own_ip (network_state sd)) p" "is_ack p" "length p = 20"
  shows "control_loop_iter r ctx (deliver_to sd p) =
    Ret (if is_client ctx then ctx\<lparr>connection_state := CSTATE_FIN_WAIT_2\<rparr>
         else ctx\<lparr>connection_state := CSTATE_CLOSED, conn_done := True\<rparr>, sd)"
  using iter_packet [of "deliver_to sd p" p "[]" r ctx] recv_header_eq [of "deliver_to sd p" p "[]"]
    assms idle_unchanged(2) [OF assms(1), of p]
  by (simp add: idle_def close_branch_def)

text \<open>
  C22: when an established client and server have nothing left to send and nothing in flight, closing
  the client and then the server runs the four-way release to its end: both connections are done and closed,
  each application finds an end-of-file mark after the data it has not read, and no packet is left over.
\<close>

theorem stcp_orderly_release:
  assumes "idle sa" "idle sb" "peers sa sb" "is_client ca" "\<not> is_client cb"
    and "connection_state ca = CSTATE_ESTABLISHED" "connection_state cb = CSTATE_ESTABLISHED"
  shows "\<exists>ca' cb'. stcp_release r (ca, sa) (cb, sb) = Ret ((ca', stcp_fin_received sa), (cb', stcp_fin_received sb))
    \<and> conn_done ca' \<and> conn_done cb' \<and> connection_state ca' = CSTATE_CLOSED \<and> connection_state cb' = CSTATE_CLOSED
    \<and> app_send_queue (stcp_fin_received sa) = app_send_queue sa @ [[]]
    \<and> app_send_queue (stcp_fin_received sb) = app_send_queue sb @ [[]]"
proof -
  have [simp]: "seg_ok (peer_ip (network_state sb)) (own_ip (network_state sb)) (wire (network_state sa) h [])"
    "seg_ok (peer_ip (network_state sa)) (own_ip (network_state sa)) (wire (network_state sb) h [])" for h
    using seg_ok_wire [of "network_state sa" "[]" h] seg_ok_wire [of "network_state sb" "[]" h] assms(1-3)
    by (simp_all add: peers_def idle_def)
  show ?thesis
    using assms
    by (simp add: stcp_release_def iter_send_fin iter_receive_fin iter_receive_last_ack exchange_push set_rem_def
      fin_header_def ack_header_def)
qed

lemma demo_idle: "idle demo_client" "idle demo_server"
  using demo_sockets(1,2) by (simp_all add: fresh_socket_def idle_def demo_client_def demo_server_def demo_socket_def)

theorem stcp_orderly_release_witness:
  "\<exists>ca' cb'. stcp_release (\<lambda>s. (s, s)) (established_ctx True, demo_client) (established_ctx False, demo_server)
      = Ret ((ca', stcp_fin_received demo_client), (cb', stcp_fin_received demo_server))
    \<and> conn_done ca' \<and> conn_done cb'"
proof -
  have "is_client (established_ctx True)" "\<not> is_client (established_ctx False)"
    "connection_state (established_ctx True) = CSTATE_ESTABLISHED"
    "connection_state (established_ctx False) = CSTATE_ESTABLISHED"
    by (simp_all add: established_ctx_def transport_established_def Let_def)
  from stcp_orderly_release [OF demo_idle demo_sockets(3) this, of "\<lambda>s. (s, s)"] show ?thesis by blast
qed

section \<open>Closing with a full window\<close>


definition demo_full :: context_t where
  "demo_full = sent_ctx (established_ctx True) (replicate 536 7)"

lemma demo_full:
  "win_ok demo_full" "win_rem demo_full = 0" "is_client demo_full" "connection_state demo_full = CSTATE_ESTABLISHED"
  "next_seqnum demo_full = 537"
proof -
  have w: "win_ok (established_ctx True)"
    unfolding established_ctx_def by (rule win_ok_established)
  have e: "win_rem (established_ctx True) = 536" "SendBase (established_ctx True) = 1"
    "next_seqnum (established_ctx True) = 1" "SWND (established_ctx True) = 536"
    "is_client (established_ctx True)" "connection_state (established_ctx True) = CSTATE_ESTABLISHED"
    by (simp_all add: established_ctx_def transport_established_def Let_def MSS_def)
  show "win_ok demo_full"
    unfolding demo_full_def by (rule win_ok_sent(1) [OF w]) (simp_all add: e)
  show "win_rem demo_full = 0" "is_client demo_full" "connection_state demo_full = CSTATE_ESTABLISHED"
    "next_seqnum demo_full = 537"
    by (simp_all add: demo_full_def e) (simp add: sent_ctx_def set_rem_def e)
qed


end
