(* ===== verification/Listener.thy ===== *)
theory Listener
  imports Libc
begin

text \<open>
  The code that \<^verbatim>\<open>server.c\<close> of assignment 1 and \<^verbatim>\<open>proxy.c\<close> of assignment 2 share: binding a listening socket to the first
  address that works, and the loop that accepts connections and forks a child process for each. System calls are
  parameters: \<open>listen_env\<close> says which of them succeed. Exit codes are values on the left.
\<close>

section \<open>Opening the listening socket\<close>

fun bind_first :: "('a \<Rightarrow> bool) \<Rightarrow> ('a \<Rightarrow> bool) \<Rightarrow> ('a \<Rightarrow> bool) \<Rightarrow> 'a list \<Rightarrow> int + 'a option" where
  "bind_first can_socket can_reuse can_bind [] = Inr None"
| "bind_first can_socket can_reuse can_bind (p # ps) =
     (if \<not> can_socket p then bind_first can_socket can_reuse can_bind ps
      else if \<not> can_reuse p then Inl 1
      else if \<not> can_bind p then bind_first can_socket can_reuse can_bind ps
      else Inr (Some p))"

record 'a listen_env =
  le_addrs :: "string \<Rightarrow> 'a list option"     \<comment> \<open>\<^verbatim>\<open>getaddrinfo(NULL, PORT, ...)\<close>\<close>
  le_socket :: "'a \<Rightarrow> bool"
  le_reuse :: "'a \<Rightarrow> bool"                   \<comment> \<open>\<^verbatim>\<open>setsockopt\<close>\<close>
  le_bind :: "'a \<Rightarrow> bool"
  le_listen :: "'a \<Rightarrow> bool"
  le_sigaction :: bool

definition open_listener :: "'a listen_env \<Rightarrow> string \<Rightarrow> int + 'a" where
  "open_listener env port =
     (case le_addrs env port of
        None \<Rightarrow> Inl 1
      | Some ps \<Rightarrow>
          (case bind_first (le_socket env) (le_reuse env) (le_bind env) ps of
             Inl code \<Rightarrow> Inl code
           | Inr None \<Rightarrow> Inl 2
           | Inr (Some p) \<Rightarrow>
               if \<not> le_listen env p then Inl 1
               else if \<not> le_sigaction env then Inl 1
               else Inr p))"

text \<open>The socket is bound to the first address for which a socket can be created and bound.\<close>

lemma bind_first_Some:
  "bind_first cs cr cb ps = Inr (Some p) \<Longrightarrow>
   \<exists>before after. ps = before @ p # after \<and> cs p \<and> cr p \<and> cb p \<and> list_all (\<lambda>q. \<not> (cs q \<and> cb q)) before"
proof (induction ps)
  case (Cons q ps)
  show ?case
  proof (cases "cs q \<and> cr q \<and> cb q")
    case True
    with Cons.prems have "q # ps = [] @ p # ps \<and> cs p \<and> cr p \<and> cb p \<and> list_all (\<lambda>q. \<not> (cs q \<and> cb q)) []" by auto
    then show ?thesis by blast
  next
    case False
    with Cons.prems have "bind_first cs cr cb ps = Inr (Some p)" and q: "\<not> (cs q \<and> cb q)" by (auto split: if_splits)
    from Cons.IH [OF this(1)] obtain b a where "ps = b @ p # a" "cs p" "cr p" "cb p" "list_all (\<lambda>q. \<not> (cs q \<and> cb q)) b"
      by blast
    with q have "q # ps = (q # b) @ p # a \<and> cs p \<and> cr p \<and> cb p \<and> list_all (\<lambda>q. \<not> (cs q \<and> cb q)) (q # b)" by simp
    then show ?thesis by blast
  qed
qed simp

section \<open>Accepting connections\<close>

datatype 'c accept_event =
    Accept_Failed
  | Accepted 'c bool      \<comment> \<open>the connection, and whether \<^verbatim>\<open>fork\<close> creates a child\<close>

text \<open>What the children do, for the results of \<^verbatim>\<open>accept\<close> so far; the loop itself never ends.\<close>

fun accept_loop :: "('c \<Rightarrow> 'r) \<Rightarrow> 'c accept_event list \<Rightarrow> 'r list" where
  "accept_loop child [] = []"
| "accept_loop child (Accept_Failed # es) = accept_loop child es"
| "accept_loop child (Accepted c forked # es) = (if forked then [child c] else []) @ accept_loop child es"

lemma accept_loop_map: "accept_loop child es = map child (accept_loop (\<lambda>c. c) es)"
  by (induction child es rule: accept_loop.induct) auto

text \<open>The value of an option given several times is the last one.\<close>

definition option_value :: "char \<Rightarrow> (char \<times> string) list \<Rightarrow> string option" where
  "option_value c os = map_of (rev os) c"

end
