(* ===== verification/Assign1.thy ===== *)
theory Assign1
  imports Listener Sock_Io
begin

text \<open>
  Assignment 1: the client sends its standard input line by line until an empty line or the end of the
  input, the server prints what it receives. Looking up and connecting to addresses is modelled by the list
  of the addresses found; the answers of the system calls are parameters. The pointer to an option that was not
  given is not initialised; its use is the fault \<open>OutOfBounds\<close>.
\<close>

section \<open>The client\<close>

definition MAXDATASIZE :: nat where "MAXDATASIZE = 1024 * 5"

text \<open>The first address for which a socket can be created and connected; \<^verbatim>\<open>client.c\<close> tries all of them.\<close>

fun connect_first :: "('a \<Rightarrow> bool) \<Rightarrow> ('a \<Rightarrow> bool) \<Rightarrow> 'a list \<Rightarrow> 'a option" where
  "connect_first can_socket can_connect [] = None"
| "connect_first can_socket can_connect (p # ps) =
     (if \<not> can_socket p then connect_first can_socket can_connect ps
      else if \<not> can_connect p then connect_first can_socket can_connect ps
      else Some p)"

text \<open>
  The sending loop: the strings handed to \<^verbatim>\<open>send\<close>, for the remaining input and the previous line. The first
  previous line is whatever the uninitialised buffer holds. \<^verbatim>\<open>strcpy\<close>, \<^verbatim>\<open>strchr\<close> and \<^verbatim>\<open>strlen\<close> see a line up to its first NUL.
\<close>

function client_loop :: "string \<Rightarrow> string \<Rightarrow> string list" where
  "client_loop prev_buf input =
     (case fgets (MAXDATASIZE - 2) input of (buf, rest) \<Rightarrow>
        if buf = [] then []
        else if CHR 0x0A \<in> set prev_buf \<and> hd buf = CHR 0x0A then []
        else to_nul buf # client_loop (to_nul buf) rest)"
  by pat_completeness auto
termination
  by (relation "measure (\<lambda>(_, input). length input)") (auto simp: MAXDATASIZE_def dest: fgets_shorter)

declare client_loop.simps [simp del]

text \<open>The exit code, and the address connected to with the strings sent.\<close>

definition client_main ::
  "(string \<Rightarrow> string \<Rightarrow> 'a list option) \<Rightarrow> ('a \<Rightarrow> bool) \<Rightarrow> ('a \<Rightarrow> bool) \<Rightarrow> string list \<Rightarrow> string \<Rightarrow> string
    \<Rightarrow> (int \<times> ('a \<times> string list) option) res" where
  "client_main addrs can_socket can_connect args garbage input =
     (if length args \<noteq> 4 then Inr (1, None)
      else
        let os = fst (getopt ''p:h:'' args)
        in case (option_value CHR ''h'' os, option_value CHR ''p'' os) of
             (Some Host, Some PORT) \<Rightarrow>
               (case addrs Host PORT of
                  None \<Rightarrow> Inr (1, None)
                | Some servinfo \<Rightarrow>
                    (case connect_first can_socket can_connect servinfo of
                       None \<Rightarrow> Inr (2, None)
                     | Some p \<Rightarrow> Inr (0, Some (p, client_loop garbage input))))
           | _ \<Rightarrow> Inl OutOfBounds)"

section \<open>The server\<close>

text \<open>\<^verbatim>\<open>printf("%s", ReadBuf)\<close> prints the received bytes before the first NUL.\<close>

partial_function (option) server_loop :: "'s reader \<Rightarrow> 's \<Rightarrow> bytes \<Rightarrow> (bytes \<times> 's) option" where
  "server_loop rd s printed =
     (case rd s (MAXDATASIZE - 1) of
        (Got d, s1) \<Rightarrow>
          if d = [] then Some (printed, s1) else server_loop rd s1 (printed @ takeWhile (\<lambda>b. b \<noteq> 0) d)
      | (_, s1) \<Rightarrow> Some (printed, s1))"

text \<open>An exit code, or the address listened on and what the child processes print.\<close>

definition server_main ::
  "'a listen_env \<Rightarrow> 's reader \<Rightarrow> string list \<Rightarrow> 's accept_event list \<Rightarrow> (int + 'a \<times> (bytes \<times> 's) option list) res" where
  "server_main env rd args es =
     (if length args \<noteq> 2 then Inr (Inl 1)
      else case option_value CHR ''p'' (fst (getopt ''p:'' args)) of
        None \<Rightarrow> Inl OutOfBounds
      | Some PORT \<Rightarrow>
          (case open_listener env PORT of
             Inl code \<Rightarrow> Inr (Inl code)
           | Inr p \<Rightarrow> Inr (Inr (p, accept_loop (\<lambda>new_fd. server_loop rd new_fd []) es))))"

section \<open>What is sent\<close>

text \<open>The text up to the first newline that is followed by another newline.\<close>

fun until_double_enter :: "string \<Rightarrow> string" where
  "until_double_enter (c # d # cs) =
     (if c = CHR 0x0A \<and> d = CHR 0x0A then [c] else c # until_double_enter (d # cs))"
| "until_double_enter s = s"

lemma fgets_line:
  assumes "fgets (Suc n) s = (l, r)" "s \<noteq> []"
  shows "l \<noteq> [] \<and> CHR 0x0A \<notin> set (butlast l) \<and> (last l = CHR 0x0A \<or> length l = Suc n \<or> r = [])"
  using assms
proof (induction n arbitrary: s l r)
  case 0
  then show ?case by (cases s) (auto split: if_splits)
next
  case (Suc n)
  obtain c cs where s: "s = c # cs" using Suc.prems by (cases s) auto
  show ?case
  proof (cases "c = CHR 0x0A \<or> cs = []")
    case True
    then show ?thesis using Suc.prems s by (auto split: if_splits)
  next
    case False
    obtain l' r' where f: "fgets (Suc n) cs = (l', r')" by (cases "fgets (Suc n) cs")
    then have "l = c # l'" "r = r'" using Suc.prems s False by auto
    with Suc.IH [OF f] False show ?thesis by auto
  qed
qed

lemma until_append:
  "l \<noteq> [] \<Longrightarrow> CHR 0x0A \<notin> set (butlast l) \<Longrightarrow>
   until_double_enter (l @ r) = (if last l = CHR 0x0A \<and> r \<noteq> [] \<and> hd r = CHR 0x0A then l else l @ until_double_enter r)"
proof (induction l)
  case (Cons c l)
  show ?case
  proof (cases l)
    case Nil
    then show ?thesis by (cases r) auto
  next
    case (Cons d l')
    with Cons.prems Cons.IH show ?thesis by auto
  qed
qed simp

lemma client_loop_sends:
  "CHR 0x00 \<notin> set input \<Longrightarrow> CHR 0x0A \<notin> set prev \<or> input = [] \<or> hd input \<noteq> CHR 0x0A \<Longrightarrow>
   concat (client_loop prev input) = until_double_enter input"
proof (induction prev input rule: client_loop.induct)
  case (1 prev input)
  show ?case
  proof (cases "input = []")
    case True
    then show ?thesis by (simp add: client_loop.simps MAXDATASIZE_def numeral_eq_Suc)
  next
    case False
    obtain l r where f: "fgets (MAXDATASIZE - 2) input = (l, r)" by (cases "fgets (MAXDATASIZE - 2) input")
    then have f': "fgets (Suc 5117) input = (l, r)" by (simp add: MAXDATASIZE_def)
    note l = fgets_line [OF f' False]
    have lr: "input = l @ r" by (rule fgets_append [OF f'])
    have "hd l = hd input" using l by (simp add: lr)
    have nul: "to_nul l = l" using 1(2) lr by (intro to_nul_id) simp
    then have step: "client_loop prev input = l # client_loop l r"
      using 1(3) f l False \<open>hd l = hd input\<close> nul by (subst client_loop.simps) auto
    have nl: "CHR 0x0A \<in> set l \<longleftrightarrow> last l = CHR 0x0A"
      using l by (cases l rule: rev_cases) auto
    show ?thesis
    proof (cases "last l = CHR 0x0A \<and> r \<noteq> [] \<and> hd r = CHR 0x0A")
      case True
      obtain l2 r2 where f2: "fgets (Suc 5117) r = (l2, r2)" by (cases "fgets (Suc 5117) r")
      have "l2 \<noteq> [] \<and> hd l2 = hd r" using fgets_line [OF f2] fgets_append [OF f2] True by (metis hd_append2)
      then have "client_loop l r = []"
        using f2 nl True by (subst client_loop.simps) (simp add: MAXDATASIZE_def)
      then show ?thesis using True l step lr until_append [of l r] by simp
    next
      case False
      have "concat (client_loop l r) = until_double_enter r"
      proof (rule 1(1) [OF f [symmetric], unfolded nul])
        show "l \<noteq> []" using l by simp
        show "\<not> (CHR 0x0A \<in> set prev \<and> hd l = CHR 0x0A)"
          using 1(3) \<open>input \<noteq> []\<close> \<open>hd l = hd input\<close> by metis
        show "CHR 0x00 \<notin> set r" using 1(2) lr by simp
        show "CHR 0x0A \<notin> set l \<or> r = [] \<or> hd r \<noteq> CHR 0x0A" using False nl by blast
      qed
      then show ?thesis using False l step lr until_append [of l r] by auto
    qed
  qed
qed


lemma server_loop_prints:
  assumes ok: "reader_ok rd contents intr" "steady rd" "ends rd contents"
  shows "0 \<notin> set (contents s) \<Longrightarrow> \<exists>s'. server_loop rd s printed = Some (printed @ contents s, s')"
proof (induction "length (contents s)" arbitrary: s printed rule: less_induct)
  case less
  have pos: "0 < MAXDATASIZE - 1" by (simp add: MAXDATASIZE_def)
  show ?case
  proof (cases "contents s = []")
    case True
    then obtain s' where "rd s (MAXDATASIZE - 1) = (Got [], s')" using ok(3) pos unfolding ends_def by blast
    then show ?thesis using True by (subst server_loop.simps) simp
  next
    case False
    obtain d s1 where d: "rd s (MAXDATASIZE - 1) = (Got d, s1)" "d \<noteq> []" "contents s = d @ contents s1"
      using steady_got [OF ok(1,2) pos False] by blast
    have "length (contents s1) < length (contents s)" "0 \<notin> set (contents s1)" using d less.prems by auto
    then obtain s' where "server_loop rd s1 (printed @ d) = Some ((printed @ d) @ contents s1, s')" using less.hyps by blast
    moreover have "\<forall>b \<in> set d. b \<noteq> 0" using d(3) less.prems by auto
    then have "takeWhile (\<lambda>b. b \<noteq> 0) d = d" by (simp only: takeWhile_eq_all_conv)
    then have "server_loop rd s printed = server_loop rd s1 (printed @ d)"
      using d(1,2) by (subst server_loop.simps) (simp only: prod.case io_result.case if_False)
    ultimately show ?thesis using d(3) by simp
  qed
qed

definition typed_ok :: "string \<Rightarrow> string \<Rightarrow> bool" where
  "typed_ok garbage input \<longleftrightarrow>
     CHR 0x00 \<notin> set input \<and> (CHR 0x0A \<notin> set garbage \<or> input = [] \<or> hd input \<noteq> CHR 0x0A)"

lemma child_prints_typed:
  assumes "reader_ok rd contents intr" "steady rd" "ends rd contents" "typed_ok garbage input"
    and "contents s = to_bytes (concat (client_loop garbage input))"
  shows "\<exists>s'. server_loop rd s [] = Some (to_bytes (until_double_enter input), s')"
proof -
  have input: "CHR 0x00 \<notin> set input" "CHR 0x0A \<notin> set garbage \<or> input = [] \<or> hd input \<noteq> CHR 0x0A"
    using assms(4) by (simp_all add: typed_ok_def)
  have sent: "contents s = to_bytes (until_double_enter input)" using client_loop_sends [OF input] assms(5) by simp
  have "set (until_double_enter input) \<subseteq> set input" by (induction input rule: until_double_enter.induct) auto
  then have "0 \<notin> set (contents s)" using input(1) unfolding sent by (auto simp: to_bytes_def of_char_eq_0_iff)
  then show ?thesis using server_loop_prints [OF assms(1-3), of s "[]"] sent by simp
qed

lemma client_main_sent:
  "client_main addrs cs cc args garbage input = Inr (0, Some (p, sent)) \<Longrightarrow> sent = client_loop garbage input"
  by (auto simp: client_main_def Let_def split: if_splits option.splits)

text \<open>
  C37: the server prints exactly what the users typed at their clients. Once the server listens, let clients that
  connected (a run of their program that returns 0) have sent their bytes over the accepted connections, in whatever
  pieces and followed by the end of the stream; between them calls of \<^verbatim>\<open>accept\<close> may fail. Then every child process
  ends, and it has printed the input of its client up to the first newline that is followed by another newline, or all
  of it. The first line may be empty if the client's uninitialised buffer holds no newline.
\<close>

theorem server_prints_input:
  assumes "reader_ok rd contents intr" "steady rd" "ends rd contents" "open_listener env port = Inr l"
    and "list_all2 (\<lambda>(args, garbage, input) c. typed_ok garbage input \<and> (\<exists>p sent.
           client_main addrs can_socket can_connect args garbage input = Inr (0, Some (p, sent))
           \<and> contents c = to_bytes (concat sent))) clients (accept_loop (\<lambda>c. c) es)"
  shows "\<exists>outs. server_main env rd [''-p'', port] es = Inr (Inr (l, outs))
    \<and> list_all2 (\<lambda>(_, _, input) out. \<exists>s'. out = Some (to_bytes (until_double_enter input), s')) clients outs"
proof (intro exI conjI)
  show "server_main env rd [''-p'', port] es = Inr (Inr (l, accept_loop (\<lambda>c. server_loop rd c []) es))"
    using assms(4) by (simp add: server_main_def option_value_def)
  show "list_all2 (\<lambda>(_, _, input) out. \<exists>s'. out = Some (to_bytes (until_double_enter input), s')) clients
      (accept_loop (\<lambda>c. server_loop rd c []) es)"
    unfolding accept_loop_map [of "\<lambda>c. server_loop rd c []"] list_all2_map2
    by (rule list_all2_mono [OF assms(5)])
      (auto dest!: client_main_sent intro: child_prints_typed [OF assms(1-3)])
qed

definition demo_listen_env :: "unit listen_env" where
  "demo_listen_env = \<lparr>le_addrs = (\<lambda>_. Some [()]), le_socket = (\<lambda>_. True), le_reuse = (\<lambda>_. True), le_bind = (\<lambda>_. True),
     le_listen = (\<lambda>_. True), le_sigaction = True\<rparr>"

lemma demo_open_listener: "open_listener demo_listen_env port = Inr ()"
  by (simp add: open_listener_def demo_listen_env_def)

theorem server_prints_input_witness:
  "\<exists>s'. server_main demo_listen_env list_reader [''-p'', ''80'']
     [Accept_Failed, Accepted (to_bytes (concat (client_loop [] ''hi\<newline>x\<newline>\<newline>y''))) True]
     = Inr (Inr ((), [Some (to_bytes ''hi\<newline>x\<newline>'', s')]))"
proof -
  have r: "steady list_reader" "ends list_reader (\<lambda>b. b)" by (simp_all add: steady_def ends_def list_reader_def)
  have c: "client_main (\<lambda>_ _. Some [()]) (\<lambda>_. True) (\<lambda>_. True) [''-h'', ''a'', ''-p'', ''80''] [] ''hi\<newline>x\<newline>\<newline>y''
      = Inr (0, Some ((), client_loop [] ''hi\<newline>x\<newline>\<newline>y''))"
    by (simp add: client_main_def option_value_def)
  show ?thesis
    using server_prints_input [where clients = "[([''-h'', ''a'', ''-p'', ''80''], [], ''hi\<newline>x\<newline>\<newline>y'')]" and port = "''80''"
        and es = "[Accept_Failed, Accepted (to_bytes (concat (client_loop [] ''hi\<newline>x\<newline>\<newline>y''))) True]"
        and addrs = "\<lambda>_ _. Some [()]" and can_socket = "\<lambda>_. True" and can_connect = "\<lambda>_. True",
        OF list_reader_ok r demo_open_listener]
    by (auto simp: c typed_ok_def list_all2_Cons1)
qed

end
