(* ===== verification/Proxy.thy ===== *)
theory Proxy
  imports Assign1
begin

text \<open>
  Assignment 2, the HTTP proxy: receiving a request, the parser and its checks, the redirection of
  blacklisted hosts, connecting to the host and relaying the response. The child process that handles one
  connection is modelled; name resolution and the sockets are parameters. The request is the C string in
  \<^verbatim>\<open>totalBuf\<close>, an array of \<^verbatim>\<open>MAXDATASIZE\<close> characters that is zero behind the string; an access outside the array
  is the fault \<open>OutOfBounds\<close>.
\<close>

section \<open>The blacklist\<close>

text \<open>
  The lines of the standard input, appended to \<^verbatim>\<open>tot_blacklist\<close>. The array is not initialised: \<open>tot\<close> is at first what it
  happens to hold. The input is read only if \<^verbatim>\<open>poll\<close> says that there is some.
\<close>

function load_blacklist :: "string \<Rightarrow> string \<Rightarrow> string res" where
  "load_blacklist tot input =
     (case fgets (MAXDATASIZE - 1) input of (blacklist, rest) \<Rightarrow>
        if blacklist = [] then Inr tot
        else if length (tot @ to_nul blacklist) \<ge> MAXDATASIZE then Inl OutOfBounds
        else load_blacklist (tot @ to_nul blacklist) rest)"
  by pat_completeness auto
termination
  by (relation "measure (\<lambda>(_, input). length input)") (auto simp: MAXDATASIZE_def dest: fgets_shorter)

declare load_blacklist.simps [simp del]

definition read_blacklist :: "bool \<Rightarrow> string \<Rightarrow> string \<Rightarrow> string res" where
  "read_blacklist ready tot input = (if ready then load_blacklist tot input else Inr tot)"

section \<open>Receiving the request\<close>

abbreviation NL :: char where "NL \<equiv> CHR 0x0A"
abbreviation CR :: char where "CR \<equiv> CHR 0x0D"
abbreviation SP :: char where "SP \<equiv> CHR '' ''"

text \<open>\<^verbatim>\<open>totalBuf[k]\<close>\<close>

definition char_at :: "string \<Rightarrow> int \<Rightarrow> char res" where
  "char_at buf k =
     (if k < 0 \<or> k \<ge> int MAXDATASIZE then Inl OutOfBounds
      else Inr (if nat k < length buf then buf ! nat k else CHR 0x00))"

text \<open>The test for the end of the request; the character before the last one is compared twice.\<close>

definition request_ended :: "string \<Rightarrow> int \<Rightarrow> bool res" where
  "request_ended totalBuf num_tot =
     rbind (char_at totalBuf (num_tot - 1)) (\<lambda>c1. if c1 \<noteq> NL then Inr False else
     rbind (char_at totalBuf (num_tot - 2)) (\<lambda>c2. if c2 \<noteq> CR then Inr False else
     rbind (char_at totalBuf (num_tot - 3)) (\<lambda>c3. if c3 \<noteq> NL then Inr False else
     rbind (char_at totalBuf (num_tot - 2)) (\<lambda>c4. Inr (c4 = CR)))))"

partial_function (option) recv_request ::
  "'s reader \<Rightarrow> 's \<Rightarrow> string \<Rightarrow> int \<Rightarrow> ((string \<times> 's) res) option" where
  "recv_request rd s totalBuf num_tot =
     (case rd s (MAXDATASIZE - 1) of
        (Got d, s1) \<Rightarrow>
          if d = [] then Some (Inr (totalBuf, s1))
          else
            let n = num_tot + int (length d); buf = totalBuf @ c_string d
            in if length buf \<ge> MAXDATASIZE then Some (Inl OutOfBounds)
               else (case request_ended buf n of
                       Inl e \<Rightarrow> Some (Inl e)
                     | Inr ended \<Rightarrow> if ended then Some (Inr (buf, s1)) else recv_request rd s1 buf n)
      | (_, s1) \<Rightarrow> Some (Inr (totalBuf, s1)))"

section \<open>Parsing\<close>

text \<open>
  The loops \<^verbatim>\<open>while(totalBuf[walk] != ' ')\<close>. Without a space they run past the end of the array. The loop over the URI
  also counts colons and remembers where the second one is.
\<close>

fun scan_method :: "string \<Rightarrow> string \<Rightarrow> (string \<times> string) res" where
  "scan_method [] method = Inl OutOfBounds"
| "scan_method (c # rest) method = (if c = SP then Inr (method, rest) else scan_method rest (method @ [c]))"

fun scan_uri :: "string \<Rightarrow> string \<Rightarrow> nat \<Rightarrow> nat option \<Rightarrow> (string \<times> nat \<times> nat option \<times> string) res" where
  "scan_uri [] URI cnt portnum = Inl OutOfBounds"
| "scan_uri (c # rest) URI cnt portnum =
     (if c = SP then Inr (URI, cnt, portnum, rest)
      else
        let cnt1 = (if c = CHR '':'' then cnt + 1 else cnt);
            port1 = (if c = CHR '':'' \<and> cnt1 = 2 then Some (length URI) else portnum)
        in scan_uri rest (URI @ [c]) cnt1 port1)"

fun strstr :: "string \<Rightarrow> string \<Rightarrow> bool" where
  "strstr [] needle = (needle = [])"
| "strstr (c # cs) needle = (take (length needle) (c # cs) = needle \<or> strstr cs needle)"

definition starts_with :: "string \<Rightarrow> string \<Rightarrow> bool" where
  "starts_with s p \<longleftrightarrow> take (length p) s = p"

datatype proxy_outcome =
    Bad_Request                              \<comment> \<open>the message 400, and the connection is closed\<close>
  | Request string string string             \<comment> \<open>host, port and the text to be sent\<close>

definition warning_request :: string where
  "warning_request = ''GET http://warning.or.kr HTTP/1.0'' @ [CR, NL, CR, NL] @ ''Host: warning.or.kr'' @ [CR, NL, CR, NL]"

text \<open>Method, URI and port; \<open>resolves\<close> is whether \<^verbatim>\<open>gethostbyname\<close> finds the host.\<close>

definition split_port :: "string \<Rightarrow> nat \<Rightarrow> nat option \<Rightarrow> string \<times> string" where
  "split_port URI cnt portnum =
     (case portnum of
        Some i \<Rightarrow> if cnt = 2 then (take i URI, drop (i + 1) URI) else (URI, ''80'')
      | None \<Rightarrow> (URI, ''80''))"

definition host_of :: "string \<Rightarrow> string" where
  "host_of URI = takeWhile (\<lambda>c. c \<noteq> CHR ''/'') (drop 7 URI)"

text \<open>
  Version and header: eight characters of version, a carriage return, one character that is not looked at, and
  the header, which must be a Host header with a value that is not blank.
\<close>

definition header_ok :: "string \<Rightarrow> nat \<Rightarrow> bool res" where
  "header_ok totalBuf walk =
     rbind (guard OutOfBounds (walk + 8 < MAXDATASIZE)) (\<lambda>_.
     rbind (char_at totalBuf (int (walk + 8))) (\<lambda>c.
       if c \<noteq> CR then Inr False
       else rbind (guard OutOfBounds (walk + 10 < MAXDATASIZE)) (\<lambda>_.
         let HostHead = drop (walk + 10) totalBuf
         in Inr (starts_with HostHead ''Host: '' \<and> (\<exists>c \<in> set (drop 6 HostHead). c \<noteq> SP)))))"

definition parse_request :: "(string \<Rightarrow> bool) \<Rightarrow> string \<Rightarrow> string \<Rightarrow> proxy_outcome res" where
  "parse_request resolves tot_blacklist totalBuf =
     rbind (scan_method totalBuf []) (\<lambda>(method, rest).
       if \<not> starts_with method ''GET'' then Inr Bad_Request
       else rbind (scan_uri rest [] 0 None) (\<lambda>(URI0, cnt, portnum, rest1).
         if \<not> starts_with URI0 ''http://'' then Inr Bad_Request
         else case split_port URI0 cnt portnum of (URI, PORT) \<Rightarrow>
           if \<not> list_all c_isdigit PORT then Inr Bad_Request
           else if \<not> resolves (host_of URI) then Inr Bad_Request
           else rbind (header_ok totalBuf (length totalBuf - length rest1)) (\<lambda>ok.
             if \<not> ok then Inr Bad_Request
             else if strstr tot_blacklist (host_of URI) then Inr (Request ''warning.or.kr'' ''80'' warning_request)
             else Inr (Request (host_of URI) PORT totalBuf))))"

section \<open>Connecting and relaying\<close>

text \<open>Only the first address of the host is tried.\<close>

fun connect_host :: "('a \<Rightarrow> bool) \<Rightarrow> ('a \<Rightarrow> bool) \<Rightarrow> 'a list \<Rightarrow> 'a option" where
  "connect_host can_socket can_connect [] = None"
| "connect_host can_socket can_connect (t # ts) =
     (if \<not> can_socket t then None else if \<not> can_connect t then None else Some t)"

text \<open>The result of \<^verbatim>\<open>send\<close> is not looked at: \<open>snd (wr w d)\<close> is the client's connection afterwards.\<close>

partial_function (option) relay :: "'s reader \<Rightarrow> ('w \<Rightarrow> bytes \<Rightarrow> int \<times> 'w) \<Rightarrow> 's \<Rightarrow> 'w \<Rightarrow> ('s \<times> 'w) option" where
  "relay rd wr s w =
     (case rd s (MAXDATASIZE - 1) of
        (Got d, s1) \<Rightarrow> if d = [] then Some (s1, w) else relay rd wr s1 (snd (wr w d))
      | (_, s1) \<Rightarrow> Some (s1, w))"

definition bad_request_message :: bytes where
  "bad_request_message = to_bytes (''HTTP/1.0 400 Bad Request'' @ [CR, NL, CR, NL])"

definition not_found_message :: bytes where
  "not_found_message = to_bytes (''HTTP/1.0 404 Bad Request'' @ [CR, NL, CR, NL])"

text \<open>
  The child process: \<open>addrs\<close> are the addresses \<^verbatim>\<open>getaddrinfo\<close> gives, \<open>open_host\<close> the connection to an address once the
  request has been sent to it. The result is the client's connection in the end.
\<close>

definition handle_client ::
  "(string \<Rightarrow> bool) \<Rightarrow> (string \<Rightarrow> string \<Rightarrow> 'a list option) \<Rightarrow> ('a \<Rightarrow> bool) \<Rightarrow> ('a \<Rightarrow> bool) \<Rightarrow> ('a \<Rightarrow> string \<Rightarrow> 'h) \<Rightarrow> 'h reader
    \<Rightarrow> 's reader \<Rightarrow> ('w \<Rightarrow> bytes \<Rightarrow> int \<times> 'w) \<Rightarrow> string \<Rightarrow> 's \<Rightarrow> 'w \<Rightarrow> ('w res) option" where
  "handle_client resolves addrs can_socket can_connect open_host hrd rd wr tot_blacklist s w =
     (case recv_request rd s [] 0 of
        None \<Rightarrow> None
      | Some (Inl e) \<Rightarrow> Some (Inl e)
      | Some (Inr (totalBuf, _)) \<Rightarrow>
          (case parse_request resolves tot_blacklist totalBuf of
             Inl e \<Rightarrow> Some (Inl e)
           | Inr Bad_Request \<Rightarrow> Some (Inr (snd (wr w bad_request_message)))
           | Inr (Request host port text) \<Rightarrow>
               (case addrs host port of
                  None \<Rightarrow> Some (Inr (snd (wr w not_found_message)))
                | Some as \<Rightarrow>
                    (case connect_host can_socket can_connect as of
                       None \<Rightarrow> Some (Inr w)
                     | Some a \<Rightarrow> map_option (\<lambda>(_, w'). Inr w') (relay hrd wr (open_host a text) w)))))"

text \<open>
  The program: an exit code, or the address listened on and what the child processes do with the connections accepted.
  A connection is a pair of a state to read from and one to write to. Every child starts with its own copy of the
  blacklist and of the empty \<^verbatim>\<open>totalBuf\<close>.
\<close>

definition proxy_main ::
  "'l listen_env \<Rightarrow> (string \<Rightarrow> bool) \<Rightarrow> (string \<Rightarrow> string \<Rightarrow> 'a list option) \<Rightarrow> ('a \<Rightarrow> bool) \<Rightarrow> ('a \<Rightarrow> bool) \<Rightarrow> ('a \<Rightarrow> string \<Rightarrow> 'h)
    \<Rightarrow> 'h reader \<Rightarrow> 's reader \<Rightarrow> ('w \<Rightarrow> bytes \<Rightarrow> int \<times> 'w) \<Rightarrow> string list \<Rightarrow> bool \<Rightarrow> string \<Rightarrow> string \<Rightarrow> ('s \<times> 'w) accept_event list
    \<Rightarrow> (int + 'l \<times> ('w res) option list) res" where
  "proxy_main env resolves addrs can_socket can_connect open_host hrd rd wr args ready garbage input es =
     (if length args \<noteq> 1 then Inr (Inl 1)
      else
        let PORT = hd args
        in rbind (read_blacklist ready garbage input) (\<lambda>tot_blacklist.
           case open_listener env PORT of
             Inl code \<Rightarrow> Inr (Inl code)
           | Inr l \<Rightarrow>
               Inr (Inr (l, accept_loop (\<lambda>(s, w).
                 handle_client resolves addrs can_socket can_connect open_host hrd rd wr tot_blacklist s w) es))))"

end
