(* ===== verification/Proxy_Props.thy ===== *)
theory Proxy_Props
  imports Proxy
begin

text \<open>
  What the proxy does with a request: it is collected whatever pieces it arrives in, parsed, sent to the host it names,
  and the response goes back unchanged. The last lines of the text are the behaviours that differ from what
  one expects: a port followed by a path is refused.
\<close>

section \<open>The scanners\<close>

lemma scan_method_until [simp]:
  "SP \<notin> set l \<Longrightarrow> scan_method (l @ SP # r) acc = Inr (acc @ l, r)"
  by (induction l arbitrary: acc) auto

lemma scan_uri_until [simp]:
  "SP \<notin> set l \<Longrightarrow> CHR '':'' \<notin> set l \<Longrightarrow> scan_uri (l @ SP # r) acc cnt portnum = Inr (acc @ l, cnt, portnum, r)"
  by (induction l arbitrary: acc) (auto simp: Let_def)

lemma scan_uri_skip [simp]:
  "SP \<notin> set l \<Longrightarrow> CHR '':'' \<notin> set l \<Longrightarrow> scan_uri (l @ CHR '':'' # r) acc cnt portnum = scan_uri (CHR '':'' # r) (acc @ l) cnt portnum"
  by (induction l arbitrary: acc) (auto simp: Let_def)

lemma scan_uri_http [simp]:
  "scan_uri (CHR ''h'' # CHR ''t'' # CHR ''t'' # CHR ''p'' # CHR '':'' # CHR ''/'' # CHR ''/'' # r) [] 0 None = scan_uri r ''http://'' 1 None"
  by (simp add: Let_def)

lemma header_ok_at:
  assumes "length version = 8" "length pre + 10 < MAXDATASIZE"
  shows "header_ok (pre @ version @ CR # x # ''Host: '' @ rest) (length pre) = Inr (\<exists>c \<in> set rest. c \<noteq> SP)"
proof -
  let ?t = "pre @ version @ CR # x # ''Host: '' @ rest"
  have "nat (int (length pre + 8)) = length pre + 8" by simp
  moreover have "?t ! (length pre + 8) = CR" using assms(1) by (simp add: nth_append)
  ultimately have "char_at ?t (int (length pre + 8)) = Inr CR"
    using assms unfolding char_at_def by simp
  then show ?thesis
    using assms by (simp add: header_ok_def guard_def Let_def starts_with_def del: of_nat_add of_nat_numeral)
qed

text \<open>The text of a request: everything before the version, and the whole.\<close>

definition request_line :: "string \<Rightarrow> string" where
  "request_line uri = ''GET http://'' @ uri @ [SP]"

definition request_text :: "string \<Rightarrow> string \<Rightarrow> string \<Rightarrow> string" where
  "request_text uri version rest = request_line uri @ version @ CR # NL # ''Host: '' @ rest"

definition plain_host :: "string \<Rightarrow> bool" where
  "plain_host h \<longleftrightarrow> list_all (\<lambda>c. c \<noteq> SP \<and> c \<noteq> CHR '':'' \<and> c \<noteq> CHR ''/'') h"

definition plain_path :: "string \<Rightarrow> bool" where
  "plain_path p \<longleftrightarrow> (p = [] \<or> hd p = CHR ''/'') \<and> list_all (\<lambda>c. c \<noteq> SP \<and> c \<noteq> CHR '':'') p"

lemma host_of_http:
  assumes "plain_host h" "p = [] \<or> hd p = CHR ''/''"
  shows "host_of (''http://'' @ h @ p) = h"
proof -
  have "takeWhile (\<lambda>c. c \<noteq> CHR ''/'') (h @ p) = h @ takeWhile (\<lambda>c. c \<noteq> CHR ''/'') p"
    using assms(1) by (subst takeWhile_append2) (auto simp: plain_host_def list_all_iff)
  moreover have "takeWhile (\<lambda>c. c \<noteq> CHR ''/'') p = []" using assms(2) by (cases p) auto
  ultimately show ?thesis by (simp add: host_of_def)
qed

lemma scan_request:
  "scan_method (request_text uri version rest) [] = Inr (''GET'', drop 4 (request_text uri version rest))"
  "drop 4 (request_text uri version rest) = ''http://'' @ uri @ SP # version @ CR # NL # ''Host: '' @ rest"
  by (simp_all add: request_text_def request_line_def)

lemma parse_plain:
  assumes "plain_host h" "plain_path p" "resolves h" "length version = 8"
    and len: "length (request_text (h @ p) version rest) < MAXDATASIZE" and nb: "\<exists>c \<in> set rest. c \<noteq> SP"
  shows "parse_request resolves bl (request_text (h @ p) version rest) =
           Inr (if strstr bl h then Request ''warning.or.kr'' ''80'' warning_request
                else Request h ''80'' (request_text (h @ p) version rest))"
proof -
  let ?t = "request_text (h @ p) version rest" and ?r = "version @ CR # NL # ''Host: '' @ rest"
  have u: "SP \<notin> set (h @ p)" "CHR '':'' \<notin> set (h @ p)"
    using assms(1,2) by (auto simp: plain_host_def plain_path_def list_all_iff)
  have uri: "scan_uri (drop 4 ?t) [] 0 None = Inr (''http://'' @ h @ p, 1, None, ?r)"
    unfolding scan_request using scan_uri_until [OF u] by simp
  have "length ?t - length ?r = length (request_line (h @ p))" by (simp add: request_text_def)
  moreover have "header_ok ?t (length (request_line (h @ p))) = Inr True"
    unfolding request_text_def using header_ok_at [OF assms(4), of "request_line (h @ p)" NL rest] nb len assms(4)
    by (simp add: request_text_def)
  moreover have "host_of (''http://'' @ h @ p) = h" by (rule host_of_http) (use assms(1,2) in \<open>auto simp: plain_path_def\<close>)
  ultimately show ?thesis
    using assms(3) uri
    by (simp add: parse_request_def scan_request(1) starts_with_def split_port_def c_isdigit_def
        del: scan_method.simps scan_uri.simps)
qed

section \<open>Receiving\<close>

text \<open>The text ends with an empty line, and no proper prefix of it does.\<close>

definition ends_blank :: "string \<Rightarrow> bool" where
  "ends_blank r \<longleftrightarrow> drop (length r - 3) r = [NL, CR, NL]"

definition one_request :: "string \<Rightarrow> bool" where
  "one_request r \<longleftrightarrow> CHR 0x00 \<notin> set r \<and> length r < MAXDATASIZE \<and> ends_blank r
     \<and> list_all (\<lambda>k. \<not> ends_blank (take k r)) [0..<length r]"

lemma ends_blank_length: "ends_blank r \<Longrightarrow> 3 \<le> length r"
  unfolding ends_blank_def by (drule arg_cong [where f = length]) simp

lemma request_ended_eq:
  assumes "3 \<le> length r" "length r < MAXDATASIZE"
  shows "request_ended r (int (length r)) = Inr (ends_blank r)"
proof -
  obtain q1 c where q1: "r = q1 @ [c]" using assms(1) by (cases r rule: rev_cases) auto
  obtain q2 b where q2: "q1 = q2 @ [b]" using assms(1) q1 by (cases q1 rule: rev_cases) auto
  obtain q a where q: "q2 = q @ [a]" using assms(1) q1 q2 by (cases q2 rule: rev_cases) auto
  have r: "r = q @ [a, b, c]" using q1 q2 q by simp
  have at: "char_at r (int (length r) - 1) = Inr c" "char_at r (int (length r) - 2) = Inr b" "char_at r (int (length r) - 3) = Inr a"
    using assms(2) unfolding r by (simp_all add: char_at_def nth_append nat_add_distrib)
  show ?thesis unfolding request_ended_def at by (auto simp: r ends_blank_def)
qed

lemma request_ended_short:
  assumes "r \<noteq> []" "length r < 3" "starts_with (r @ t) ''GET ''"
  shows "request_ended r (int (length r)) = Inr False"
proof -
  have "r = ''G'' \<or> r = ''GE''" using assms by (cases r; cases "tl r") (auto simp: starts_with_def)
  then show ?thesis by (auto simp: request_ended_def char_at_def MAXDATASIZE_def)
qed

lemma recv_request_collects:
  assumes rd: "reader_ok rd contents intr" "steady rd"
    and one: "one_request req" and get: "starts_with req ''GET ''"
  shows "got @ rest = req \<Longrightarrow> contents s = to_bytes rest \<Longrightarrow> rest \<noteq> [] \<Longrightarrow>
         \<exists>s'. recv_request rd s got (int (length got)) = Some (Inr (req, s'))"
proof (induction "length rest" arbitrary: s got rest rule: less_induct)
  case less
  have req: "CHR 0x00 \<notin> set req" "length req < MAXDATASIZE" "starts_with req ''GET ''" "ends_blank req"
    and fst: "\<And>k. k < length req \<Longrightarrow> \<not> ends_blank (take k req)"
    using one get by (auto simp: one_request_def list_all_iff)
  have "contents s \<noteq> []" "0 < MAXDATASIZE - 1" using less.prems by (auto simp: MAXDATASIZE_def to_bytes_def)
  then obtain d s1 where d: "rd s (MAXDATASIZE - 1) = (Got d, s1)" "d \<noteq> []" "contents s = d @ contents s1"
    using steady_got [OF rd] by blast
  obtain a b where ab: "rest = a @ b" "d = to_bytes a" "contents s1 = to_bytes b"
    using d(3) less.prems(2) by (metis to_bytes_def map_eq_append_conv)
  have nz: "CHR 0x00 \<notin> set a" "a \<noteq> []" using req(1) less.prems(1) ab d(2) by (auto simp: to_bytes_def)
  let ?got = "got @ a"
  have len: "length ?got < MAXDATASIZE" and pre: "?got = take (length ?got) req" and sw: "starts_with (?got @ b) ''GET ''"
    using less.prems(1) ab req(2,3) by auto
  have ended: "request_ended ?got (int (length ?got)) = Inr (b = [])"
  proof (cases "3 \<le> length ?got")
    case True
    have "ends_blank ?got \<longleftrightarrow> b = []"
    proof (cases "b = []")
      case True
      then show ?thesis using less.prems(1) ab req(4) by simp
    next
      case False
      then have "length ?got < length req" using less.prems(1) ab by auto
      then show ?thesis using False fst pre by metis
    qed
    then show ?thesis using request_ended_eq [OF True len] by simp
  next
    case False
    then have "b \<noteq> []" using less.prems(1) ab ends_blank_length [OF req(4)] by auto
    then show ?thesis using request_ended_short [OF _ _ sw] False nz by simp
  qed
  have step: "recv_request rd s got (int (length got)) =
      (if b = [] then Some (Inr (?got, s1)) else recv_request rd s1 ?got (int (length ?got)))"
    using d(1,2) ab nz len ended
    by (subst recv_request.simps) (simp add: c_string_to_bytes Let_def)
  show ?case
  proof (cases "b = []")
    case True
    then show ?thesis using step less.prems(1) ab by simp
  next
    case False
    have "length b < length rest" using ab nz by simp
    from less.hyps [OF this, of ?got s1] show ?thesis using False step less.prems(1) ab by simp
  qed
qed

section \<open>Relaying\<close>

lemma relay_passes:
  assumes rd: "reader_ok rd contents intr" "steady rd" "ends rd contents"
    and wr: "\<And>w d. sent (snd (wr w d)) = sent w @ d"
  shows "\<exists>s' w'. relay rd wr s w = Some (s', w') \<and> sent w' = sent w @ contents s"
proof (induction "length (contents s)" arbitrary: s w rule: less_induct)
  case less
  have pos: "0 < MAXDATASIZE - 1" by (simp add: MAXDATASIZE_def)
  show ?case
  proof (cases "contents s = []")
    case True
    then obtain s' where "rd s (MAXDATASIZE - 1) = (Got [], s')" using rd(3) pos unfolding ends_def by blast
    then show ?thesis using True by (subst relay.simps) simp
  next
    case False
    obtain d s1 where d: "rd s (MAXDATASIZE - 1) = (Got d, s1)" "d \<noteq> []" "contents s = d @ contents s1"
      using steady_got [OF rd(1,2) pos False] by blast
    have "length (contents s1) < length (contents s)" using d by simp
    from less.hyps [OF this, of "snd (wr w d)"] show ?thesis
      using d wr by (subst relay.simps) simp
  qed
qed

section \<open>The blacklist\<close>

lemma load_blacklist_all:
  "CHR 0x00 \<notin> set input \<Longrightarrow> length (tot @ input) < MAXDATASIZE \<Longrightarrow> load_blacklist tot input = Inr (tot @ input)"
proof (induction tot input rule: load_blacklist.induct)
  case (1 tot input)
  obtain l r where f: "fgets (MAXDATASIZE - 1) input = (l, r)" by (cases "fgets (MAXDATASIZE - 1) input")
  have lr: "input = l @ r" by (rule fgets_append [OF f])
  show ?case
  proof (cases "l = []")
    case True
    have "input = []"
    proof (rule ccontr)
      assume "input \<noteq> []"
      with fgets_progress [of input 5118] f True lr show False by (simp add: MAXDATASIZE_def)
    qed
    with True f show ?thesis by (subst load_blacklist.simps) simp
  next
    case False
    have n: "to_nul l = l" using 1(2) lr by (intro to_nul_id) simp
    have len: "length (tot @ l) < MAXDATASIZE" using 1(3) lr by simp
    have "load_blacklist (tot @ l) r = Inr ((tot @ l) @ r)"
      using 1(1) [OF f [symmetric] False] n len 1(2,3) lr by simp
    then show ?thesis using f False n len lr by (subst load_blacklist.simps) simp
  qed
qed

lemma strstr_here: "take (length x) s = x \<Longrightarrow> strstr s x"
  by (cases s) auto

lemma strstr_mid: "strstr (a @ x @ b) x"
  by (induction a) (auto intro: strstr_here)

lemma get_not_empty: "starts_with r ''GET '' \<Longrightarrow> r \<noteq> []"
  by (auto simp: starts_with_def)

section \<open>The properties\<close>

lemma last_of_blank: "ends_blank r \<Longrightarrow> last r = NL"
proof -
  assume b: "ends_blank r"
  have "last (drop (length r - 3) r) = last r" using ends_blank_length [OF b] by (intro last_drop) simp
  then show "last r = NL" using b by (simp add: ends_blank_def)
qed

lemma rest_not_blank:
  assumes "ends_blank (request_text uri version rest)"
  shows "\<exists>c \<in> set rest. c \<noteq> SP"
proof -
  have l: "last (request_text uri version rest) = NL" by (rule last_of_blank [OF assms])
  have "rest \<noteq> []" using l by (auto simp: request_text_def)
  moreover from this have "last rest = NL" using l by (simp add: request_text_def)
  ultimately show ?thesis using last_in_set [of rest] by (intro bexI [of _ "last rest"]) auto
qed

lemma request_text_get: "starts_with (request_text uri version rest) ''GET ''"
  by (simp add: starts_with_def request_text_def request_line_def)

text \<open>
  C34: the proxy serves a request from end to end: for a well-formed \<^verbatim>\<open>GET\<close> request without port for a host that
  resolves and is not blacklisted, if the first address of the host accepts the connection, the child process ends
  and the client has been sent exactly the bytes that the host answers to the unchanged request, in whatever pieces
  request and response travel.
\<close>

theorem proxy_serves:
  assumes "reader_ok rd contents intr" "steady rd"
    and "reader_ok hrd hcontents hintr" "steady hrd" "ends hrd hcontents"
    and "\<And>w d. sent (snd (wr w d)) = sent w @ d"
    and "plain_host h" "plain_path p" "resolves h" "length version = 8" "\<not> strstr bl h"
    and "req = request_text (h @ p) version rest" "one_request req" "contents s = to_bytes req"
    and "addrs h ''80'' = Some (a # as)" "can_socket a" "can_connect a"
  shows "\<exists>w'. handle_client resolves addrs can_socket can_connect open_host hrd rd wr bl s w = Some (Inr w')
           \<and> sent w' = sent w @ hcontents (open_host a req)"
proof -
  have get: "starts_with req ''GET ''" by (simp only: assms(12) request_text_get)
  obtain s' where r: "recv_request rd s [] 0 = Some (Inr (req, s'))"
    using recv_request_collects [OF assms(1,2,13) get, of "[]" req s] assms(14) get_not_empty [OF get]
    by (auto simp: to_bytes_def)
  have pr: "parse_request resolves bl req = Inr (Request h ''80'' req)"
    unfolding assms(12)
    by (subst parse_plain) (use assms(7-13) rest_not_blank in \<open>auto simp: one_request_def\<close>)
  obtain h' w' where "relay hrd wr (open_host a req) w = Some (h', w')" "sent w' = sent w @ hcontents (open_host a req)"
    using relay_passes [OF assms(3-6)] by blast
  then show ?thesis by (simp add: handle_client_def r pr assms(15-17))
qed

theorem proxy_serves_witness:
  "\<exists>w'. handle_client (\<lambda>h. True) (\<lambda>h p. Some [()]) (\<lambda>a. True) (\<lambda>a. True) (\<lambda>a t. to_bytes ''OK'') list_reader list_reader
      (\<lambda>w d. (int (length d), w @ d)) ''b.com'' (to_bytes (request_text (''a'' @ ''/'') ''HTTP/1.0'' (''a'' @ [CR, NL, CR, NL]))) []
      = Some (Inr w') \<and> w' = [] @ to_bytes ''OK''"
proof (rule proxy_serves [where contents = "\<lambda>b. b" and hcontents = "\<lambda>b. b" and sent = "\<lambda>w. w" and a = "()" and as = "[]"
    and h = "''a''" and p = "''/''" and version = "''HTTP/1.0''" and rest = "''a'' @ [CR, NL, CR, NL]"
    and req = "request_text (''a'' @ ''/'') ''HTTP/1.0'' (''a'' @ [CR, NL, CR, NL])", OF list_reader_ok _ list_reader_ok])
  show "steady list_reader" "steady list_reader" "ends list_reader (\<lambda>b. b)"
    by (simp_all add: steady_def ends_def list_reader_def)
  show "one_request (request_text (''a'' @ ''/'') ''HTTP/1.0'' (''a'' @ [CR, NL, CR, NL]))" by code_simp
qed (simp_all add: plain_host_def plain_path_def)

text \<open>
  C35: an explicit port is honoured only without a path: a request for \<open>host:port\<close> is sent to that port, and as soon
  as a path follows the port (the usual form of a URI) it is refused with the message 400, because the path is
  taken for a part of the port.
\<close>

theorem explicit_port:
  assumes "plain_host h" "plain_path p" "list_all c_isdigit port" "resolves h" "\<not> strstr bl h"
    and "length version = 8" "one_request (request_text (h @ CHR '':'' # port @ p) version rest)"
  shows "parse_request resolves bl (request_text (h @ CHR '':'' # port @ p) version rest) =
    Inr (if p = [] then Request h port (request_text (h @ CHR '':'' # port @ p) version rest) else Bad_Request)"
proof -
  let ?u = "h @ CHR '':'' # port @ p" and ?r = "version @ CR # NL # ''Host: '' @ rest"
  let ?t = "request_text ?u version rest"
  have dg: "c \<noteq> SP \<and> c \<noteq> CHR '':''" if "c \<in> set port" for c
    using assms(3) that by (auto simp: list_all_iff c_isdigit_def)
  have h: "SP \<notin> set h" "CHR '':'' \<notin> set h" and pp: "SP \<notin> set (port @ p)" "CHR '':'' \<notin> set (port @ p)"
    using assms(1,2) dg by (auto simp: plain_host_def plain_path_def list_all_iff)
  have uri: "scan_uri (drop 4 ?t) [] 0 None = Inr (''http://'' @ ?u, 2, Some (7 + length h), ?r)"
    unfolding scan_request using scan_uri_skip [OF h] scan_uri_until [OF pp] by (simp add: Let_def)
  have sp: "split_port (''http://'' @ ?u) 2 (Some (7 + length h)) = (''http://'' @ h, port @ p)"
    by (simp add: split_port_def numeral_eq_Suc)
  show ?thesis
  proof (cases "p = []")
    case True
    have "length ?t - length ?r = length (request_line ?u)" by (simp add: request_text_def)
    moreover have "header_ok ?t (length (request_line ?u)) = Inr True"
      using header_ok_at [OF assms(6), of "request_line ?u" NL rest] rest_not_blank [of ?u version rest] assms(6,7)
      by (simp add: request_text_def one_request_def)
    moreover have "host_of (''http://'' @ h) = h" using host_of_http [OF assms(1), of "[]"] by simp
    ultimately show ?thesis using True assms(3,4,5) uri sp
      by (simp add: parse_request_def scan_request(1) starts_with_def)
  next
    case False
    then have "\<not> list_all c_isdigit (port @ p)"
      using assms(2) by (cases p) (auto simp: plain_path_def c_isdigit_def)
    then show ?thesis using False uri sp
      by (simp add: parse_request_def scan_request(1) starts_with_def)
  qed
qed

theorem explicit_port_witness:
  "parse_request (\<lambda>h. True) ''b.com'' (request_text (''a'' @ CHR '':'' # ''80'' @ ''/'') ''HTTP/1.0'' (''a'' @ [CR, NL, CR, NL]))
     = Inr Bad_Request"
proof -
  have "one_request (request_text (''a'' @ CHR '':'' # ''80'' @ ''/'') ''HTTP/1.0'' (''a'' @ [CR, NL, CR, NL]))" by code_simp
  then show ?thesis
    using explicit_port [of "''a''" "''/''" "''80''" "\<lambda>h. True" "''b.com''" "''HTTP/1.0''" "''a'' @ [CR, NL, CR, NL]"]
    by (simp add: plain_host_def plain_path_def c_isdigit_def)
qed

lemma redirected_request:
  assumes "bl = garbage @ before @ h @ after"
    and "plain_host h" "plain_path p" "resolves h" "length version = 8"
    and "one_request (request_text (h @ p) version rest)"
  shows "parse_request resolves bl (request_text (h @ p) version rest)
           = Inr (Request ''warning.or.kr'' ''80'' warning_request)"
proof -
  have "strstr bl h" using assms(1) strstr_mid [of "garbage @ before" h after] by simp
  then show ?thesis
    by (subst parse_plain) (use assms(2-6) rest_not_blank in \<open>auto simp: one_request_def\<close>)
qed



end
