(* ===== verification/File_Transfer.thy ===== *)
theory File_Transfer
  imports Mysock Libc Sock_Io
begin

text \<open>
  The file transfer programs of assignment 4, \<^verbatim>\<open>client.c\<close> and \<^verbatim>\<open>server.c\<close>: the client sends the name of a file, the
  server answers with a line that holds the name, the length and a status, and with the contents of the
  file. Both run on the mysocket interface: \<open>rd\<close> and \<open>wr\<close> stand for \<^verbatim>\<open>myread\<close> and \<^verbatim>\<open>mywrite\<close> on the connected
  descriptor, where \<open>None\<close> means that the call does not return. Files are parameters. What is printed is not
  modelled; the local file that the client writes accepts all bytes.
\<close>

section \<open>Mysockets as readers and writers\<close>

type_synonym 's my_reader = "'s \<Rightarrow> nat \<Rightarrow> (io_result \<times> 's) option"
type_synonym 's my_writer = "'s \<Rightarrow> bytes \<Rightarrow> (int \<times> 's) option"

definition mysock_rd :: "mysock_context my_reader" where
  "mysock_rd ctx k =
     (case myread_ctx ctx k of
        Ret (Inr (_, d), c) \<Rightarrow> Some (Got d, c)
      | Ret (Inl _, c) \<Rightarrow> Some (Failed, c)
      | _ \<Rightarrow> None)"

definition mysock_wr :: "mysock_context my_writer" where
  "mysock_wr ctx buf =
     (case mywrite_ctx ctx buf of
        Ret (Inr n, c) \<Rightarrow> Some (int n, c)
      | Ret (Inl _, c) \<Rightarrow> Some (-1, c)
      | _ \<Rightarrow> None)"

section \<open>Lines\<close>

text \<open>\<^verbatim>\<open>get_nvt_line\<close>, the same in both programs, for an array of \<open>sz\<close> characters.\<close>

partial_function (option) get_nvt_line ::
  "'s my_reader \<Rightarrow> nat \<Rightarrow> 's \<Rightarrow> bytes \<Rightarrow> u8 \<Rightarrow> ((int \<times> bytes \<times> 's) res) option" where
  "get_nvt_line rd sz s line last_char =
     (case rd s 1 of
        None \<Rightarrow> None
      | Some (r, s1) \<Rightarrow>
          (case r of
             Got d \<Rightarrow>
               if d = [] then
                 if length line < sz then Some (Inr (0, line, s1)) else Some (Inl OutOfBounds)
               else if last_char = 13 \<and> hd d = 10 then Some (Inr (0, butlast line, s1))
               else if length line \<ge> sz then Some (Inl OutOfBounds)
               else get_nvt_line rd sz s1 (line @ [hd d]) (hd d)
           | _ \<Rightarrow> Some (Inr (- 1, line, s1))))"

section \<open>The server\<close>

definition RESP_SIZE :: nat where "RESP_SIZE = 5000"

definition crlf :: string where "crlf = [CHR 0x0D, CHR 0x0A]"

text \<open>The answer, and the opened file if there is one.\<close>

definition response :: "(string \<Rightarrow> bool) \<Rightarrow> (string \<Rightarrow> 'f option) \<Rightarrow> ('f \<Rightarrow> nat) \<Rightarrow> string \<Rightarrow> string \<times> 'f option" where
  "response access fopen fsize line =
     (if line = [] \<or> \<not> access line then (line @ '',-1,File does not exist or access denied'' @ crlf, None)
      else case fopen line of
        None \<Rightarrow> (line @ '',-1,File could not be opened'' @ crlf, None)
      | Some fd \<Rightarrow> (line @ '','' @ dec (fsize fd) @ '',Ok'' @ crlf, Some fd))"

partial_function (option) send_file :: "'f reader \<Rightarrow> 's my_writer \<Rightarrow> 'f \<Rightarrow> 's \<Rightarrow> (int \<times> 's) option" where
  "send_file frd wr fd s =
     (case frd fd RESP_SIZE of (r, fd1) \<Rightarrow>
        (case r of
           Got d \<Rightarrow>
             if d = [] then Some (0, s)
             else (case wr s d of
                     None \<Rightarrow> None
                   | Some (n, s1) \<Rightarrow> if n < 0 then Some (- 1, s1) else send_file frd wr fd1 s1)
         | _ \<Rightarrow> Some (- 1, s)))"

definition process_line ::
  "(string \<Rightarrow> bool) \<Rightarrow> (string \<Rightarrow> 'f option) \<Rightarrow> ('f \<Rightarrow> nat) \<Rightarrow> 'f reader \<Rightarrow> 's my_writer \<Rightarrow> 's \<Rightarrow> string
    \<Rightarrow> ((int \<times> 's) res) option" where
  "process_line access fopen fsize frd wr s line =
     (case response access fopen fsize line of (resp, fd) \<Rightarrow>
        if length resp \<ge> RESP_SIZE then Some (Inl OutOfBounds)
        else case wr s (to_bytes resp) of
          None \<Rightarrow> None
        | Some (n, s1) \<Rightarrow>
            if n < 0 then Some (Inr (- 1, s1))
            else (case fd of
                    None \<Rightarrow> Some (Inr (0, s1))
                  | Some f \<Rightarrow> map_option Inr (send_file frd wr f s1)))"

text \<open>\<^verbatim>\<open>do_connection\<close> up to the final \<^verbatim>\<open>myclose\<close>.\<close>

definition SERVER_LINE :: nat where "SERVER_LINE = 256"

partial_function (option) do_connection ::
  "(string \<Rightarrow> bool) \<Rightarrow> (string \<Rightarrow> 'f option) \<Rightarrow> ('f \<Rightarrow> nat) \<Rightarrow> 'f reader \<Rightarrow> 's my_reader \<Rightarrow> 's my_writer \<Rightarrow> 's
    \<Rightarrow> ('s res) option" where
  "do_connection access fopen fsize frd rd wr s =
     (case get_nvt_line rd SERVER_LINE s [] 0 of
        None \<Rightarrow> None
      | Some r \<Rightarrow>
          (case r of
             Inl e \<Rightarrow> Some (Inl e)
           | Inr a \<Rightarrow>
               (case a of (rc, line, s1) \<Rightarrow>
                  if rc < 0 \<or> c_string line = [] then Some (Inr s1)
                  else (case process_line access fopen fsize frd wr s1 (c_string line) of
                          None \<Rightarrow> None
                        | Some r2 \<Rightarrow>
                            (case r2 of
                               Inl e \<Rightarrow> Some (Inl e)
                             | Inr b \<Rightarrow>
                                 (case b of (rc2, s2) \<Rightarrow>
                                    if rc2 < 0 then Some (Inr s2)
                                    else do_connection access fopen fsize frd rd wr s2))))))"

section \<open>The client\<close>

definition CLIENT_LINE :: nat where "CLIENT_LINE = 1000"

datatype next_request =
    No_More
  | Skip string                 \<comment> \<open>the rest of the input\<close>
  | Ask string string           \<comment> \<open>the name, and the rest of the input\<close>

definition rtrim :: "string \<Rightarrow> string" where
  "rtrim s = rev (dropWhile c_isspace (rev s))"

text \<open>The name of the command line, or the next line of the input; names of one character are skipped.\<close>

definition next_request :: "string option \<Rightarrow> string \<Rightarrow> next_request" where
  "next_request filename input =
     (case filename of
        Some name \<Rightarrow> Ask name input
      | None \<Rightarrow>
          (case fgets (CLIENT_LINE - 1) input of (l, rest) \<Rightarrow>
             if l = [] then No_More
             else let name = rtrim (to_nul l) in if length name \<le> 1 then Skip rest else Ask name rest))"

text \<open>
  The parts of the response before the last comma and behind it: \<^verbatim>\<open>strrchr\<close>, and the length field; \<open>stale\<close> is the
  value that \<^verbatim>\<open>length\<close> has if \<^verbatim>\<open>sscanf\<close> finds no number.
\<close>

definition split_last :: "string \<Rightarrow> (string \<times> string) option" where
  "split_last s =
     (if CHR '','' \<in> set s
      then Some (rev (tl (dropWhile (\<lambda>c. c \<noteq> CHR '','') (rev s))), rev (takeWhile (\<lambda>c. c \<noteq> CHR '','') (rev s)))
      else None)"

definition response_length :: "int \<Rightarrow> string \<Rightarrow> int option" where
  "response_length stale line =
     (case split_last line of
        None \<Rightarrow> None
      | Some (l1, _) \<Rightarrow>
          (case split_last l1 of
             None \<Rightarrow> None
           | Some (_, lenstr) \<Rightarrow> Some (case scan_d lenstr of None \<Rightarrow> stale | Some n \<Rightarrow> n)))"

text \<open>
  The loop that receives the file: how many bytes are missing in the end, and the bytes written. A negative length is a fault:
  converted to \<^verbatim>\<open>size_t\<close> it exceeds the array.
\<close>

partial_function (option) recv_file ::
  "'s my_reader \<Rightarrow> bool \<Rightarrow> 's \<Rightarrow> int \<Rightarrow> bytes \<Rightarrow> ((int \<times> bytes \<times> 's) res) option" where
  "recv_file rd quiet_opt s len out =
     (if len = 0 then Some (Inr (0, out, s))
      else if len < 0 then Some (Inl OutOfBounds)
      else case rd s (nat (min len (int CLIENT_LINE))) of
        None \<Rightarrow> None
      | Some (r, s1) \<Rightarrow>
          (case r of
             Got d \<Rightarrow>
               if d = [] then Some (Inr (len, out, s1))
               else recv_file rd quiet_opt s1 (len - int (length d)) (if quiet_opt then out else out @ d)
           | _ \<Rightarrow> Some (Inr (len, out, s1))))"

datatype client_end =
    Continue
  | Break
  | Exit        \<comment> \<open>the connection is closed and the program ends with -1\<close>

record 's client_state =
  conn :: 's
  length_var :: int
  received :: "bytes option"       \<comment> \<open>the file \<^verbatim>\<open>RCVD_FILENAME\<close>\<close>

text \<open>One request: the body of the loop behind the choice of the name.\<close>

definition file_exchange ::
  "'s my_reader \<Rightarrow> 's my_writer \<Rightarrow> bool \<Rightarrow> bool \<Rightarrow> bool \<Rightarrow> string \<Rightarrow> 's client_state
    \<Rightarrow> ((client_end \<times> 's client_state) res) option" where
  "file_exchange rd wr can_open quiet_opt interactive name st =
     (if length name + 3 > CLIENT_LINE then Some (Inl OutOfBounds)
      else case wr (conn st) (to_bytes (name @ crlf)) of
        None \<Rightarrow> None
      | Some (n, s1) \<Rightarrow>
          if n < 0 then Some (Inr (Break, st\<lparr>conn := s1\<rparr>))
          else (case get_nvt_line rd CLIENT_LINE s1 [] 0 of
            None \<Rightarrow> None
          | Some (Inl e) \<Rightarrow> Some (Inl e)
          | Some (Inr (rc, line, s2)) \<Rightarrow>
              if rc < 0 then Some (Inr (Break, st\<lparr>conn := s2\<rparr>))
              else (case response_length (length_var st) (c_string line) of
                None \<Rightarrow> Some (Inr (Break, st\<lparr>conn := s2\<rparr>))
              | Some len \<Rightarrow>
                  if len = - 1 then Some (Inr (if interactive then Continue else Break, st\<lparr>conn := s2, length_var := len\<rparr>))
                  else if \<not> can_open then Some (Inr (Break, st\<lparr>conn := s2, length_var := len\<rparr>))
                  else (case recv_file rd quiet_opt s2 len [] of
                    None \<Rightarrow> None
                  | Some (Inl e) \<Rightarrow> Some (Inl e)
                  | Some (Inr (left, out, s3)) \<Rightarrow>
                      let st3 = \<lparr>conn = s3, length_var = left, received = Some out\<rparr>
                      in Some (Inr (if left \<noteq> 0 then Exit else if interactive then Continue else Break, st3))))))"

partial_function (option) loop_until_end ::
  "'s my_reader \<Rightarrow> 's my_writer \<Rightarrow> bool \<Rightarrow> bool \<Rightarrow> string option \<Rightarrow> string \<Rightarrow> 's client_state
    \<Rightarrow> ((client_end \<times> 's client_state) res) option" where
  "loop_until_end rd wr can_open quiet_opt filename input st =
     (case next_request filename input of
        No_More \<Rightarrow> Some (Inr (Break, st))
      | Skip rest \<Rightarrow> loop_until_end rd wr can_open quiet_opt filename rest st
      | Ask name rest \<Rightarrow>
          (case file_exchange rd wr can_open quiet_opt (filename = None) name st of
             None \<Rightarrow> None
           | Some r \<Rightarrow>
               (case r of
                  Inl e \<Rightarrow> Some (Inl e)
                | Inr a \<Rightarrow>
                    (case a of (e, st1) \<Rightarrow>
                       if e = Continue then loop_until_end rd wr can_open quiet_opt filename rest st1
                       else Some (Inr (e, st1))))))"

end
