(* ===== verification/File_Main.thy ===== *)
theory File_Main
  imports File_Transfer Mysock_Api
begin

text \<open>
  The file transfer programs from their arguments on: the \<^verbatim>\<open>main\<close> functions of \<^verbatim>\<open>client.c\<close> and \<^verbatim>\<open>server.c\<close> of assignment 4,
  the address that the server prints and the one that the client parses. They run on the descriptors of a process
  (\<open>mysock_sys\<close>); \<open>others\<close> is what the threads of the mysocket layer do before a call looks at the state, and \<open>join\<close> what
  they do until they have ended. What is printed is not part of the result, except the address of the server.
\<close>

section \<open>Reading and writing a descriptor\<close>

definition sys_rd :: "(mysock_sys \<Rightarrow> mysock_sys) \<Rightarrow> int \<Rightarrow> mysock_sys my_reader" where
  "sys_rd others sd sys k =
     (case myread (others sys) sd k of
        Ret (Inr (_, d), sys1) \<Rightarrow> Some (Got d, sys1)
      | Ret (Inl _, sys1) \<Rightarrow> Some (Failed, sys1)
      | _ \<Rightarrow> None)"

definition sys_wr :: "int \<Rightarrow> mysock_sys my_writer" where
  "sys_wr sd sys buf =
     (case mywrite sys sd buf of
        Ret (Inr n, sys1) \<Rightarrow> Some (int n, sys1)
      | Ret (Inl _, sys1) \<Rightarrow> Some (-1, sys1)
      | _ \<Rightarrow> None)"

section \<open>Addresses\<close>

text \<open>\<open>hostname\<close> is what \<^verbatim>\<open>gethostname\<close> stores in an array of 100 characters, \<open>None\<close> if it fails.\<close>

definition local_name :: "string option \<Rightarrow> mysock_sys \<Rightarrow> int \<Rightarrow> string run" where
  "local_name hostname sys sd =
     run_bind (mygetsockname sys sd) (\<lambda>(rc, _).
       case rc of
         Inl _ \<Rightarrow> Crash AssertFailed
       | Inr sin \<Rightarrow>
           (case hostname of
              None \<Rightarrow> Crash AssertFailed
            | Some myhostname \<Rightarrow> Ret (myhostname @ '':'' @ dec (unat (ntohs (sin_port sin))))))"

text \<open>\<open>hostbyname\<close> is \<^verbatim>\<open>gethostbyname\<close>, with \<open>None\<close> also for a host without an IPv4 address.\<close>

definition parse_address :: "(string \<Rightarrow> u32 option) \<Rightarrow> string \<Rightarrow> errno + sockaddr_in" where
  "parse_address hostbyname address =
     (let host = takeWhile (\<lambda>c. c \<noteq> CHR '':'') address; pc = dropWhile (\<lambda>c. c \<noteq> CHR '':'') address;
          port = (if pc = [] then Some 0 else map_option (\<lambda>h_port. htons (ucast h_port)) (scan_u (tl pc)))
      in case port of
           None \<Rightarrow> Inl EINVAL
         | Some p \<Rightarrow>
             if inet_addr host \<noteq> 0xFFFFFFFF then Inr \<lparr>sin_port = p, sin_addr = inet_addr host\<rparr>
             else (case hostbyname host of
                     None \<Rightarrow> Inl EADDRNOTAVAIL
                   | Some a \<Rightarrow> Inr \<lparr>sin_port = p, sin_addr = a\<rparr>))"

section \<open>The server\<close>

text \<open>The set-up: the exit code 1, or the listening descriptor and the name that is printed.\<close>

definition server_setup :: "os_calls \<Rightarrow> string option \<Rightarrow> string list \<Rightarrow> mysock_sys
    \<Rightarrow> (int + int \<times> string \<times> mysock_sys) run" where
  "server_setup env hostname args sys =
     (case getopt ''U'' args of (opts, operands) \<Rightarrow>
        if list_ex (\<lambda>p. fst p = CHR ''?'') opts \<or> operands \<noteq> [] then Ret (Inl 1)
        else
          run_bind (mysocket env sys (\<not> list_ex (\<lambda>p. fst p = CHR ''U'') opts)) (\<lambda>(r1, sys1).
          case r1 of Inl _ \<Rightarrow> Ret (Inl 1) | Inr bindsd \<Rightarrow>
          run_bind (mybind env sys1 bindsd AF_INET zero_sockaddr) (\<lambda>(r2, sys2).
          case r2 of Inl _ \<Rightarrow> Ret (Inl 1) | Inr rc \<Rightarrow>
          if rc < 0 then Ret (Inl 1)
          else
            run_bind (mylisten env sys2 bindsd 5) (\<lambda>(r3, sys3).
            case r3 of Inl _ \<Rightarrow> Ret (Inl 1) | Inr _ \<Rightarrow>
            run_bind (local_name hostname sys3 bindsd) (\<lambda>localname.
              Ret (Inr (bindsd, localname, sys3)))))))"

text \<open>
  The loop over the connections, and the whole program. The result is an exit code, or \<open>None\<close> for a server that waits
  in \<^verbatim>\<open>myaccept\<close> for the next connection.
\<close>

partial_function (option) serve_loop ::
  "(string \<Rightarrow> bool) \<Rightarrow> (string \<Rightarrow> 'f option) \<Rightarrow> ('f \<Rightarrow> nat) \<Rightarrow> 'f reader \<Rightarrow> nat \<Rightarrow> (mysock_sys \<Rightarrow> mysock_sys)
    \<Rightarrow> (mysock_sys \<Rightarrow> int \<Rightarrow> mysock_sys option) \<Rightarrow> int \<Rightarrow> mysock_sys \<Rightarrow> (int option \<times> mysock_sys) run option" where
  "serve_loop access fopen fsize frd n others join bindsd sys =
     (case myaccept (others sys) bindsd of
        Block \<Rightarrow> Some (Ret (None, others sys))
      | Crash e \<Rightarrow> Some (Crash e)
      | Ret a \<Rightarrow>
          (case fst a of
             Inl _ \<Rightarrow> Some (Ret (Some 1, snd a))
           | Inr b \<Rightarrow>
               (case do_connection access fopen fsize frd (sys_rd others (fst b)) (sys_wr (fst b)) (snd a) of
                  None \<Rightarrow> None
                | Some r \<Rightarrow>
                    (case r of
                       Inl e \<Rightarrow> Some (Crash e)
                     | Inr sys2 \<Rightarrow>
                         (case myclose n join sys2 (fst b) of
                            Block \<Rightarrow> Some Block
                          | Crash e \<Rightarrow> Some (Crash e)
                          | Ret sys3 \<Rightarrow> serve_loop access fopen fsize frd n others join bindsd sys3)))))"

definition file_server_main ::
  "(string \<Rightarrow> bool) \<Rightarrow> (string \<Rightarrow> 'f option) \<Rightarrow> ('f \<Rightarrow> nat) \<Rightarrow> 'f reader \<Rightarrow> os_calls \<Rightarrow> string option \<Rightarrow> nat
    \<Rightarrow> (mysock_sys \<Rightarrow> mysock_sys) \<Rightarrow> (mysock_sys \<Rightarrow> int \<Rightarrow> mysock_sys option) \<Rightarrow> string list \<Rightarrow> mysock_sys
    \<Rightarrow> (int option \<times> mysock_sys) run option" where
  "file_server_main access fopen fsize frd env hostname n others join args sys =
     (case server_setup env hostname args sys of
        Block \<Rightarrow> Some Block
      | Crash e \<Rightarrow> Some (Crash e)
      | Ret (Inl code) \<Rightarrow> Some (Ret (Some code, sys))
      | Ret (Inr (bindsd, _, sys1)) \<Rightarrow> serve_loop access fopen fsize frd n others join bindsd sys1)"

section \<open>The client\<close>

text \<open>
  The exit code, the received file and the process in the end. The result of \<^verbatim>\<open>myconnect\<close> becomes the descriptor.
  \<open>connect_others\<close> is what the threads do during the handshake, \<open>len\<close> the uninitialised variable \<^verbatim>\<open>length\<close>.
\<close>

definition file_client_main ::
  "os_calls \<Rightarrow> (string \<Rightarrow> u32 option) \<Rightarrow> nat \<Rightarrow> (mysock_sys \<Rightarrow> mysock_sys) \<Rightarrow> (mysock_sys \<Rightarrow> mysock_sys)
    \<Rightarrow> (mysock_sys \<Rightarrow> int \<Rightarrow> mysock_sys option) \<Rightarrow> bool \<Rightarrow> int \<Rightarrow> string list \<Rightarrow> string \<Rightarrow> mysock_sys
    \<Rightarrow> (int \<times> bytes option \<times> mysock_sys) run option" where
  "file_client_main env hostbyname n connect_others others join can_open len args input sys =
     (case getopt ''f:qU'' args of (opts, operands) \<Rightarrow>
        if list_ex (\<lambda>p. fst p = CHR ''?'') opts \<or> length operands \<noteq> 1 then Some (Ret (1, None, sys))
        else case parse_address hostbyname (hd operands) of
          Inl _ \<Rightarrow> Some (Ret (1, None, sys))
        | Inr sin \<Rightarrow>
            if sin_port sin = 0 then Some (Ret (1, None, sys))
            else (case mysocket env sys (\<not> list_ex (\<lambda>p. fst p = CHR ''U'') opts) of
              Block \<Rightarrow> Some Block
            | Crash e \<Rightarrow> Some (Crash e)
            | Ret (Inl _, sys1) \<Rightarrow> Some (Ret (1, None, sys1))
            | Ret (Inr sd0, sys1) \<Rightarrow>
                (case myconnect env connect_others sys1 sd0 sin 16 of
                   Block \<Rightarrow> Some Block
                 | Crash e \<Rightarrow> Some (Crash e)
                 | Ret (Inl _, sys2) \<Rightarrow> Some (Ret (1, None, sys2))
                 | Ret (Inr sd, sys2) \<Rightarrow>
                     (case loop_until_end (sys_rd others sd) (sys_wr sd) can_open (list_ex (\<lambda>p. fst p = CHR ''q'') opts)
                             (map_of (rev opts) CHR ''f'') input \<lparr>conn = sys2, length_var = len, received = None\<rparr> of
                        None \<Rightarrow> None
                      | Some (Inl e) \<Rightarrow> Some (Crash e)
                      | Some (Inr (e, st)) \<Rightarrow>
                          Some (run_bind (myclose n join (conn st) sd) (\<lambda>sys3.
                            Ret (if e = Exit then -1 else 0, received st, sys3)))))))"

end
