(* ===== verification/File_Transfer_Props.thy ===== *)
theory File_Transfer_Props
  imports File_Transfer Transport_Conn
begin

text \<open>
  A file arrives unchanged. The programs need only what every stream socket promises; this is the locale
  \<open>stream_socket\<close>, an extension of the locale \<open>stream_reader\<close>, and mysockets are one.
\<close>

section \<open>The response line\<close>

lemma to_bytes_crlf [simp]: "to_bytes crlf = [13, 10]"
  by (simp add: to_bytes_def crlf_def)

lemma cr_in_bytes: "13 \<in> set (to_bytes s) \<longleftrightarrow> CHR 0x0D \<in> set s"
proof -
  have "(13 :: u8) = of_char (CHR 0x0D)" by simp
  then show ?thesis by (auto simp: to_bytes_def of_char_u8_inject simp del: of_char_Char)
qed

lemma split_last_at: "CHR '','' \<notin> set b \<Longrightarrow> split_last (a @ CHR '','' # b) = Some (a, b)"
  by (simp add: split_last_def takeWhile_append dropWhile_append)

definition ok_line :: "string \<Rightarrow> nat \<Rightarrow> string" where
  "ok_line name n = name @ '','' @ dec n @ '',Ok''"

lemma response_length_ok: "n < 2 ^ 31 \<Longrightarrow> response_length stale (ok_line name n) = Some (int n)"
proof -
  assume n: "n < 2 ^ 31"
  have "CHR '','' \<notin> set (dec n)" using dec_digits [of n] digit_facts by (auto simp: list_all_iff)
  then have 2: "split_last (name @ CHR '','' # dec n) = Some (name, dec n)" by (rule split_last_at)
  have "split_last ((name @ CHR '','' # dec n) @ CHR '','' # ''Ok'') = Some (name @ CHR '','' # dec n, ''Ok'')"
    by (rule split_last_at) simp
  then show ?thesis using 2 scan_d_dec [OF n] by (simp add: response_length_def ok_line_def)
qed

lemma ok_line_facts:
  assumes "CHR 0x0D \<notin> set name" "CHR 0x00 \<notin> set name" "n < 2 ^ 31"
  shows "13 \<notin> set (to_bytes (ok_line name n))" "c_string (to_bytes (ok_line name n)) = ok_line name n"
    "length (ok_line name n) \<le> length name + 14"
proof -
  have d: "CHR 0x0D \<notin> set (dec n)" "CHR 0x00 \<notin> set (dec n)"
    using dec_digits [of n] digit_facts by (auto simp: list_all_iff)
  show "13 \<notin> set (to_bytes (ok_line name n))" using assms(1) d(1) unfolding cr_in_bytes by (simp add: ok_line_def)
  show "c_string (to_bytes (ok_line name n)) = ok_line name n"
    using assms(2) d(2) by (intro c_string_to_bytes) (simp add: ok_line_def)
  have "n < 10 ^ Suc 9" using assms(3) by simp
  then have "length (dec n) \<le> 10" using dec_length [of n 9] by simp
  then show "length (ok_line name n) \<le> length name + 14" by (simp add: ok_line_def)
qed

section \<open>Stream sockets\<close>

locale stream_reader =
  fixes ok :: "'s \<Rightarrow> bool"
    and contents :: "'s \<Rightarrow> bytes"      \<comment> \<open>what can be read\<close>
    and closed :: "'s \<Rightarrow> bool"         \<comment> \<open>whether the end of file follows\<close>
    and sent :: "'s \<Rightarrow> bytes"
    and rd :: "'s my_reader"
  assumes rd_got: "ok s \<Longrightarrow> 0 < k \<Longrightarrow> contents s \<noteq> [] \<Longrightarrow>
      \<exists>d s'. rd s k = Some (Got d, s') \<and> d \<noteq> [] \<and> length d \<le> k \<and> contents s = d @ contents s'
        \<and> ok s' \<and> closed s' = closed s \<and> sent s' = sent s"
    and rd_end: "ok s \<Longrightarrow> 0 < k \<Longrightarrow> contents s = [] \<Longrightarrow> closed s \<Longrightarrow>
      \<exists>s'. rd s k = Some (Got [], s') \<and> ok s' \<and> sent s' = sent s"
begin

lemma rd_byte:
  assumes "ok s" "contents s = b # bs"
  obtains s' where "rd s 1 = Some (Got [b], s')" "contents s' = bs" "ok s'" "closed s' = closed s" "sent s' = sent s"
proof -
  obtain d s' where d: "rd s 1 = Some (Got d, s')" "d \<noteq> []" "length d \<le> 1" "contents s = d @ contents s'"
    "ok s'" "closed s' = closed s" "sent s' = sent s"
    using rd_got [OF assms(1), of 1] assms(2) by auto
  then have "d = [b]" using assms(2) by (cases d) auto
  then show thesis using that d assms(2) by auto
qed

lemma get_nvt_line_end:
  "ok s \<Longrightarrow> contents s = [] \<Longrightarrow> closed s \<Longrightarrow> length line < sz \<Longrightarrow>
   \<exists>s'. get_nvt_line rd sz s line c = Some (Inr (0, line, s')) \<and> ok s' \<and> sent s' = sent s"
  using rd_end [of s 1] by (subst get_nvt_line.simps) auto

lemma get_nvt_line_reads:
  "ok s \<Longrightarrow> contents s = l @ 13 # 10 # r \<Longrightarrow> 13 \<notin> set l \<Longrightarrow> c \<noteq> 13 \<Longrightarrow> length line + length l < sz \<Longrightarrow>
   \<exists>s'. get_nvt_line rd sz s line c = Some (Inr (0, line @ l, s')) \<and> contents s' = r
     \<and> ok s' \<and> closed s' = closed s \<and> sent s' = sent s"
proof (induction l arbitrary: s line c)
  case Nil
  obtain s1 where s1: "rd s 1 = Some (Got [13], s1)" "contents s1 = 10 # r" "ok s1" "closed s1 = closed s" "sent s1 = sent s"
    using rd_byte [OF Nil.prems(1), of 13] Nil.prems(2) by auto
  obtain s2 where s2: "rd s1 1 = Some (Got [10], s2)" "contents s2 = r" "ok s2" "closed s2 = closed s1" "sent s2 = sent s1"
    using rd_byte [OF s1(3,2)] by auto
  have "get_nvt_line rd sz s line c = get_nvt_line rd sz s1 (line @ [13]) 13"
    using s1(1) Nil.prems(4,5) by (subst get_nvt_line.simps) simp
  also have "\<dots> = Some (Inr (0, line, s2))"
    using s2(1) by (subst get_nvt_line.simps) simp
  finally show ?case using s1 s2 by simp
next
  case (Cons b l)
  obtain s1 where s1: "rd s 1 = Some (Got [b], s1)" "contents s1 = l @ 13 # 10 # r" "ok s1" "closed s1 = closed s" "sent s1 = sent s"
    using rd_byte [OF Cons.prems(1), of b] Cons.prems(2) by auto
  have "get_nvt_line rd sz s line c = get_nvt_line rd sz s1 (line @ [b]) b"
    using s1(1) Cons.prems(4,5) by (subst get_nvt_line.simps) simp
  moreover have "\<exists>s'. get_nvt_line rd sz s1 (line @ [b]) b = Some (Inr (0, (line @ [b]) @ l, s')) \<and> contents s' = r
     \<and> ok s' \<and> closed s' = closed s1 \<and> sent s' = sent s1"
    by (rule Cons.IH [OF s1(3,2)]) (use Cons.prems in auto)
  ultimately show ?case using s1(4,5) by simp
qed

lemma recv_file_all:
  "ok s \<Longrightarrow> contents s = d \<Longrightarrow> \<exists>s'. recv_file rd False s (int (length d)) out = Some (Inr (0, out @ d, s'))
     \<and> ok s' \<and> contents s' = [] \<and> closed s' = closed s \<and> sent s' = sent s"
proof (induction "length d" arbitrary: d s out rule: less_induct)
  case less
  show ?case
  proof (cases "d = []")
    case True
    then show ?thesis using less.prems by (subst recv_file.simps) simp
  next
    case False
    let ?k = "nat (min (int (length d)) (int CLIENT_LINE))"
    have "0 < ?k" using False by (simp add: CLIENT_LINE_def)
    then obtain e s1 where e: "rd s ?k = Some (Got e, s1)" "e \<noteq> []" "contents s = e @ contents s1"
      "ok s1" "closed s1 = closed s" "sent s1 = sent s"
      using rd_got [OF less.prems(1)] less.prems(2) False by blast
    have de: "d = e @ contents s1" using e(3) less.prems(2) by simp
    have len: "int (length d) - int (length e) = int (length (contents s1))" using arg_cong [OF de, of length] by simp
    have step: "recv_file rd False s (int (length d)) out = recv_file rd False s1 (int (length (contents s1))) (out @ e)"
      using e(1,2) False len by (subst recv_file.simps) simp
    have "length (contents s1) < length d" using e(2) arg_cong [OF de, of length] by simp
    from less.hyps [OF this e(4) refl, of "out @ e"] show ?thesis using step e(5,6) de by simp
  qed
qed

lemma client_after_write:
  assumes w: "wr (conn st) (to_bytes (name @ crlf)) = Some (k, s1)" "0 \<le> k"
    and s: "ok s1" "contents s1 = to_bytes (ok_line name (length data) @ crlf) @ data"
    and name: "CHR 0x0D \<notin> set name" "CHR 0x00 \<notin> set name" "length name < SERVER_LINE" "length data < 2 ^ 31"
  shows "\<exists>st'. loop_until_end rd wr True False (Some name) input st = Some (Inr (Break, st'))
    \<and> received st' = Some data \<and> ok (conn st') \<and> sent (conn st') = sent s1"
proof -
  note l = ok_line_facts [OF name(1,2,4)]
  obtain s2 where s2: "get_nvt_line rd CLIENT_LINE s1 [] 0 = Some (Inr (0, to_bytes (ok_line name (length data)), s2))"
      "contents s2 = data" "ok s2" "sent s2 = sent s1"
    using get_nvt_line_reads [OF s(1) _ l(1), of data 0 "[]" CLIENT_LINE] s(2) l(3) name(3)
    by (auto simp: CLIENT_LINE_def SERVER_LINE_def)
  obtain s3 where s3: "recv_file rd False s2 (int (length data)) [] = Some (Inr (0, data, s3))" "ok s3" "sent s3 = sent s2"
    using recv_file_all [OF s2(3,2), of "[]"] by auto
  have "\<not> length name + 3 > CLIENT_LINE" using name(3) by (simp add: CLIENT_LINE_def SERVER_LINE_def)
  then have "file_exchange rd wr True False False name st =
      Some (Inr (Break, \<lparr>conn = s3, length_var = 0, received = Some data\<rparr>))"
    using w s2(1) s3(1) l(2) response_length_ok [OF name(4)] by (simp add: file_exchange_def)
  then have "loop_until_end rd wr True False (Some name) input st =
      Some (Inr (Break, \<lparr>conn = s3, length_var = 0, received = Some data\<rparr>))"
    by (subst loop_until_end.simps) (simp add: next_request_def)
  then show ?thesis using s2(4) s3 by simp
qed

end

text \<open>A socket that can also be written to.\<close>

locale stream_socket = stream_reader ok contents closed sent rd
  for ok :: "'s \<Rightarrow> bool" and contents closed sent rd +
  fixes wr :: "'s my_writer"
  assumes wr_ok: "ok s \<Longrightarrow> \<exists>n s'. wr s d = Some (n, s') \<and> 0 \<le> n \<and> ok s' \<and> contents s' = contents s
        \<and> closed s' = closed s \<and> sent s' = sent s @ d"
begin

lemma send_file_all:
  assumes f: "reader_ok frd fcontents intr" "steady frd" "ends frd fcontents"
  shows "ok s \<Longrightarrow> \<exists>s'. send_file frd wr fd s = Some (0, s') \<and> ok s' \<and> contents s' = contents s
     \<and> closed s' = closed s \<and> sent s' = sent s @ fcontents fd"
proof (induction "length (fcontents fd)" arbitrary: fd s rule: less_induct)
  case less
  have pos: "0 < RESP_SIZE" by (simp add: RESP_SIZE_def)
  show ?case
  proof (cases "fcontents fd = []")
    case True
    then obtain fd' where "frd fd RESP_SIZE = (Got [], fd')" using f(3) pos unfolding ends_def by blast
    then show ?thesis using True less.prems by (subst send_file.simps) simp
  next
    case False
    obtain d fd1 where d: "frd fd RESP_SIZE = (Got d, fd1)" "d \<noteq> []" "fcontents fd = d @ fcontents fd1"
      using steady_got [OF f(1,2) pos False] by blast
    obtain n s1 where s1: "wr s d = Some (n, s1)" "0 \<le> n" "ok s1" "contents s1 = contents s"
      "closed s1 = closed s" "sent s1 = sent s @ d"
      using wr_ok [OF less.prems] by blast
    have step: "send_file frd wr fd s = send_file frd wr fd1 s1"
      using d(1,2) s1(1,2) by (subst send_file.simps) simp
    have "length (fcontents fd1) < length (fcontents fd)" using d(2,3) by simp
    from less.hyps [OF this s1(3)] show ?thesis using step s1 d(3) by simp
  qed
qed

lemma server_answers:
  assumes s: "ok s" "contents s = to_bytes (name @ crlf)" "closed s"
    and name: "name \<noteq> []" "CHR 0x0D \<notin> set name" "CHR 0x00 \<notin> set name" "length name < SERVER_LINE"
    and f: "access name" "fopen name = Some fd" "fsize fd = length (fcontents fd)" "length (fcontents fd) < 2 ^ 31"
    and frd: "reader_ok frd fcontents intr" "steady frd" "ends frd fcontents"
  shows "\<exists>s'. do_connection access fopen fsize frd rd wr s = Some (Inr s') \<and> ok s'
    \<and> sent s' = sent s @ to_bytes (ok_line name (length (fcontents fd)) @ crlf) @ fcontents fd"
proof -
  let ?n = "length (fcontents fd)"
  let ?r = "ok_line name ?n @ crlf"
  obtain s1 where s1: "get_nvt_line rd SERVER_LINE s [] 0 = Some (Inr (0, to_bytes name, s1))" "contents s1 = []" "ok s1"
      "closed s1" "sent s1 = sent s"
    using get_nvt_line_reads [OF s(1), of "to_bytes name" "[]" 0 "[]" SERVER_LINE] s(2,3) name(2,4) by (auto simp: cr_in_bytes)
  have resp: "response access fopen fsize name = (?r, Some fd)" using name(1) f by (simp add: response_def ok_line_def)
  obtain k s2 where s2: "wr s1 (to_bytes ?r) = Some (k, s2)" "0 \<le> k" "ok s2" "contents s2 = []" "closed s2"
      "sent s2 = sent s @ to_bytes ?r"
    using wr_ok [OF s1(3), of "to_bytes ?r"] s1(2,4,5) by auto
  obtain s3 where s3: "send_file frd wr fd s2 = Some (0, s3)" "ok s3" "contents s3 = []" "closed s3"
      "sent s3 = sent s2 @ fcontents fd"
    using send_file_all [OF frd s2(3), of fd] s2(4,5) by auto
  have "length ?r < RESP_SIZE"
    using ok_line_facts(3) [OF name(2,3) f(4)] name(4) by (simp add: RESP_SIZE_def SERVER_LINE_def crlf_def)
  then have "process_line access fopen fsize frd wr s1 name = Some (Inr (0, s3))"
    using s2(1,2) s3(1) by (simp add: process_line_def resp)
  then have step: "do_connection access fopen fsize frd rd wr s = do_connection access fopen fsize frd rd wr s3"
    using s1(1) name(1) c_string_to_bytes [OF name(3)] by (subst do_connection.simps) simp
  obtain s4 where "get_nvt_line rd SERVER_LINE s3 [] 0 = Some (Inr (0, [], s4))" "ok s4" "sent s4 = sent s3"
    using get_nvt_line_end [OF s3(2-4), of "[]" SERVER_LINE 0] by (auto simp: SERVER_LINE_def)
  then have "do_connection access fopen fsize frd rd wr s3 = Some (Inr s4) \<and> ok s4 \<and> sent s4 = sent s3"
    by (subst do_connection.simps) (simp add: c_string_def string_of_bytes_def)
  then show ?thesis using step s2(6) s3(5) by simp
qed

lemma client_receives:
  assumes s: "ok (conn st)" "contents (conn st) = to_bytes (ok_line name (length data) @ crlf) @ data"
    and name: "CHR 0x0D \<notin> set name" "CHR 0x00 \<notin> set name" "length name < SERVER_LINE" "length data < 2 ^ 31"
  shows "\<exists>st'. loop_until_end rd wr True False (Some name) input st = Some (Inr (Break, st'))
    \<and> received st' = Some data \<and> sent (conn st') = sent (conn st) @ to_bytes (name @ crlf)"
proof -
  obtain k s1 where s1: "wr (conn st) (to_bytes (name @ crlf)) = Some (k, s1)" "0 \<le> k" "ok s1"
      "contents s1 = contents (conn st)" "sent s1 = sent (conn st) @ to_bytes (name @ crlf)"
    using wr_ok [OF s(1)] by blast
  show ?thesis using client_after_write [where wr = wr and st = st and name = name and input = input, OF s1(1-3) _ name] s1(4,5) s(2) by auto
qed

end

section \<open>Mysockets\<close>

text \<open>
  A connected mysocket: the bytes that the transport layer has passed on and the application has not yet read, up to
  the empty packet that marks the end of the stream, and the bytes written so far.
\<close>

definition my_ok :: "mysock_context \<Rightarrow> bool" where
  "my_ok ctx \<longleftrightarrow> \<not> listening ctx \<and> \<not> close_requested ctx"

definition my_contents :: "mysock_context \<Rightarrow> bytes" where
  "my_contents ctx = (if eof ctx then [] else concat (takeWhile (\<lambda>p. p \<noteq> []) (app_send_queue ctx)))"

definition my_closed :: "mysock_context \<Rightarrow> bool" where
  "my_closed ctx \<longleftrightarrow> eof ctx \<or> [] \<in> set (app_send_queue ctx)"

definition my_sent :: "mysock_context \<Rightarrow> bytes" where
  "my_sent ctx = concat (app_recv_queue ctx)"

lemmas my_defs = my_ok_def my_contents_def my_closed_def my_sent_def mysock_rd_def mysock_wr_def myread_ctx_def mywrite_ctx_def

interpretation mysock: stream_socket my_ok my_contents my_closed my_sent mysock_rd mysock_wr
proof unfold_locales
  fix s :: mysock_context and k :: nat
  assume a: "my_ok s" "0 < k" "my_contents s \<noteq> []"
  obtain p q where q: "app_send_queue s = p # q" "p \<noteq> []" "\<not> eof s"
    using a(3) by (cases "app_send_queue s") (auto simp: my_contents_def split: if_splits)
  show "\<exists>d s'. mysock_rd s k = Some (Got d, s') \<and> d \<noteq> [] \<and> length d \<le> k \<and> my_contents s = d @ my_contents s'
      \<and> my_ok s' \<and> my_closed s' = my_closed s \<and> my_sent s' = my_sent s"
    using a(1,2) q by (cases "length p \<le> k") (simp_all add: my_defs Let_def)
next
  fix s :: mysock_context and k :: nat
  assume a: "my_ok s" "0 < k" "my_contents s = []" "my_closed s"
  show "\<exists>s'. mysock_rd s k = Some (Got [], s') \<and> my_ok s' \<and> my_sent s' = my_sent s"
  proof (cases "eof s")
    case True
    then show ?thesis using a(1) by (simp add: my_defs)
  next
    case False
    then obtain p q where pq: "app_send_queue s = p # q" using a(4) by (cases "app_send_queue s") (simp_all add: my_closed_def)
    then have "p = []" using a(3) False by (cases "p = []") (simp_all add: my_contents_def)
    then show ?thesis using a(1) False pq by (simp add: my_defs)
  qed
next
  fix s :: mysock_context and d
  assume "my_ok s"
  then show "\<exists>n s'. mysock_wr s d = Some (n, s') \<and> 0 \<le> n \<and> my_ok s' \<and> my_contents s' = my_contents s
      \<and> my_closed s' = my_closed s \<and> my_sent s' = my_sent s @ d"
    by (simp add: my_defs)
qed

section \<open>A whole transfer\<close>

text \<open>What travels from the server to the client for a file that exists.\<close>

definition reply :: "string \<Rightarrow> bytes \<Rightarrow> bytes" where
  "reply name data = to_bytes (ok_line name (length data) @ crlf) @ data"

text \<open>
  A file arrives unchanged over any two mysockets. Let the server's mysocket hold a request for a file that exists and the end of the
  stream. Then the server's loop returns and has written the reply. A client whose mysocket delivers the bytes of
  that reply, in whatever packets, returns from its loop too, has written exactly the bytes of the request, and
  the received file is the file of the server. The file must be shorter than \<open>2 ^ 31\<close> bytes, the range of the
  variable \<^verbatim>\<open>length\<close>.
\<close>

lemma file_transferred:
  assumes "my_ok s" "my_contents s = to_bytes (name @ crlf)" "my_closed s"
    and "my_ok (conn st)" "my_contents (conn st) = reply name (fcontents fd)"
    and "name \<noteq> []" "CHR 0x0D \<notin> set name" "CHR 0x00 \<notin> set name" "length name < SERVER_LINE"
    and "access name" "fopen name = Some fd" "fsize fd = length (fcontents fd)" "length (fcontents fd) < 2 ^ 31"
    and "reader_ok frd fcontents intr" "steady frd" "ends frd fcontents"
  shows "\<exists>s' st'. do_connection access fopen fsize frd mysock_rd mysock_wr s = Some (Inr s')
    \<and> my_sent s' = my_sent s @ reply name (fcontents fd)
    \<and> loop_until_end mysock_rd mysock_wr True False (Some name) input st = Some (Inr (Break, st'))
    \<and> my_sent (conn st') = my_sent (conn st) @ to_bytes (name @ crlf)
    \<and> received st' = Some (fcontents fd)"
proof -
  obtain s' where "do_connection access fopen fsize frd mysock_rd mysock_wr s = Some (Inr s')"
      "my_sent s' = my_sent s @ reply name (fcontents fd)"
    using mysock.server_answers [where access = access and fopen = fopen and fsize = fsize and fcontents = fcontents
        and fd = fd and name = name and s = s and frd = frd, OF assms(1-3,6-16)] by (auto simp: reply_def)
  moreover obtain st' where "loop_until_end mysock_rd mysock_wr True False (Some name) input st = Some (Inr (Break, st'))"
      "my_sent (conn st') = my_sent (conn st) @ to_bytes (name @ crlf)" "received st' = Some (fcontents fd)"
    using mysock.client_receives [OF assms(4) _ assms(7-9,13), of input] assms(5) by (auto simp: reply_def)
  ultimately show ?thesis by blast
qed

end
