(* ===== verification/File_Main_Props.thy ===== *)
theory File_Main_Props
  imports File_Main File_Transfer_Props Mysock_Examples
begin

text \<open>
  The server's start: it listens, and the address that it prints is one that leads the client to it.
\<close>

lemma api_context_live: "live sys sd e \<Longrightarrow> my_sd (ctx_of e) = sd \<Longrightarrow> api_context err sys sd f = f e"
  by (simp add: api_context_def mysock_get_context_def verify_mysocket_descriptor_def live_def)

lemma first_colon:
  assumes "CHR '':'' \<notin> set h"
  shows "takeWhile (\<lambda>c. c \<noteq> CHR '':'') (h @ CHR '':'' # r) = h" "dropWhile (\<lambda>c. c \<noteq> CHR '':'') (h @ CHR '':'' # r) = CHR '':'' # r"
proof -
  have "\<forall>c \<in> set h. c \<noteq> CHR '':''" using assms by blast
  then show "takeWhile (\<lambda>c. c \<noteq> CHR '':'') (h @ CHR '':'' # r) = h"
      "dropWhile (\<lambda>c. c \<noteq> CHR '':'') (h @ CHR '':'' # r) = CHR '':'' # r"
    by (simp_all add: takeWhile_append2 dropWhile_append2)
qed

lemma parse_printed_address:
  assumes "CHR '':'' \<notin> set h" "inet_addr h = 0xFFFFFFFF"
  shows "parse_address hostbyname (h @ '':'' @ dec (unat (ntohs port))) =
    (case hostbyname h of None \<Rightarrow> Inl EADDRNOTAVAIL | Some a \<Rightarrow> Inr \<lparr>sin_port = port, sin_addr = a\<rparr>)"
proof -
  have "unat (ntohs port) < 2 ^ LENGTH(16)" by (rule unsigned_less)
  then have "unat (ntohs port) < 2 ^ 31" by simp
  then have "scan_u (dec (unat (ntohs port))) = Some (of_nat (unat (ntohs port)))" by (rule scan_u_dec)
  moreover have "ucast (of_nat (unat (ntohs port)) :: u32) = ntohs port"
    by (rule bit_word_eqI) (simp add: bit_simps)
  ultimately show ?thesis using assms first_colon [OF assms(1)] by (simp add: parse_address_def Let_def)
qed

text \<open>
  C40: the address that the server prints leads clients to it. Started in a process with a free descriptor, if the system
  binds its socket to some port and lets it listen, the set-up succeeds: the mysocket listens with an empty
  backlog of length 5, and the printed name, given to the client's \<^verbatim>\<open>parse_address\<close> on a machine where the
  server's host name resolves, yields exactly that port and the address of the host.
\<close>

theorem server_address_parsed:
  assumes "env_ok env" "table_ok sys" "hash_wf MAX_NUM_CONNECTIONS (listen_table sys)"
    and "first_free (global_ctx sys) = Some k" "hash_abs (listen_table sys) (int k) = None"
    and "os_bind env (os_socket env (n_sockets sys)) zero_sockaddr = (0, port)" "port \<noteq> 0"
    and "0 \<le> os_listen env (os_socket env (n_sockets sys)) 5"
    and "CHR '':'' \<notin> set h" "inet_addr h = 0xFFFFFFFF" "hostbyname h = Some ip"
  shows "\<exists>name sys'. server_setup env (Some h) [] sys = Ret (Inr (int k, name, sys'))
    \<and> parse_address hostbyname name = Inr \<lparr>sin_port = port, sin_addr = ip\<rparr>
    \<and> demux_inv env (int k) sys' \<and> ready_sds (backlog_of (int k) sys') = [] \<and> waiting_sds (int k) sys' = {}
    \<and> max_len (backlog_of (int k) sys') = 6"
proof -
  define e where "e = new_entry env (n_sockets sys) True (int k)"
  define e1 where "e1 = e\<lparr>ctx_of := (ctx_of e)\<lparr>bound := True, network_state := (network_state (ctx_of e))\<lparr>local_addr := zero_sockaddr, net_port := port\<rparr>\<rparr>\<rparr>"
  define sys1 where "sys1 = sys\<lparr>n_sockets := Suc (n_sockets sys)\<rparr>"
  define sys2 where "sys2 = put_entry sys1 (int k) e1"
  have k: "k < length (global_ctx sys1)" using first_free_Some [OF assms(4)] by (simp add: sys1_def)
  have e: "my_sd (ctx_of e) = int k" "listening (ctx_of e) = False" "local_addr (network_state (ctx_of e)) = zero_sockaddr"
      "socket (tcp_of e) = os_socket env (n_sockets sys)" "peer_addr_valid (network_state (ctx_of e)) = False"
    by (simp_all add: e_def new_entry_def)
  have so: "0 \<le> os_socket env (n_sockets sys)" using assms(1) by (simp add: env_ok_def)
  have l2: "live sys2 (int k) e1" using k by (simp add: sys2_def live_put_entry)
  have new: "mysocket env sys True = Ret (Inr (int k), put_entry sys1 (int k) e)"
    using new_mysocket_Some [OF assms(1,4)] by (simp add: mysocket_def e_def sys1_def)
  have bind: "mybind env (put_entry sys1 (int k) e) (int k) AF_INET zero_sockaddr = Ret (Inr 0, sys2)"
    using k e so assms(6)
    by (simp add: mybind_def api_context_live [where e = e] live_put_entry network_bind_def sys2_def e1_def)
  have "table_ok sys1" using assms(2) by (simp add: table_ok_def sys1_def)
  then have t2: "table_ok sys2" unfolding sys2_def by (rule table_ok_put_entry) (simp_all add: e1_def e)
  have h2: "hash_wf MAX_NUM_CONNECTIONS (listen_table sys2)" "hash_abs (listen_table sys2) (int k) = None"
    using assms(3,5) by (simp_all add: sys2_def sys1_def)
  have e1: "bound (ctx_of e1)" "net_port (network_state (ctx_of e1)) \<noteq> 0" "0 \<le> socket (tcp_of e1)"
      "0 \<le> os_listen env (socket (tcp_of e1)) 5"
    using assms(7,8) so e(4) by (simp_all add: e1_def)
  obtain sys3 where sys3: "mylisten env sys2 (int k) 5 = Ret (Inr 0, sys3)" "demux_inv env (int k) sys3"
      "ready_sds (backlog_of (int k) sys3) = []" "waiting_sds (int k) sys3 = {}" "max_len (backlog_of (int k) sys3) = 6"
      "live sys3 (int k) (network_start_recv_thread (e1\<lparr>ctx_of := (ctx_of e1)\<lparr>listening := True\<rparr>\<rparr>))"
    using mylisten_inv [OF assms(1) t2 h2 l2 e1] by auto
  have name: "local_name (Some h) sys3 (int k) = Ret (h @ '':'' @ dec (unat (ntohs port)))"
    using sys3(6) e so by (simp add: local_name_def mygetsockname_def api_context_live [OF sys3(6)] network_get_port_def network_start_recv_thread_def e1_def)
  show ?thesis
    using new bind sys3 name parse_printed_address [OF assms(9,10), of hostbyname port] assms(11)
    by (simp add: server_setup_def)
qed

definition demo_start :: mysock_sys where
  "demo_start = \<lparr>global_ctx = replicate MAX_NUM_CONNECTIONS None, listen_table = replicate MAX_NUM_CONNECTIONS [],
     n_sockets = 0, closed_fds = []\<rparr>"

theorem server_address_parsed_witness:
  "\<exists>name sys'. server_setup (demo_os\<lparr>os_bind := \<lambda>_ _. (0, 0x5000)\<rparr>) (Some ''here'') [] demo_start = Ret (Inr (0, name, sys'))
     \<and> parse_address [''here'' \<mapsto> 0x0100007F] name = Inr \<lparr>sin_port = 0x5000, sin_addr = 0x0100007F\<rparr>"
proof -
  let ?os = "demo_os\<lparr>os_bind := \<lambda>_ _. (0, 0x5000)\<rparr>"
  have o: "env_ok ?os" "os_bind ?os (os_socket ?os (n_sockets demo_start)) zero_sockaddr = (0, 0x5000)"
      "0 \<le> os_listen ?os (os_socket ?os (n_sockets demo_start)) 5"
    by (simp_all add: env_ok_def demo_os_def)
  have t: "table_ok demo_start" "first_free (global_ctx demo_start) = Some 0"
    by (simp add: table_ok_def demo_start_def, code_simp)
  have h: "hash_wf MAX_NUM_CONNECTIONS (listen_table demo_start)" "hash_abs (listen_table demo_start) (int 0) = None"
    using hash.inv_empty hash.abs_empty by (auto simp: demo_start_def fun_eq_iff)
  have n: "CHR '':'' \<notin> set ''here''" "inet_addr ''here'' = 0xFFFFFFFF" "[''here'' \<mapsto> (0x0100007F :: u32)] ''here'' = Some 0x0100007F"
    by (simp, code_simp, simp)
  show ?thesis using server_address_parsed [where hostbyname = "[''here'' \<mapsto> 0x0100007F]", OF o(1) t(1) h(1) t(2) h(2) o(2) _ o(3) n] by auto
qed

section \<open>The client program\<close>

text \<open>
  What the threads of a mysocket do to its context between two calls of the application, as a function on the
  context. They leave the descriptor, its kind and its side of the connection alone.
\<close>

definition at_ctx :: "int \<Rightarrow> (mysock_context \<Rightarrow> mysock_context) \<Rightarrow> mysock_sys \<Rightarrow> mysock_sys" where
  "at_ctx sd f s = (case global_ctx s ! nat sd of None \<Rightarrow> s | Some e \<Rightarrow> put_ctx s sd e f)"

definition thread_effect :: "(mysock_context \<Rightarrow> mysock_context) \<Rightarrow> bool" where
  "thread_effect f \<longleftrightarrow> (\<forall>c. my_sd (f c) = my_sd c \<and> listening (f c) = listening c \<and> is_active (f c) = is_active c)"

lemma at_ctx_live: "live s sd e \<Longrightarrow> at_ctx sd f s = put_ctx s sd e f"
  by (simp add: at_ctx_def live_def)

text \<open>
  A mysocket whose threads, once they have taken what was written and delivered what came back, do nothing more. The
  last part of \<open>thr_ok\<close> says what the other descriptors of the process are.
\<close>

definition thr_ok :: "(mysock_context \<Rightarrow> mysock_context) \<Rightarrow> int \<Rightarrow> mysock_entry option list \<Rightarrow> mysock_sys \<Rightarrow> bool" where
  "thr_ok f sd tbl s \<longleftrightarrow> (\<exists>e. live s sd e \<and> my_sd (ctx_of e) = sd \<and> is_active (ctx_of e) \<and> my_ok (f (ctx_of e))
     \<and> app_recv_queue (f (ctx_of e)) = [] \<and> (global_ctx s)[nat sd := None] = tbl)"

definition thr_ctx :: "(mysock_context \<Rightarrow> mysock_context) \<Rightarrow> int \<Rightarrow> mysock_sys \<Rightarrow> mysock_context" where
  "thr_ctx f sd s = f (ctx_of (the (global_ctx s ! nat sd)))"

lemma thr_ctx_live: "live s sd e \<Longrightarrow> thr_ctx f sd s = f (ctx_of e)"
  by (simp add: thr_ctx_def live_def)

lemma mysock_rd_frame:
  "mysock_rd c k = Some (r, c') \<Longrightarrow>
   app_recv_queue c' = app_recv_queue c \<and> my_sd c' = my_sd c \<and> is_active c' = is_active c"
  by (cases "mysock_dequeue_buffer (app_send_queue c) k True")
    (auto simp: mysock_rd_def myread_ctx_def assert_run_def Let_def split: if_splits prod.splits)

lemma sys_rd_live:
  assumes "live (others s) sd e" "my_sd (ctx_of e) = sd" "mysock_rd (ctx_of e) k = Some (r, c)"
  shows "sys_rd others sd s k = Some (r, put_entry (others s) sd (e\<lparr>ctx_of := c\<rparr>))"
  unfolding sys_rd_def myread_def api_context_live [OF assms(1,2)]
  using assms(3) by (cases "myread_ctx (ctx_of e) k") (auto simp: mysock_rd_def split: sum.splits prod.splits)

lemma put_entry_table: "(global_ctx (put_entry s sd e))[nat sd := x] = (global_ctx s)[nat sd := x]"
  by (simp add: put_entry_def)

locale settled_threads =
  fixes f :: "mysock_context \<Rightarrow> mysock_context"
  assumes effect: "thread_effect f"
    and settled: "app_recv_queue c = [] \<Longrightarrow> f c = c"
begin

lemma sys_rd_step:
  assumes "live s sd e" "my_sd (ctx_of e) = sd" "is_active (ctx_of e)" "app_recv_queue (f (ctx_of e)) = []"
    and "(global_ctx s)[nat sd := None] = tbl"
    and "mysock_rd (f (ctx_of e)) k = Some (r, c)" "my_ok c"
  shows "\<exists>s'. sys_rd (at_ctx sd f) sd s k = Some (r, s') \<and> thr_ok f sd tbl s' \<and> thr_ctx f sd s' = c"
proof -
  define s' where "s' = put_entry s sd (e\<lparr>ctx_of := c\<rparr>)"
  have sd: "0 \<le> sd" "sd < int (length (global_ctx s))" using assms(1) by (auto simp: live_def)
  have c: "app_recv_queue c = []" "my_sd c = sd" "is_active c"
    using mysock_rd_frame [OF assms(6)] assms(2-4) effect by (auto simp: thread_effect_def)
  have l: "live (at_ctx sd f s) sd (e\<lparr>ctx_of := f (ctx_of e)\<rparr>)"
    using sd by (simp add: at_ctx_live [OF assms(1)] put_ctx_def live_put_entry)
  have "my_sd (f (ctx_of e)) = sd" using effect assms(2) by (simp add: thread_effect_def)
  then have "sys_rd (at_ctx sd f) sd s k = Some (r, s')"
    using sys_rd_live [where others = "at_ctx sd f", of s sd "e\<lparr>ctx_of := f (ctx_of e)\<rparr>" k r c] assms(6) l
    by (simp add: at_ctx_live [OF assms(1)] put_ctx_def s'_def)
  moreover have l': "live s' sd (e\<lparr>ctx_of := c\<rparr>)" using sd by (simp add: s'_def live_put_entry)
  then have "thr_ok f sd tbl s'"
    using c assms(5,7) settled [of c] by (auto simp: thr_ok_def s'_def put_entry_table)
  moreover have "thr_ctx f sd s' = c" using l' c(1) settled by (simp add: thr_ctx_live)
  ultimately show ?thesis by blast
qed

end

sublocale settled_threads \<subseteq> reads: stream_reader "thr_ok f sd tbl" "\<lambda>s. my_contents (thr_ctx f sd s)" "\<lambda>s. my_closed (thr_ctx f sd s)"
    "\<lambda>s. my_sent (thr_ctx f sd s)" "sys_rd (at_ctx sd f) sd" for sd tbl
proof unfold_locales
  fix s :: mysock_sys and k :: nat
  assume a: "thr_ok f sd tbl s" "0 < k" "my_contents (thr_ctx f sd s) \<noteq> []"
  then obtain e where e: "live s sd e" "my_sd (ctx_of e) = sd" "is_active (ctx_of e)" "app_recv_queue (f (ctx_of e)) = []"
      "(global_ctx s)[nat sd := None] = tbl" "my_ok (f (ctx_of e))"
    by (auto simp: thr_ok_def)
  have ne: "my_contents (f (ctx_of e)) \<noteq> []" using a(3) by (simp add: thr_ctx_live [OF e(1)])
  obtain d c where d: "mysock_rd (f (ctx_of e)) k = Some (Got d, c)" "d \<noteq> []" "length d \<le> k"
      "my_contents (f (ctx_of e)) = d @ my_contents c" "my_ok c" "my_closed c = my_closed (f (ctx_of e))"
      "my_sent c = my_sent (f (ctx_of e))"
    using mysock.rd_got [OF e(6) a(2) ne] by auto
  show "\<exists>d s'. sys_rd (at_ctx sd f) sd s k = Some (Got d, s') \<and> d \<noteq> [] \<and> length d \<le> k
      \<and> my_contents (thr_ctx f sd s) = d @ my_contents (thr_ctx f sd s') \<and> thr_ok f sd tbl s'
      \<and> my_closed (thr_ctx f sd s') = my_closed (thr_ctx f sd s) \<and> my_sent (thr_ctx f sd s') = my_sent (thr_ctx f sd s)"
    using sys_rd_step [OF e(1-5) d(1,5)] d(2-7) by (auto simp: thr_ctx_live [OF e(1)])
next
  fix s :: mysock_sys and k :: nat
  assume a: "thr_ok f sd tbl s" "0 < k" "my_contents (thr_ctx f sd s) = []" "my_closed (thr_ctx f sd s)"
  then obtain e where e: "live s sd e" "my_sd (ctx_of e) = sd" "is_active (ctx_of e)" "app_recv_queue (f (ctx_of e)) = []"
      "(global_ctx s)[nat sd := None] = tbl" "my_ok (f (ctx_of e))"
    by (auto simp: thr_ok_def)
  have em: "my_contents (f (ctx_of e)) = []" "my_closed (f (ctx_of e))" using a(3,4) by (simp_all add: thr_ctx_live [OF e(1)])
  obtain c where c: "mysock_rd (f (ctx_of e)) k = Some (Got [], c)" "my_ok c" "my_sent c = my_sent (f (ctx_of e))"
    using mysock.rd_end [OF e(6) a(2) em] by auto
  show "\<exists>s'. sys_rd (at_ctx sd f) sd s k = Some (Got [], s') \<and> thr_ok f sd tbl s'
      \<and> my_sent (thr_ctx f sd s') = my_sent (thr_ctx f sd s)"
    using sys_rd_step [OF e(1-5) c(1,2)] c(3) by (auto simp: thr_ctx_live [OF e(1)])
qed

text \<open>
  The mysocket layer of a client that talks to the server: the handshake completes, and once the application has
  written the request \<open>req\<close> it is taken and the packets \<open>ps\<close> of the answer are passed up.
\<close>

definition handshake_done :: "mysock_context \<Rightarrow> mysock_context" where
  "handshake_done c = c\<lparr>blocking := False, stcp_errno := 0\<rparr>"

lemma handshake_done_simps:
  "my_sd (handshake_done c) = my_sd c" "blocking (handshake_done c) = False" "stcp_errno (handshake_done c) = 0"
  "is_active (handshake_done c) = is_active c" "listening (handshake_done c) = listening c" "eof (handshake_done c) = eof c"
  "close_requested (handshake_done c) = close_requested c" "app_recv_queue (handshake_done c) = app_recv_queue c"
  "app_send_queue (handshake_done c) = app_send_queue c"
  by (simp_all add: handshake_done_def)

definition answering :: "bytes \<Rightarrow> bytes list \<Rightarrow> mysock_context \<Rightarrow> mysock_context" where
  "answering req ps c =
     (if app_recv_queue c = [req] then c\<lparr>app_recv_queue := [], app_send_queue := app_send_queue c @ ps\<rparr> else c)"

interpretation answers: settled_threads "answering req ps" for req ps
  by unfold_locales (simp_all add: thread_effect_def answering_def)

lemma connect_done:
  assumes "live s 0 e" "my_sd (ctx_of e) = 0" "peer_addr_len (network_state (ctx_of e)) = 0" "\<not> bound (ctx_of e)"
    and "\<not> listening (ctx_of e)" "0 \<le> socket (tcp_of e)" "os_bind env (socket (tcp_of e)) zero_sockaddr = (0, port)"
  shows "\<exists>e'. myconnect env (at_ctx 0 handshake_done) s 0 sin 16 = Ret (Inr 0, put_entry s 0 e')
    \<and> my_sd (ctx_of e') = 0 \<and> is_active (ctx_of e') \<and> \<not> listening (ctx_of e') \<and> eof (ctx_of e') = eof (ctx_of e)
    \<and> close_requested (ctx_of e') = close_requested (ctx_of e) \<and> app_recv_queue (ctx_of e') = app_recv_queue (ctx_of e)
    \<and> app_send_queue (ctx_of e') = app_send_queue (ctx_of e)"
proof -
  have len: "0 < length (global_ctx s)" using assms(1) by (auto simp: live_def)
  have at: "at_ctx 0 handshake_done (put_entry s 0 d) = put_entry s 0 (d\<lparr>ctx_of := handshake_done (ctx_of d)\<rparr>)" for d
    using at_ctx_live [of "put_entry s 0 d" 0 d handshake_done] len by (simp add: live_put_entry put_ctx_def)
  show ?thesis
    using assms len
    by (simp add: myconnect_def api_context_live [OF assms(1)] put_ctx_def mysock_bind_ephemeral_def network_bind_def
        mysock_transport_init_def network_start_recv_thread_def mysock_wait_for_connection_def at Let_def handshake_done_simps)
      (intro exI conjI, rule refl, simp_all add: handshake_done_simps)
qed

lemma client_connects:
  assumes "env_ok env" "first_free (global_ctx sys) = Some 0"
    and "os_bind env (os_socket env (n_sockets sys)) zero_sockaddr = (0, port)"
  obtains s1 e2 where "mysocket env sys True = Ret (Inr 0, s1)"
    and "myconnect env (at_ctx 0 handshake_done) s1 0 sin 16 = Ret (Inr 0, put_entry s1 0 e2)"
    and "my_sd (ctx_of e2) = 0" "is_active (ctx_of e2)" "\<not> listening (ctx_of e2)" "\<not> eof (ctx_of e2)" "\<not> close_requested (ctx_of e2)"
    and "app_recv_queue (ctx_of e2) = []" "app_send_queue (ctx_of e2) = []"
    and "0 < length (global_ctx s1)" "(global_ctx s1)[0 := None] = global_ctx sys"
proof -
  define e where "e = new_entry env (n_sockets sys) True 0"
  define s1 where "s1 = put_entry (sys\<lparr>n_sockets := Suc (n_sockets sys)\<rparr>) 0 e"
  have free: "0 < length (global_ctx sys)" "global_ctx sys ! 0 = None" using first_free_Some [OF assms(2)] by auto
  have new: "mysocket env sys True = Ret (Inr 0, s1)"
    using new_mysocket_Some [OF assms(1,2)] by (simp add: mysocket_def e_def s1_def)
  have l1: "live s1 0 e" using free by (simp add: s1_def live_put_entry)
  have tbl: "(global_ctx s1)[0 := None] = global_ctx sys"
    using free(2) by (simp add: s1_def put_entry_def) (metis list_update_id)
  have "\<exists>e'. myconnect env (at_ctx 0 handshake_done) s1 0 sin 16 = Ret (Inr 0, put_entry s1 0 e')
    \<and> my_sd (ctx_of e') = 0 \<and> is_active (ctx_of e') \<and> \<not> listening (ctx_of e') \<and> eof (ctx_of e') = eof (ctx_of e)
    \<and> close_requested (ctx_of e') = close_requested (ctx_of e) \<and> app_recv_queue (ctx_of e') = app_recv_queue (ctx_of e)
    \<and> app_send_queue (ctx_of e') = app_send_queue (ctx_of e)"
    by (rule connect_done [OF l1]) (use assms(1,3) in \<open>simp_all add: e_def new_entry_def env_ok_def\<close>)
  then show thesis using that [OF new] tbl free(1) by (auto simp: e_def new_entry_def s1_def)
qed

lemma close_restores:
  assumes "thr_ok f 0 tbl s" "thread_effect f" "thread_effect g"
  shows "\<exists>s'. myclose (Suc n) (\<lambda>s sd. Some (at_ctx sd g s)) s 0 = Ret s' \<and> global_ctx s' = tbl"
proof -
  obtain e where e: "live s 0 e" "my_sd (ctx_of e) = 0" "is_active (ctx_of e)" "my_ok (f (ctx_of e))"
      "(global_ctx s)[0 := None] = tbl"
    using assms(1) by (auto simp: thr_ok_def)
  have len: "0 < length (global_ctx s)" using e(1) by (auto simp: live_def)
  have l: "\<not> listening (ctx_of e)" using e(4) assms(2) by (simp add: thread_effect_def my_ok_def)
  have g: "my_sd (g c) = my_sd c" "listening (g c) = listening c" for c using assms(3) by (simp_all add: thread_effect_def)
  have at: "at_ctx 0 g (put_entry s 0 d) = put_entry s 0 (d\<lparr>ctx_of := g (ctx_of d)\<rparr>)" for d
    using at_ctx_live [of "put_entry s 0 d" 0 d g] len by (simp add: live_put_entry put_ctx_def)
  have tbl: "(global_ctx (put_entry s 0 d))[0 := None] = tbl" for d
    using e(5) put_entry_table [of s 0 d None] by simp
  show ?thesis
    using e(1-3) l len g
    by (auto simp: put_ctx_def at network_stop_recv_thread_def mysock_free_context_def network_close_defs tbl Let_def)
qed



end
