(* ===== verification/File_Server_Props.thy ===== *)
theory File_Server_Props
  imports File_Main_Props
begin

text \<open>
  The file transfer server with several clients: it accepts the connections that are ready in their order, answers each
  of them and closes it, and then waits for the next one.
\<close>

section \<open>An accepted descriptor as a stream socket\<close>

text \<open>Reading and writing change the queues of the application and the end-of-file flag of a context, nothing else.\<close>

definition conn_frame :: "mysock_context \<Rightarrow> mysock_context" where
  "conn_frame c = c\<lparr>app_send_queue := [], app_recv_queue := [], eof := False\<rparr>"

abbreviation same_conn :: "mysock_context \<Rightarrow> mysock_context \<Rightarrow> bool" where
  "same_conn c d \<equiv> conn_frame d = conn_frame c"

lemma conn_frame_fields:
  "my_sd (conn_frame c) = my_sd c" "listening (conn_frame c) = listening c" "listen_sd (conn_frame c) = listen_sd c"
  "transport_thread_started (conn_frame c) = transport_thread_started c" "is_active (conn_frame c) = is_active c"
  by (simp_all add: conn_frame_def)

lemma same_connD:
  assumes "same_conn c d"
  shows "my_sd d = my_sd c" "listening d = listening c" "transport_thread_started d = transport_thread_started c"
    "listen_sd d = listen_sd c" "is_active d = is_active c"
  using assms conn_frame_fields by metis+

lemma rd_same_conn: "mysock_rd c k = Some (r, d) \<Longrightarrow> same_conn c d"
  by (cases "mysock_dequeue_buffer (app_send_queue c) k True")
    (auto simp: mysock_rd_def myread_ctx_def assert_run_def Let_def conn_frame_def split: if_splits prod.splits)

lemma wr_same_conn: "mysock_wr c buf = Some (n, d) \<Longrightarrow> same_conn c d"
  by (auto simp: mysock_wr_def mywrite_ctx_def assert_run_def conn_frame_def split: if_splits)

definition at_sd :: "mysock_sys \<Rightarrow> int \<Rightarrow> mysock_entry \<Rightarrow> mysock_sys \<Rightarrow> bool" where
  "at_sd s0 sd e0 s \<longleftrightarrow> live s0 sd e0 \<and> my_sd (ctx_of e0) = sd
     \<and> (\<exists>c. s = put_entry s0 sd (e0\<lparr>ctx_of := c\<rparr>) \<and> same_conn (ctx_of e0) c \<and> my_ok c)"

definition ctx_at :: "int \<Rightarrow> mysock_sys \<Rightarrow> mysock_context" where
  "ctx_at sd s = ctx_of (the (global_ctx s ! nat sd))"

lemma at_sdE:
  assumes "at_sd s0 sd e0 s"
  obtains c where "live s sd (e0\<lparr>ctx_of := c\<rparr>)" "s = put_entry s0 sd (e0\<lparr>ctx_of := c\<rparr>)" "same_conn (ctx_of e0) c" "my_ok c"
    "my_sd c = sd" "ctx_at sd s = c"
proof -
  from assms obtain c where c: "s = put_entry s0 sd (e0\<lparr>ctx_of := c\<rparr>)" "same_conn (ctx_of e0) c" "my_ok c" "live s0 sd e0"
      "my_sd (ctx_of e0) = sd" by (auto simp: at_sd_def)
  have l: "live s sd (e0\<lparr>ctx_of := c\<rparr>)" unfolding c(1) by (subst live_put_entry) (use c(4) in \<open>auto simp: live_def\<close>)
  show thesis by (rule that [OF l c(1-3)]) (use c(5) same_connD(1) [OF c(2)] l in \<open>simp_all add: ctx_at_def live_def\<close>)
qed

lemma at_sd_put:
  assumes "at_sd s0 sd e0 s" "same_conn (ctx_at sd s) d" "my_ok d"
  shows "at_sd s0 sd e0 (put_entry s0 sd (e0\<lparr>ctx_of := d\<rparr>)) \<and> ctx_at sd (put_entry s0 sd (e0\<lparr>ctx_of := d\<rparr>)) = d"
proof -
  obtain c where "same_conn (ctx_of e0) c" "ctx_at sd s = c" using assms(1) by (rule at_sdE)
  moreover have "nat sd < length (global_ctx s0)" using assms(1) by (auto simp: at_sd_def live_def)
  ultimately show ?thesis using assms by (auto simp: at_sd_def ctx_at_def put_entry_def)
qed

lemma sys_rd_at:
  assumes "at_sd s0 sd e0 s" "mysock_rd (ctx_at sd s) k = Some (r, d)" "my_ok d"
  shows "\<exists>s'. sys_rd (\<lambda>s. s) sd s k = Some (r, s') \<and> at_sd s0 sd e0 s' \<and> ctx_at sd s' = d"
proof -
  obtain c where c: "live s sd (e0\<lparr>ctx_of := c\<rparr>)" "s = put_entry s0 sd (e0\<lparr>ctx_of := c\<rparr>)" "my_sd c = sd" "ctx_at sd s = c"
    using assms(1) by (rule at_sdE)
  have "sys_rd (\<lambda>s. s) sd s k = Some (r, put_entry s sd (e0\<lparr>ctx_of := d\<rparr>))"
    using sys_rd_live [of "\<lambda>s. s" s sd, OF c(1)] c(3,4) assms(2) by simp
  then show ?thesis using at_sd_put [OF assms(1) rd_same_conn [OF assms(2)] assms(3)] c(2) by auto
qed

lemma sys_wr_at:
  assumes "at_sd s0 sd e0 s" "mysock_wr (ctx_at sd s) buf = Some (n, d)" "my_ok d"
  shows "\<exists>s'. sys_wr sd s buf = Some (n, s') \<and> at_sd s0 sd e0 s' \<and> ctx_at sd s' = d"
proof -
  obtain c where c: "live s sd (e0\<lparr>ctx_of := c\<rparr>)" "s = put_entry s0 sd (e0\<lparr>ctx_of := c\<rparr>)" "my_sd c = sd" "ctx_at sd s = c" "my_ok c"
    using assms(1) by (rule at_sdE)
  have "sys_wr sd s buf = Some (n, put_entry s sd (e0\<lparr>ctx_of := d\<rparr>))"
    unfolding sys_wr_def mywrite_def using c(3-5) assms(2)
    by (simp add: api_context_live [OF c(1)] mysock_wr_def mywrite_ctx_def my_ok_def)
  then show ?thesis using at_sd_put [OF assms(1) wr_same_conn [OF assms(2)] assms(3)] c(2) by auto
qed

interpretation conn: stream_socket "at_sd s0 sd e0" "\<lambda>s. my_contents (ctx_at sd s)" "\<lambda>s. my_closed (ctx_at sd s)"
    "\<lambda>s. my_sent (ctx_at sd s)" "sys_rd (\<lambda>s. s) sd" "sys_wr sd" for s0 sd e0
proof unfold_locales
  fix s :: mysock_sys and k :: nat
  assume a: "at_sd s0 sd e0 s" "0 < k" "my_contents (ctx_at sd s) \<noteq> []"
  have ok: "my_ok (ctx_at sd s)" using a(1) by (auto elim: at_sdE)
  obtain d c where "mysock_rd (ctx_at sd s) k = Some (Got d, c)" "d \<noteq> []" "length d \<le> k"
      "my_contents (ctx_at sd s) = d @ my_contents c" "my_ok c" "my_closed c = my_closed (ctx_at sd s)"
      "my_sent c = my_sent (ctx_at sd s)"
    using mysock.rd_got [OF ok a(2,3)] by auto
  then show "\<exists>d s'. sys_rd (\<lambda>s. s) sd s k = Some (Got d, s') \<and> d \<noteq> [] \<and> length d \<le> k
      \<and> my_contents (ctx_at sd s) = d @ my_contents (ctx_at sd s') \<and> at_sd s0 sd e0 s'
      \<and> my_closed (ctx_at sd s') = my_closed (ctx_at sd s) \<and> my_sent (ctx_at sd s') = my_sent (ctx_at sd s)"
    using sys_rd_at [OF a(1)] by metis
next
  fix s :: mysock_sys and k :: nat
  assume a: "at_sd s0 sd e0 s" "0 < k" "my_contents (ctx_at sd s) = []" "my_closed (ctx_at sd s)"
  have ok: "my_ok (ctx_at sd s)" using a(1) by (auto elim: at_sdE)
  then show "\<exists>s'. sys_rd (\<lambda>s. s) sd s k = Some (Got [], s') \<and> at_sd s0 sd e0 s' \<and> my_sent (ctx_at sd s') = my_sent (ctx_at sd s)"
    using mysock.rd_end [OF ok a(2-4)] sys_rd_at [OF a(1)] by metis
next
  fix s :: mysock_sys and d :: bytes
  assume a: "at_sd s0 sd e0 s"
  have ok: "my_ok (ctx_at sd s)" using a(1) by (auto elim: at_sdE)
  then show "\<exists>n s'. sys_wr sd s d = Some (n, s') \<and> 0 \<le> n \<and> at_sd s0 sd e0 s' \<and> my_contents (ctx_at sd s') = my_contents (ctx_at sd s)
      \<and> my_closed (ctx_at sd s') = my_closed (ctx_at sd s) \<and> my_sent (ctx_at sd s') = my_sent (ctx_at sd s) @ d"
    using mysock.wr_ok [OF ok, of d] sys_wr_at [OF a(1)] by metis
qed

section \<open>Accepting and closing\<close>

lemmas run_bind_RetD = iffD1 [OF run_bind_eq_Ret_iff]

lemma with_context_RetD: "with_context sys sd f = Ret x \<Longrightarrow> \<exists>e. f e = Ret x"
  by (auto simp: with_context_def dest!: run_bind_RetD)

lemma dequeue_frame: "mysock_dequeue_connection sys lsd = Ret (sd, sys') \<Longrightarrow> \<exists>t. sys' = sys\<lparr>listen_table := t\<rparr>"
  unfolding mysock_dequeue_connection_def put_queue_def
  by (auto dest!: run_bind_RetD with_context_RetD split: option.split_asm list.split_asm)

lemma accept_first:
  assumes inv: "demux_inv env lsd s" and r: "ready_sds (backlog_of lsd s) = sd # rest"
    and e: "live s sd e" "stcp_errno (ctx_of e) = 0" "0 < peer_addr_len (network_state (ctx_of e))"
  obtains t where "myaccept s lsd = Ret (Inr (sd, peer_addr (network_state (ctx_of e))), s\<lparr>listen_table := t\<rparr>)"
    "demux_inv env lsd (s\<lparr>listen_table := t\<rparr>)" "ready_sds (backlog_of lsd (s\<lparr>listen_table := t\<rparr>)) = rest"
    "waiting_sds lsd (s\<lparr>listen_table := t\<rparr>) = waiting_sds lsd s" "sd \<notin> set (slots (backlog_of lsd (s\<lparr>listen_table := t\<rparr>)))"
    "sd \<noteq> lsd" "listen_sd (ctx_of e) = lsd"
proof -
  obtain s' where s': "mysock_dequeue_connection s lsd = Ret (sd, s')" "demux_inv env lsd s'" "ready_sds (backlog_of lsd s') = rest"
      "waiting_sds lsd s' = waiting_sds lsd s"
    using dequeue_step [OF inv r] by blast
  then obtain t where t: "s' = s\<lparr>listen_table := t\<rparr>" using dequeue_frame by blast
  note q = demux_invD(6) [OF inv]
  have sl: "sd \<in> set (slots (backlog_of lsd s))" using ready_in_slots [OF q] r by auto
  then have ls: "sd \<noteq> lsd" "listen_sd (ctx_of e) = lsd"
    using demux_invD(7) [OF inv, of sd] live_unique [OF e(1)] by auto
  have "sd \<notin> waiting_sds lsd s" "sd \<notin> set rest" using r distinct_ready [OF q] by (auto simp: waiting_sds_def)
  then have out: "sd \<notin> set (slots (backlog_of lsd s'))" using s'(3,4) by (auto simp: waiting_sds_def)
  obtain l where l: "live s lsd l" "listening (ctx_of l)" using demux_invD(4) [OF inv] by blast
  have my: "my_sd (ctx_of l) = lsd" "my_sd (ctx_of e) = sd" using table_okD [OF demux_invD(2) [OF inv]] l(1) e(1) by auto
  have "live (s\<lparr>listen_table := t\<rparr>) sd e" using e(1) by simp
  then have "myaccept s lsd = Ret (Inr (sd, peer_addr (network_state (ctx_of e))), s\<lparr>listen_table := t\<rparr>)"
    unfolding myaccept_def api_context_live [OF l(1) my(1)] using l(2) s'(1) t e(2,3) my(2) ls(2) by (simp add: Let_def)
  then show thesis using that s' t out ls by blast
qed

definition sent_join :: "(int \<Rightarrow> bytes) \<Rightarrow> (mysock_context \<Rightarrow> mysock_context) \<Rightarrow> mysock_sys \<Rightarrow> int \<Rightarrow> mysock_sys option" where
  "sent_join expected g s sd =
     (case global_ctx s ! nat sd of
        None \<Rightarrow> None
      | Some e \<Rightarrow> if my_sent (ctx_of e) = expected sd then Some (at_ctx sd g s) else None)"

lemma close_conn:
  assumes "at_sd s1 sd e0 s" "transport_thread_started (ctx_of e0)" "listen_sd (ctx_of e0) \<noteq> -1"
    and "my_sent (ctx_at sd s) = expected sd" "thread_effect g"
  shows "\<exists>s3. myclose (Suc n) (sent_join expected g) s sd = Ret s3
    \<and> global_ctx s3 = (global_ctx s1)[nat sd := None] \<and> listen_table s3 = listen_table s1"
proof -
  obtain c where c: "live s sd (e0\<lparr>ctx_of := c\<rparr>)" "s = put_entry s1 sd (e0\<lparr>ctx_of := c\<rparr>)" "same_conn (ctx_of e0) c" "my_ok c"
      "my_sd c = sd" "ctx_at sd s = c"
    using assms(1) by (rule at_sdE)
  have sd: "0 \<le> sd" "sd < int (length (global_ctx s1))" using assms(1) by (auto simp: at_sd_def live_def)
  have f: "transport_thread_started c" "listen_sd c \<noteq> -1" "\<not> listening c"
    using assms(2,3) same_connD [OF c(3)] c(4) by (auto simp: my_ok_def)
  have g: "my_sd (g d) = my_sd d" "listening (g d) = listening d" for d using assms(5) by (simp_all add: thread_effect_def)
  define e1 where "e1 = e0\<lparr>ctx_of := c\<lparr>close_requested := True\<rparr>\<rparr>"
  have "my_sent (c\<lparr>close_requested := True\<rparr>) = expected sd" using assms(4) c(6) by (simp add: my_sent_def)
  moreover have "global_ctx (put_entry s1 sd e1) ! nat sd = Some e1" using sd by (simp add: put_entry_def)
  moreover have "at_ctx sd g (put_entry s1 sd e1) = put_entry s1 sd (e1\<lparr>ctx_of := g (ctx_of e1)\<rparr>)"
    using at_ctx_live [of "put_entry s1 sd e1" sd e1 g] sd by (simp add: live_put_entry put_ctx_def)
  ultimately have j: "sent_join expected g (put_entry s1 sd e1) sd = Some (put_entry s1 sd (e1\<lparr>ctx_of := g (ctx_of e1)\<rparr>))"
    by (simp add: sent_join_def e1_def)
  show ?thesis
    using c(1,2,5) f sd g j [unfolded e1_def]
    by (simp add: put_ctx_def network_stop_recv_thread_def mysock_free_context_def network_close_defs Let_def put_entry_table)
qed

lemma demux_inv_close:
  assumes inv: "demux_inv env lsd s1" and sd: "sd \<notin> set (slots (backlog_of lsd s1))" "sd \<noteq> lsd" "0 \<le> sd"
    and s3: "global_ctx s3 = (global_ctx s1)[nat sd := None]" "listen_table s3 = listen_table s1"
  shows "demux_inv env lsd s3 \<and> backlog_of lsd s3 = backlog_of lsd s1"
proof -
  have lv: "live s3 x e \<longleftrightarrow> live s1 x e" if "x \<noteq> sd" for x e
    using that sd(3) by (auto simp: live_def s3(1) nth_list_update eq_nat_nat_iff)
  have b: "backlog_of lsd s3 = backlog_of lsd s1" by (simp add: backlog_of_def s3(2))
  have "global_ctx s1 ! k = Some e" if "(global_ctx s1)[nat sd := None] ! k = Some e" "k < length (global_ctx s1)" for k e
    using that by (cases "k = nat sd") simp_all
  then have "table_ok s3" using demux_invD(2) [OF inv] by (auto simp: table_ok_def s3(1))
  then show ?thesis
    using demux_invD [OF inv] sd lv s3(2) b unfolding demux_inv_def by (metis (no_types, lifting))
qed

section \<open>All clients\<close>

text \<open>A connection whose client has sent its request and closed its side.\<close>

definition asks :: "mysock_sys \<Rightarrow> int \<Rightarrow> string \<Rightarrow> bool" where
  "asks s sd name \<longleftrightarrow> (\<exists>e. live s sd e \<and> stcp_errno (ctx_of e) = 0 \<and> 0 < peer_addr_len (network_state (ctx_of e))
     \<and> my_ok (ctx_of e) \<and> transport_thread_started (ctx_of e) \<and> my_contents (ctx_of e) = to_bytes (name @ crlf)
     \<and> my_closed (ctx_of e) \<and> my_sent (ctx_of e) = [])"

text \<open>The server has the file, which is not too long for the answer.\<close>

definition has_file :: "(string \<Rightarrow> bool) \<Rightarrow> (string \<Rightarrow> 'f option) \<Rightarrow> ('f \<Rightarrow> nat) \<Rightarrow> ('f \<Rightarrow> bytes) \<Rightarrow> string \<Rightarrow> 'f \<Rightarrow> bool" where
  "has_file access fopen fsize fcontents name fd \<longleftrightarrow> name \<noteq> [] \<and> CHR 0x0D \<notin> set name \<and> CHR 0x00 \<notin> set name
     \<and> length name < SERVER_LINE \<and> access name \<and> fopen name = Some fd \<and> fsize fd = length (fcontents fd)
     \<and> length (fcontents fd) < 2 ^ 31"

lemma serve_first:
  assumes inv: "demux_inv env lsd s" and r: "ready_sds (backlog_of lsd s) = sd # rest" and a: "asks s sd name"
    and f: "has_file access fopen fsize fcontents name fd" and x: "expected sd = reply name (fcontents fd)"
    and frd: "reader_ok frd fcontents intr" "steady frd" "ends frd fcontents" and g: "thread_effect g"
  shows "\<exists>s3. serve_loop access fopen fsize frd (Suc n) (\<lambda>s. s) (sent_join expected g) lsd s =
        serve_loop access fopen fsize frd (Suc n) (\<lambda>s. s) (sent_join expected g) lsd s3
      \<and> demux_inv env lsd s3 \<and> ready_sds (backlog_of lsd s3) = rest \<and> waiting_sds lsd s3 = waiting_sds lsd s
      \<and> global_ctx s3 = (global_ctx s)[nat sd := None]"
proof -
  obtain e where e: "live s sd e" "stcp_errno (ctx_of e) = 0" "0 < peer_addr_len (network_state (ctx_of e))" "my_ok (ctx_of e)"
      "transport_thread_started (ctx_of e)" "my_contents (ctx_of e) = to_bytes (name @ crlf)" "my_closed (ctx_of e)" "my_sent (ctx_of e) = []"
    using a by (auto simp: asks_def)
  obtain t where t: "myaccept s lsd = Ret (Inr (sd, peer_addr (network_state (ctx_of e))), s\<lparr>listen_table := t\<rparr>)"
    "demux_inv env lsd (s\<lparr>listen_table := t\<rparr>)" "ready_sds (backlog_of lsd (s\<lparr>listen_table := t\<rparr>)) = rest"
    "waiting_sds lsd (s\<lparr>listen_table := t\<rparr>) = waiting_sds lsd s" "sd \<notin> set (slots (backlog_of lsd (s\<lparr>listen_table := t\<rparr>)))"
    "sd \<noteq> lsd" "listen_sd (ctx_of e) = lsd"
    by (rule accept_first [OF inv r e(1-3)])
  define s1 where "s1 = s\<lparr>listen_table := t\<rparr>"
  have l1: "live s1 sd e" "my_sd (ctx_of e) = sd" using e(1) table_okD [OF demux_invD(2) [OF inv] e(1)] by (simp_all add: s1_def)
  have sd: "0 \<le> sd" "global_ctx s1 ! nat sd = Some e" using l1(1) by (auto simp: live_def)
  have "put_entry s1 sd (e\<lparr>ctx_of := ctx_of e\<rparr>) = s1"
    using list_update_id [of "global_ctx s1" "nat sd"] sd(2) by (simp add: put_entry_def)
  then have at: "at_sd s1 sd e s1" "ctx_at sd s1 = ctx_of e"
    using l1 e(4) sd(2) by (auto simp: at_sd_def ctx_at_def intro!: exI [of _ "ctx_of e"])
  obtain s2 where s2: "do_connection access fopen fsize frd (sys_rd (\<lambda>s. s) sd) (sys_wr sd) s1 = Some (Inr s2)" "at_sd s1 sd e s2"
      "my_sent (ctx_at sd s2) = expected sd"
    using conn.server_answers [of s1 sd e s1 name access fopen fd fsize fcontents frd intr] at e(6-8) f [unfolded has_file_def] frd x
    by (auto simp: reply_def)
  have "lsd \<noteq> -1" using demux_invD(4) [OF inv] by (auto simp: live_def)
  then obtain s3 where s3: "myclose (Suc n) (sent_join expected g) s2 sd = Ret s3" "global_ctx s3 = (global_ctx s1)[nat sd := None]"
      "listen_table s3 = listen_table s1"
    using close_conn [of s1 sd e s2 expected g n] s2(2,3) e(5) g t(7) by auto
  have "demux_inv env lsd s3" "backlog_of lsd s3 = backlog_of lsd s1"
    using demux_inv_close [OF t(2,5,6) sd(1)] s3(2,3) by (simp_all add: s1_def)
  moreover have "serve_loop access fopen fsize frd (Suc n) (\<lambda>s. s) (sent_join expected g) lsd s =
      serve_loop access fopen fsize frd (Suc n) (\<lambda>s. s) (sent_join expected g) lsd s3"
    using t(1) s2(1) s3(1) by (subst serve_loop.simps) (simp add: s1_def del: myclose.simps)
  ultimately show ?thesis using t(3,4) s3(2) by (intro exI [of _ s3]) (auto simp: s1_def waiting_sds_def)
qed

lemma accept_waits:
  assumes "demux_inv env lsd s" "ready_sds (backlog_of lsd s) = []"
  shows "myaccept s lsd = Block"
proof -
  obtain l where l: "live s lsd l" "listening (ctx_of l)" using demux_invD(4) [OF assms(1)] by blast
  have my: "my_sd (ctx_of l) = lsd" using table_okD [OF demux_invD(2) [OF assms(1)] l(1)] .
  show ?thesis
    unfolding myaccept_def api_context_live [OF l(1) my] using l(2) demux.accept_wait [OF assms] by simp
qed

text \<open>
  C39: the server answers every client. Let the backlog of the listening descriptor hold accepted connections whose
  clients have sent the name of a file that exists and have closed their side. The loop of the server then returns
  from none of its calls with an error: it accepts the connections in the order in which they became ready, and
  for each one it writes the whole reply before it closes it, since the threads of a connection end only when the
  expected bytes have been written (\<open>sent_join\<close>). It ends waiting in \<open>myaccept\<close> with an empty backlog; the
  connections still in their handshake are left alone, and exactly the descriptors that were served are free again.
\<close>

theorem server_serves_all:
  assumes "demux_inv env lsd s" "ready_sds (backlog_of lsd s) = sds" "\<forall>sd \<in> set sds. asks s sd (name sd)"
    and "\<forall>sd \<in> set sds. has_file access fopen fsize fcontents (name sd) (file sd) \<and> expected sd = reply (name sd) (fcontents (file sd))"
    and "reader_ok frd fcontents intr" "steady frd" "ends frd fcontents" "thread_effect g"
  shows "\<exists>s'. serve_loop access fopen fsize frd (Suc n) (\<lambda>s. s) (sent_join expected g) lsd s = Some (Ret (None, s'))
      \<and> demux_inv env lsd s' \<and> ready_sds (backlog_of lsd s') = [] \<and> waiting_sds lsd s' = waiting_sds lsd s
      \<and> (\<forall>sd e. live s' sd e \<longleftrightarrow> sd \<notin> set sds \<and> live s sd e)"
  using assms(1-4)
proof (induction sds arbitrary: s)
  case Nil
  then show ?case using accept_waits [OF Nil(1,2)] by (subst serve_loop.simps) simp
next
  case (Cons sd sds)
  have a: "asks s sd (name sd)" and f: "has_file access fopen fsize fcontents (name sd) (file sd)"
      and x: "expected sd = reply (name sd) (fcontents (file sd))"
    using Cons.prems(3,4) by auto
  obtain s3 where s3: "serve_loop access fopen fsize frd (Suc n) (\<lambda>s. s) (sent_join expected g) lsd s =
        serve_loop access fopen fsize frd (Suc n) (\<lambda>s. s) (sent_join expected g) lsd s3"
      "demux_inv env lsd s3" "ready_sds (backlog_of lsd s3) = sds" "waiting_sds lsd s3 = waiting_sds lsd s"
      "global_ctx s3 = (global_ctx s)[nat sd := None]"
    using serve_first [of env lsd s sd sds "name sd" access fopen fsize fcontents "file sd" expected frd intr g n,
        OF Cons.prems(1,2) a f x assms(5-8)] by blast
  have sd: "0 \<le> sd" "sd < int (length (global_ctx s))" using a by (auto simp: asks_def live_def)
  have lv: "live s3 x e \<longleftrightarrow> x \<noteq> sd \<and> live s x e" for x e
    using sd by (cases "x = sd") (auto simp: live_def s3(5) nth_list_update eq_nat_nat_iff)
  have "distinct (sd # sds)" using distinct_ready [OF demux_invD(6) [OF Cons.prems(1)]] Cons.prems(2) by simp
  then have "\<forall>x \<in> set sds. asks s3 x (name x)" using Cons.prems(3) by (auto simp: asks_def lv)
  from Cons.IH [OF s3(2,3) this] Cons.prems(4) obtain s' where
    "serve_loop access fopen fsize frd (Suc n) (\<lambda>s. s) (sent_join expected g) lsd s3 = Some (Ret (None, s'))"
    "demux_inv env lsd s'" "ready_sds (backlog_of lsd s') = []" "waiting_sds lsd s' = waiting_sds lsd s3"
    "\<forall>x e. live s' x e \<longleftrightarrow> x \<notin> set sds \<and> live s3 x e" by auto
  then show ?case using s3(1,4) lv by auto
qed

section \<open>A server with one client\<close>

lemma demux_inv_at_ctx:
  assumes inv: "demux_inv env lsd s" and sd: "live s sd e" "sd \<noteq> lsd"
    and f: "my_sd (f (ctx_of e)) = my_sd (ctx_of e)" "listen_sd (f (ctx_of e)) = listen_sd (ctx_of e)"
  shows "demux_inv env lsd (at_ctx sd f s) \<and> backlog_of lsd (at_ctx sd f s) = backlog_of lsd s
    \<and> live (at_ctx sd f s) sd (e\<lparr>ctx_of := f (ctx_of e)\<rparr>)"
proof -
  let ?e = "e\<lparr>ctx_of := f (ctx_of e)\<rparr>" and ?s = "at_ctx sd f s"
  have s: "?s = put_entry s sd ?e" using at_ctx_live [OF sd(1)] by (simp add: put_ctx_def)
  have lv: "live ?s x d \<longleftrightarrow> (if x = sd then d = ?e else live s x d)" for x d
    unfolding s by (rule live_put_entry) (use sd in \<open>auto simp: live_def\<close>)
  have b: "listen_table ?s = listen_table s" "backlog_of lsd ?s = backlog_of lsd s" by (simp_all add: s put_entry_def backlog_of_def)
  have "table_ok ?s" using demux_invD(2) [OF inv] sd(1) f(1)
    by (auto simp: s table_ok_def put_entry_def live_def nth_list_update split: if_splits)
  moreover have "\<exists>d. live ?s lsd d \<and> listening (ctx_of d) \<and> bound (ctx_of d)" using demux_invD(4) [OF inv] lv sd(2) by auto
  moreover have "x \<noteq> lsd \<and> (\<exists>d. live ?s x d \<and> listen_sd (ctx_of d) = lsd)" if "x \<in> set (slots (backlog_of lsd s))" for x
    using demux_invD(7) [OF inv that] lv [of x] f(2) live_unique [OF sd(1)] by (cases "x = sd") auto
  ultimately show ?thesis using demux_invD [OF inv] b lv unfolding demux_inv_def by simp
qed

text \<open>The first connection of the listening process: its handshake is done, and its client has asked for \<open>ab\<close>.\<close>

definition demo_arrived :: mysock_sys where
  "demo_arrived = (case mysock_enqueue_connection demo_os demo_listening 0 demo_syn demo_peer 16 of
     Ret (_, s) \<Rightarrow> (case mysock_passive_connection_complete s 1 of Ret s' \<Rightarrow> s' | _ \<Rightarrow> s) | _ \<Rightarrow> demo_listening)"

definition demo_asking :: mysock_sys where
  "demo_asking = at_ctx 1 (app_send_queue_update (\<lambda>_. [to_bytes (''ab'' @ crlf), []])) demo_arrived"

lemma demo_arrived: "demux_inv demo_os 0 demo_arrived" "ready_sds (backlog_of 0 demo_arrived) = [1]"
proof -
  obtain e where e: "live demo_listening 0 e" using demo_listener by blast
  obtain sa where sa: "mysock_enqueue_connection demo_os demo_listening 0 demo_syn demo_peer 16 = Ret (True, sa)"
      "demux_inv demo_os 0 sa" "set (slots (backlog_of 0 sa)) = insert 1 (set (slots (backlog_of 0 demo_listening)))"
      "ready_sds (backlog_of 0 sa) = ready_sds (backlog_of 0 demo_listening)"
    using arrive_new [OF demo_listen(2) refl demo_listening_facts(2) demo_unknown demo_listening_facts(4,1) e, of demo_peer] by auto
  then have w: "1 \<in> waiting_sds 0 sa" using demo_listen(3) by (simp add: waiting_sds_def)
  obtain s1 where s1: "mysock_passive_connection_complete sa 1 = Ret s1" "demux_inv demo_os 0 s1"
      "ready_sds (backlog_of 0 s1) = [1]" using complete_step [OF sa(2) w] sa(4) demo_listen(3) by auto
  then have "demo_arrived = s1" using sa(1) by (simp add: demo_arrived_def)
  then show "demux_inv demo_os 0 demo_arrived" "ready_sds (backlog_of 0 demo_arrived) = [1]" using s1 by simp_all
qed

lemma demo_arrived_live:
  obtains e where "live demo_arrived 1 e" "stcp_errno (ctx_of e) = 0" "0 < peer_addr_len (network_state (ctx_of e))"
    "my_ok (ctx_of e)" "transport_thread_started (ctx_of e)" "app_recv_queue (ctx_of e) = []" "\<not> eof (ctx_of e)"
proof -
  have "map_option (\<lambda>e. stcp_errno (ctx_of e) = 0 \<and> 0 < peer_addr_len (network_state (ctx_of e)) \<and> my_ok (ctx_of e)
      \<and> transport_thread_started (ctx_of e) \<and> app_recv_queue (ctx_of e) = [] \<and> \<not> eof (ctx_of e)) (global_ctx demo_arrived ! 1) = Some True"
    "length (global_ctx demo_arrived) = MAX_NUM_CONNECTIONS"
    by code_simp+
  then show thesis using that by (auto simp: live_def MAX_NUM_CONNECTIONS_def)
qed

lemma demo_asking: "demux_inv demo_os 0 demo_asking" "ready_sds (backlog_of 0 demo_asking) = [1]" "asks demo_asking 1 ''ab''"
proof -
  obtain e where e: "live demo_arrived 1 e" "stcp_errno (ctx_of e) = 0" "0 < peer_addr_len (network_state (ctx_of e))"
    "my_ok (ctx_of e)" "transport_thread_started (ctx_of e)" "app_recv_queue (ctx_of e) = []" "\<not> eof (ctx_of e)"
    by (rule demo_arrived_live)
  let ?f = "app_send_queue_update (\<lambda>_. [to_bytes (''ab'' @ crlf), []])"
  have a: "demux_inv demo_os 0 demo_asking" "backlog_of 0 demo_asking = backlog_of 0 demo_arrived"
      "live demo_asking 1 (e\<lparr>ctx_of := ?f (ctx_of e)\<rparr>)"
    using demux_inv_at_ctx [OF demo_arrived(1) e(1), of ?f] by (simp_all add: demo_asking_def)
  show "demux_inv demo_os 0 demo_asking" "ready_sds (backlog_of 0 demo_asking) = [1]" using a demo_arrived(2) by simp_all
  show "asks demo_asking 1 ''ab''" unfolding asks_def
    by (rule exI, intro conjI, rule a(3)) (use e in \<open>simp_all add: my_defs crlf_def\<close>)
qed

theorem server_serves_all_witness:
  "\<exists>s'. serve_loop (\<lambda>_. True) (\<lambda>_. Some ([1, 2, 13] :: bytes)) length list_reader 1 (\<lambda>s. s)
      (sent_join (\<lambda>_. reply ''ab'' [1, 2, 13]) (\<lambda>c. c)) 0 demo_asking = Some (Ret (None, s'))
    \<and> (\<forall>e. \<not> live s' 1 e)"
proof -
  have "has_file (\<lambda>_. True) (\<lambda>_. Some ([1, 2, 13] :: bytes)) length (\<lambda>f. f) ''ab'' [1, 2, 13]"
    by (simp add: has_file_def SERVER_LINE_def)
  then show ?thesis
    using server_serves_all [OF demo_asking(1,2), of "\<lambda>_. ''ab''" "\<lambda>_. True" "\<lambda>_. Some [1, 2, 13]" length "\<lambda>f. f" "\<lambda>_. [1, 2, 13]"
        "\<lambda>_. reply ''ab'' [1, 2, 13]" list_reader "\<lambda>_. 0" "\<lambda>c. c" 0] demo_asking(3)
    by (auto simp: list_reader_ok steady_def ends_def list_reader_def thread_effect_def)
qed

end
