(* ===== verification/Spec2Isabelle.thy ===== *)
theory Spec2Isabelle
  imports Sr_Main_Props Sr_Race Mysock_Process Transport_Close Proxy_Props File_Server_Props
begin

text \<open>
  \<^bold>\<open>The program.\<close> The repository holds four network programs in C: a client and a server that pass text over a TCP
  connection (\<^verbatim>\<open>src/20180036_assign1\<close>), an HTTP proxy with a blacklist (\<^verbatim>\<open>src/20180036_assign2\<close>), an IP router
  that talks to a virtual network server (\<^verbatim>\<open>src/20180036_assign3\<close>), and STCP, a transport layer with a socket
  interface of its own (\<^verbatim>\<open>src/20180036_assign4\<close>). This development models them as functions on records and byte
  lists and proves what makes them correct. Paths below are relative to these directories.

  \<^bold>\<open>Conventions.\<close> Machine integers are words of their width; a header overlaid on a buffer is a record with an encoder
  and a decoder on bytes, and reads and writes through it are checked against the length of the buffer
  (\<open>Packed\<close>, locale \<open>packed_struct\<close>). The host is little-endian. Faults of the C program (null dereference, access
  out of bounds, use after free, failed assertion) are values of the error type of the result, so that a theorem
  with a result \<open>Inr\<close> also says that there is no fault. System calls are parameters: a connection to read from is a
  function of type \<open>reader\<close> with the law \<open>reader_ok\<close> (a call returns some, not necessarily all, of the bytes that are
  there), \<open>steady\<close> (no errors) and \<open>ends\<close> (end of file after the last byte), all in \<open>Sock_Io\<close>, and
  \<open>list_reader\<close> is an instance. Loops that may not end are partial functions with the value \<open>None\<close> for not returning;
  the theorems about them state that they return. Where the recursion bound of a total function is used up the result
  is the fault \<open>OutOfFuel\<close>, so a theorem with a proper result shows that the bound was enough. Progress messages
  on the terminal are not modelled.

  \<^bold>\<open>The router.\<close>
  \<^item> \<open>Sr_Protocol\<close> (\<^verbatim>\<open>sr_protocol.h\<close>), \<open>Sr_Utils\<close> (\<^verbatim>\<open>cksum\<close>), \<open>Sr_If\<close>, \<open>Sr_Rt\<close>, \<open>Sr_Load\<close> (\<^verbatim>\<open>sr_if.c\<close>, \<^verbatim>\<open>sr_rt.c\<close>,
    the check of the routing table in \<^verbatim>\<open>sr_main.c\<close>; \<open>Libc\<close> has \<^verbatim>\<open>fgets\<close>, \<^verbatim>\<open>sscanf\<close> and \<^verbatim>\<open>inet_aton\<close>): headers, the
    checksum against the one's-complement sum of RFC 1071, interfaces, routes and longest prefix match.
  \<^item> \<open>Sr_Arpcache\<close> (\<^verbatim>\<open>sr_arpcache.c\<close>): cache entries and the queue of ARP requests; requests live in a store of
    addresses, so that freeing one that is still used is visible. \<open>sr_arpcache_handle_arpreq\<close> and
    \<open>sr_handlepacket\<close> take a bound on the depth of the recursion between handling a request and queueing the ICMP
    errors it causes; the C code has no bound, and exceeding it is an error value. The theorems hold for every bound
    or say how large it must be.
  \<^item> \<open>Sr_Send\<close>, \<open>Sr_Icmp\<close>, \<open>Sr_Router\<close> (\<^verbatim>\<open>sr_router.c\<close>, sending in \<^verbatim>\<open>sr_vns_comm.c\<close>): the packet handler branch by
    branch.
  \<^item> \<open>Sr_Arpcache_Inv\<close>, \<open>Sr_Router_Inv\<close>: what every call keeps (a well-formed request queue, every frame sent carries the
    address of its interface and a valid checksum, no null dereference with a complete routing table); locale
    \<open>arp_handler\<close> holds what every handler of a request keeps. \<open>Sr_Router_Props\<close>, \<open>Sr_Arp_Props\<close>, \<open>Sr_Arp_Life\<close>: what
    the handler does on each kind of frame, and the states reached by whole calls. \<open>Sr_Examples\<close> has the concrete frames.
  \<^item> \<open>Sr_Threads\<close>: the receiving thread and the timeout thread of \<^verbatim>\<open>sr_arpcache_timeout\<close> on one state. A thread is a list of
    actions, between which the other one may run: a call of a cache operation, a call of \<^verbatim>\<open>sr_send_packet\<close>, or the
    accesses to a request between two calls. The timeout thread holds the lock of the cache for its whole round, and an
    action that takes the lock waits for it. There is no bound on the recursion here. \<open>Sr_Threads_Sim\<close>: whole calls
    of \<open>sr_handlepacket\<close> and whole rounds, as the functions above compute them, are schedules of these actions.
    \<open>Sr_Threads_Inv\<close>, \<open>Sr_Threads_Props\<close>: the invariants in every interleaving. A request that the handler has taken
    off the queue for an ARP reply belongs to the handler until it frees it, and everything else allocated is
    on the queue; frames and log stay well-formed. Only the accesses to a request by its address can fault:
    \<open>Sr_Race\<close> has a schedule in which a round frees the request that the handler has just queued a frame on.
  \<^item> \<open>Sha1\<close> (\<^verbatim>\<open>sha1.c\<close>): equal to a functional definition of FIPS 180-1. \<open>Sr_Vns\<close>, \<open>Sr_Vns_Props\<close>,
    \<open>Sr_Vns_Examples\<close> (\<^verbatim>\<open>sr_vns_comm.c\<close>, \<^verbatim>\<open>vnscommand.h\<close>): the session with the server, authentication, commands and the
    main loop, for commands that arrive in any pieces.
  \<^item> \<open>Sr_Dumper\<close> (\<^verbatim>\<open>sr_dumper.c\<close>): the bytes of the dump file, and the format as a reader of such files sees it.
    \<open>Sr_Print\<close>, \<open>Sr_Print_Props\<close> (the \<^verbatim>\<open>print\<close> functions of \<^verbatim>\<open>sr_utils.c\<close>, \<^verbatim>\<open>sr_if.c\<close>, \<^verbatim>\<open>sr_rt.c\<close> and \<^verbatim>\<open>sr_arpcache.c\<close>) as
    functions to the printed text: a printed routing table loads back. \<open>Sr_Main\<close>, \<open>Sr_Main_Props\<close> (\<^verbatim>\<open>sr_main.c\<close>): the
    program from its arguments to its exit code, and a whole run against a server that follows the protocol; the
    timeout thread is not interleaved with that run.

  \<^bold>\<open>STCP.\<close>
  \<^item> \<open>Mysock_Hash\<close> (\<^verbatim>\<open>mysock_hash.h\<close>): chained hash tables, which refine finite maps (locale \<open>fallible_map\<close>).
  \<^item> \<open>Stcp_Header\<close> (\<^verbatim>\<open>transport.h\<close>, \<^verbatim>\<open>tcp_sum.c\<close>): segments and their checksum. \<open>Mysock\<close> (\<^verbatim>\<open>mysock.c\<close>, \<^verbatim>\<open>stcp_api.c\<close>,
    \<^verbatim>\<open>network.c\<close>): the queues between application, transport and network, which are byte streams (locale
    \<open>byte_stream\<close>). A wait on a condition variable that cannot be satisfied is the outcome \<open>Block\<close>.
  \<^item> \<open>Transport\<close> (\<^verbatim>\<open>transport.c\<close>): handshake and control loop. \<open>Transport_Link\<close> to \<open>Transport_Close\<close>: two endpoints joined
    by ordered, reliable channels, with one iteration of a control loop, one call of an application or one
    delivered packet as a step; window bounds, the invariant of the stream, delivery of everything written,
    handshake and release. STCP does not retransmit and relies on such a network.
  \<^item> \<open>Network_Io_Tcp\<close> (\<^verbatim>\<open>network_io_tcp.c\<close>, \<^verbatim>\<open>network_io_socket.c\<close>): packets framed on a TCP connection, which is the
    network that the transport layer relies on. \<open>Mysock_Table\<close>, \<open>Mysock_Api\<close> (\<^verbatim>\<open>mysock.c\<close>, \<^verbatim>\<open>mysock_api.c\<close>):
    descriptors and the calls of an application; what other threads do while a call waits is a parameter of it.
    \<open>Connection_Demux\<close> (\<^verbatim>\<open>connection_demux.c\<close>): listening sockets and their backlog. \<open>Demux_Props\<close>: the backlog is a
    first-in first-out queue of completed connections (locale \<open>accept_queue\<close>). \<open>Mysock_Props\<close>, \<open>Mysock_Examples\<close>: the
    remaining properties and concrete runs. \<open>Mysock_Process\<close>: the states a process reaches by calls and thread actions
    in any order, as an inductive predicate; its tables stay well-formed, proved with postconditions of runs. It also has
    the timed form of \<^verbatim>\<open>stcp_wait_for_event\<close>, which \<^verbatim>\<open>transport.c\<close> does not use.
  \<^item> \<open>File_Transfer\<close>, \<open>File_Transfer_Props\<close> (\<^verbatim>\<open>client.c\<close>, \<^verbatim>\<open>server.c\<close>): the loops of the programs that transfer files over a
    mysocket. Their lemmas need only the laws of a stream to read from (locale \<open>stream_reader\<close>) and of a stream socket
    (locale \<open>stream_socket\<close>, interpreted on mysockets whose queue holds the data): a file arrives unchanged.
    \<open>File_Main\<close>, \<open>File_Main_Props\<close>: both programs from their arguments on, on the descriptors of a process. The
    address that the server prints leads the client to it, and a run of the client as a whole transfers the file; the
    threads of the client's mysocket are a function on its context (locale \<open>settled_threads\<close>, which gives
    \<open>stream_reader\<close> for the calls on a descriptor). \<open>File_Server_Props\<close>: the server answers all clients that are in its
    backlog, one after the other; a descriptor of the table is again a \<open>stream_socket\<close>.

  \<^bold>\<open>Client, server and proxy.\<close> \<open>Listener\<close>: opening a listening socket and the loop that accepts connections, the same code in
  the server of assignment 1 and in the proxy; the results of \<^verbatim>\<open>accept\<close> and \<^verbatim>\<open>fork\<close> are a list of events. \<open>Assign1\<close> (\<^verbatim>\<open>client.c\<close>,
  \<^verbatim>\<open>server.c\<close>): both programs, and that the server prints what its clients read up to the first empty line. \<open>Proxy\<close>
  (\<^verbatim>\<open>proxy.c\<close>): the blacklist, the child process that serves a connection and the program; \<open>Proxy_Props\<close>: requests are
  forwarded or redirected, and the response is relayed unchanged.

  \<^bold>\<open>Shared lemmas.\<close> \<open>Prelude\<close> has byte order, the checked buffer accesses and the lemmas on them, \<open>Sr_Instance\<close> the state
  of the router.

  \<^bold>\<open>Not modelled.\<close> Messages printed on the way. In the router, interleavings inside an action (two threads that write the
  same field of a request at the same time, or the socket and the log inside \<^verbatim>\<open>sr_send_packet\<close>). In STCP, the locks: a call
  or a loop iteration is one step, and what other threads do while a call waits is a parameter of it. The timeout
  thread is not interleaved with the run of \<^verbatim>\<open>main\<close> in \<open>Sr_Main_Props\<close>. Signal handlers, which only reap child
  processes; running out of memory; a system call that fails where the code does not look at the result; files
  left by an editor, which are older copies of modelled sources.
\<close>

end
